(* ===== verification/Prelude.thy ===== *)
theory Prelude
  imports Complex_Main "HOL-Library.Word"
begin

text \<open>
  What every component of the development shares: the exceptions a JavaScript expression can
  raise and the result type that carries them, the numbers of the language, reads of an array
  by index, and the collections of rewrite rules the component theories extend.

  Numbers.  A JavaScript number is a double; the model keeps the special values of a double
  (the two infinities and NaN), because the code divides and reads array elements that may not
  exist, and takes the finite ones to be exact reals: rounding and the sign of zero are not
  modelled.  Reading an index out of range gives \<open>undefined\<close>, which is NaN in every numeric use
  the code makes of it.
\<close>

named_theorems rd_simps \<open>evaluation of results\<close>
named_theorems num_simps \<open>evaluation of JavaScript numbers\<close>

section \<open>Results\<close>

datatype js_error =
    TypeError      \<comment> \<open>a property or method of null or undefined\<close>
  | RangeError     \<comment> \<open>the maximal depth of the call stack is exceeded\<close>

type_synonym 'a result = "js_error + 'a"

definition andThen :: "'a result \<Rightarrow> ('a \<Rightarrow> 'b result) \<Rightarrow> 'b result" where
  "andThen r f = (case r of Inl e \<Rightarrow> Inl e | Inr x \<Rightarrow> f x)"

lemma andThen_simps [simp, rd_simps]:
  "andThen (Inl e) f = Inl e"
  "andThen (Inr x) f = f x"
  by (simp_all add: andThen_def)

lemma andThen_assoc: "andThen (andThen r f) g = andThen r (\<lambda>x. andThen (f x) g)"
  by (simp add: andThen_def split: sum.split)

lemma andThen_eq_Inr: "andThen r f = Inr y \<longleftrightarrow> (\<exists>x. r = Inr x \<and> f x = Inr y)"
  by (cases r) auto

lemma andThen_cong: "r = r' \<Longrightarrow> (\<And>x. r' = Inr x \<Longrightarrow> f x = g x) \<Longrightarrow> andThen r f = andThen r' g"
  by (cases r') auto

definition mapResult :: "('a \<Rightarrow> 'b) \<Rightarrow> 'a result \<Rightarrow> 'b result" where
  "mapResult f r = andThen r (\<lambda>x. Inr (f x))"

lemma mapResult_simps [simp, rd_simps]:
  "mapResult f (Inl e) = Inl e"
  "mapResult f (Inr x) = Inr (f x)"
  by (simp_all add: mapResult_def)

lemma andThen_mapResult: "andThen (mapResult f r) g = andThen r (\<lambda>x. g (f x))"
  by (cases r) simp_all

lemma mapResult_andThen: "mapResult f (andThen r g) = andThen r (\<lambda>x. mapResult f (g x))"
  by (cases r) simp_all

text \<open>Dereferencing: a method or a field of an absent object raises a TypeError.\<close>

definition deref :: "'a option \<Rightarrow> 'a result" where
  "deref r = (case r of None \<Rightarrow> Inl TypeError | Some x \<Rightarrow> Inr x)"

lemma deref_simps [simp, rd_simps]: "deref None = Inl TypeError" "deref (Some x) = Inr x"
  by (simp_all add: deref_def)

lemma deref_eq_Inr: "deref r = Inr x \<longleftrightarrow> r = Some x"
  by (cases r) simp_all

text \<open>A loop over a list whose body may raise.\<close>

fun each :: "('x \<Rightarrow> 's \<Rightarrow> 's result) \<Rightarrow> 'x list \<Rightarrow> 's \<Rightarrow> 's result" where
  "each f [] s = Inr s"
| "each f (x # xs) s = andThen (f x s) (each f xs)"

lemma each_append: "each f (xs @ ys) s = andThen (each f xs s) (each f ys)"
proof (induction xs arbitrary: s)
  case (Cons x xs)
  then show ?case by (cases "f x s") simp_all
qed simp

lemma each_map: "each f (map g xs) s = each (\<lambda>x. f (g x)) xs s"
proof (induction xs arbitrary: s)
  case (Cons x xs)
  then show ?case by (cases "f (g x) s") simp_all
qed simp

text \<open>The outcome of a loop: an invariant of the state, or one of the errors of its body.\<close>

definition outcome :: "('s \<Rightarrow> bool) \<Rightarrow> (js_error \<Rightarrow> bool) \<Rightarrow> 's result \<Rightarrow> bool" where
  "outcome I E r = (case r of Inl e \<Rightarrow> E e | Inr s \<Rightarrow> I s)"

lemma outcome_simps [simp]: "outcome I E (Inl e) = E e" "outcome I E (Inr s) = I s"
  by (simp_all add: outcome_def)

lemma each_outcome:
  assumes "I s" and "\<And>x s. x \<in> set xs \<Longrightarrow> I s \<Longrightarrow> outcome I E (f x s)"
  shows "outcome I E (each f xs s)"
  using assms
proof (induction xs arbitrary: s)
  case (Cons x xs)
  from Cons.prems have "outcome I E (f x s)" by simp
  with Cons show ?case by (cases "f x s") simp_all
qed simp

text \<open>Two loops whose bodies correspond.\<close>

lemma each_simulates:
  assumes "I s" and "\<And>x s. x \<in> set xs \<Longrightarrow> I s \<Longrightarrow> g x (h s) = mapResult h (f x s)"
    and "\<And>x s s'. x \<in> set xs \<Longrightarrow> I s \<Longrightarrow> f x s = Inr s' \<Longrightarrow> I s'"
  shows "each g xs (h s) = mapResult h (each f xs s)"
  using assms
proof (induction xs arbitrary: s)
  case (Cons x xs)
  have step: "g x (h s) = mapResult h (f x s)" using Cons.prems(1,2) by simp
  show ?case
  proof (cases "f x s")
    case (Inr s')
    have "I s'" by (rule Cons.prems(3) [OF _ Cons.prems(1) Inr]) simp
    then have "each g xs (h s') = mapResult h (each f xs s')"
      by (rule Cons.IH) (metis Cons.prems(2) list.set_intros(2), metis Cons.prems(3) list.set_intros(2))
    with step Inr show ?thesis by simp
  qed (simp add: step)
qed simp

text \<open>A body that keeps an invariant returns from every round, and so does the loop.\<close>

lemma each_invariant:
  assumes "I s" and "\<And>x s. x \<in> set xs \<Longrightarrow> I s \<Longrightarrow> \<exists>s'. f x s = Inr s' \<and> I s' \<and> R s s'"
    and "\<And>s. R s s" and "\<And>s t u. R s t \<Longrightarrow> R t u \<Longrightarrow> R s u"
  shows "\<exists>s'. each f xs s = Inr s' \<and> I s' \<and> R s s'"
  using assms(1,2)
proof (induction xs arbitrary: s)
  case (Cons x xs)
  from Cons.prems obtain s1 where 1: "f x s = Inr s1" "I s1" "R s s1" by force
  from Cons.IH [OF 1(2)] Cons.prems(2) obtain s2 where "each f xs s1 = Inr s2" "I s2" "R s1 s2"
    by (metis list.set_intros(2))
  with 1 assms(4) show ?case by auto
qed (simp add: assms(3))

text \<open>Returning, with a property of the value: the rule for sequences of calls.\<close>

definition yields :: "'x result \<Rightarrow> ('x \<Rightarrow> bool) \<Rightarrow> bool" where
  "yields r Q \<longleftrightarrow> (\<exists>x. r = Inr x \<and> Q x)"

lemma yields_Inr [simp]: "yields (Inr x) Q = Q x"
  by (simp add: yields_def)

lemma yields_andThen [simp]: "yields (andThen r f) Q = yields r (\<lambda>x. yields (f x) Q)"
  by (cases r) (simp_all add: yields_def)

lemma yields_mono: "yields r Q \<Longrightarrow> (\<And>x. Q x \<Longrightarrow> R x) \<Longrightarrow> yields r R"
  by (auto simp: yields_def)

section \<open>Numbers\<close>

datatype number = Fin real | PosInf | NegInf | NaN

text \<open>Zero, multiplied with an infinity or divided by zero, has no value; the sign decides otherwise.\<close>

definition inf_sign :: "real \<Rightarrow> number" where
  "inf_sign x = (if x = 0 then NaN else if x > 0 then PosInf else NegInf)"

instantiation number :: "{zero, one, plus, uminus, minus, times, inverse}"
begin

definition zero_number :: number where "0 = Fin 0"

definition one_number :: number where "1 = Fin 1"

fun plus_number :: "number \<Rightarrow> number \<Rightarrow> number" where
  "plus_number (Fin x) (Fin y) = Fin (x + y)"
| "plus_number NaN _ = NaN"
| "plus_number _ NaN = NaN"
| "plus_number PosInf NegInf = NaN"
| "plus_number NegInf PosInf = NaN"
| "plus_number PosInf _ = PosInf"
| "plus_number _ PosInf = PosInf"
| "plus_number NegInf _ = NegInf"
| "plus_number _ NegInf = NegInf"

fun uminus_number :: "number \<Rightarrow> number" where
  "uminus_number (Fin x) = Fin (- x)"
| "uminus_number PosInf = NegInf"
| "uminus_number NegInf = PosInf"
| "uminus_number NaN = NaN"

definition minus_number :: "number \<Rightarrow> number \<Rightarrow> number" where
  "minus_number a b = a + (- b)"

fun times_number :: "number \<Rightarrow> number \<Rightarrow> number" where
  "times_number (Fin x) (Fin y) = Fin (x * y)"
| "times_number NaN _ = NaN"
| "times_number _ NaN = NaN"
| "times_number (Fin x) PosInf = inf_sign x"
| "times_number (Fin x) NegInf = inf_sign (- x)"
| "times_number PosInf (Fin x) = inf_sign x"
| "times_number NegInf (Fin x) = inf_sign (- x)"
| "times_number PosInf PosInf = PosInf"
| "times_number PosInf NegInf = NegInf"
| "times_number NegInf PosInf = NegInf"
| "times_number NegInf NegInf = PosInf"

text \<open>Division never raises: a zero divisor gives an infinity, or NaN for \<open>0 / 0\<close>.\<close>

fun divide_number :: "number \<Rightarrow> number \<Rightarrow> number" where
  "divide_number (Fin x) (Fin y) = (if y = 0 then inf_sign x else Fin (x / y))"
| "divide_number NaN _ = NaN"
| "divide_number _ NaN = NaN"
| "divide_number (Fin x) PosInf = Fin 0"
| "divide_number (Fin x) NegInf = Fin 0"
| "divide_number PosInf (Fin y) = (if y \<ge> 0 then PosInf else NegInf)"
| "divide_number NegInf (Fin y) = (if y \<ge> 0 then NegInf else PosInf)"
| "divide_number PosInf PosInf = NaN"
| "divide_number PosInf NegInf = NaN"
| "divide_number NegInf PosInf = NaN"
| "divide_number NegInf NegInf = NaN"

definition inverse_number :: "number \<Rightarrow> number" where
  "inverse_number a = divide (Fin 1) a"

instance ..

end

lemma plus_number_comm: "p + q = q + (p :: number)"
  by (cases p; cases q) (simp_all add: add.commute)

lemma plus_number_assoc: "p + q + r = p + (q + (r :: number))"
  by (cases r; cases q; cases p) simp_all

lemma zero_plus_number: "0 + p = (p :: number)"
  unfolding zero_number_def by (cases p) simp_all

instance number :: comm_monoid_add
  by (intro_classes; rule plus_number_assoc plus_number_comm zero_plus_number)

instance number :: numeral ..

lemma numeral_number: "(numeral n :: number) = Fin (numeral n)"
proof (induction n)
  case One
  then show ?case by (simp add: one_number_def)
next
  case (Bit0 n)
  then show ?case by (simp only: numeral_Bit0 plus_number.simps)
next
  case (Bit1 n)
  then show ?case by (simp only: numeral_Bit1 one_number_def plus_number.simps)
qed

lemma minus_number_Fin: "Fin x - Fin y = Fin (x - y)"
  by (simp add: minus_number_def)

declare plus_number.simps [num_simps] uminus_number.simps [num_simps]
  times_number.simps [num_simps] divide_number.simps [num_simps]
  zero_number_def [num_simps] one_number_def [num_simps] numeral_number [num_simps]
  minus_number_Fin [num_simps] inf_sign_def [num_simps]

lemma NaN_absorbs [simp, num_simps]:
  "NaN + a = NaN" "a + NaN = NaN" "- NaN = NaN" "NaN * a = NaN" "a * NaN = NaN"
  "NaN / a = NaN" "a / NaN = NaN" "NaN - a = NaN" "a - NaN = NaN"
  by (cases a; simp add: minus_number_def)+

text \<open>The remainder operator \<open>%\<close>: the result takes the sign of the dividend.\<close>

fun js_rem :: "number \<Rightarrow> number \<Rightarrow> number" where
  "js_rem (Fin x) (Fin y) =
     (if y = 0 then NaN
      else Fin (sgn x * (\<bar>x\<bar> - \<bar>y\<bar> * of_int \<lfloor>\<bar>x\<bar> / \<bar>y\<bar>\<rfloor>)))"
| "js_rem (Fin x) PosInf = Fin x"
| "js_rem (Fin x) NegInf = Fin x"
| "js_rem _ _ = NaN"

fun finite_number :: "number \<Rightarrow> bool" where
  "finite_number (Fin _) = True"
| "finite_number _ = False"

lemma finite_number_iff: "finite_number a \<longleftrightarrow> (\<exists>x. a = Fin x)"
  by (cases a) auto

lemma finite_number_arith [simp]:
  "finite_number a \<Longrightarrow> finite_number b \<Longrightarrow> finite_number (a + b)"
  "finite_number a \<Longrightarrow> finite_number b \<Longrightarrow> finite_number (a * b)"
  "finite_number a \<Longrightarrow> finite_number b \<Longrightarrow> finite_number (a - b)"
  "finite_number a \<Longrightarrow> finite_number (- a)"
  by (cases a; cases b; simp add: minus_number_Fin)+

text \<open>\<open>Math.sin\<close>, \<open>Math.cos\<close>, \<open>Math.tan\<close> and \<open>Math.PI\<close>: the real functions, NaN off the reals.\<close>

fun js_sin :: "number \<Rightarrow> number" where
  "js_sin (Fin x) = Fin (sin x)"
| "js_sin _ = NaN"

fun js_cos :: "number \<Rightarrow> number" where
  "js_cos (Fin x) = Fin (cos x)"
| "js_cos _ = NaN"

fun js_tan :: "number \<Rightarrow> number" where
  "js_tan (Fin x) = Fin (tan x)"
| "js_tan _ = NaN"

definition js_PI :: number where "js_PI = Fin pi"

declare js_sin.simps [num_simps] js_cos.simps [num_simps] js_tan.simps [num_simps]
  js_PI_def [num_simps]

section \<open>Arrays\<close>

text \<open>A numeric read \<open>v[i]\<close>: past the end it is \<open>undefined\<close>, that is NaN in arithmetic.\<close>

definition js_at :: "number list \<Rightarrow> nat \<Rightarrow> number" where
  "js_at v i = (if i < length v then v ! i else NaN)"

text \<open>Reading an object: past the end there is none.\<close>

definition js_nth :: "'a list \<Rightarrow> nat \<Rightarrow> 'a option" where
  "js_nth xs i = (if i < length xs then Some (xs ! i) else None)"

lemma js_nth_simps [simp]:
  "js_nth [] i = None"
  "js_nth (x # xs) 0 = Some x"
  "js_nth (x # xs) (Suc i) = js_nth xs i"
  by (simp_all add: js_nth_def)

lemma js_at_simps [simp]:
  "js_at [] i = NaN"
  "js_at (x # xs) 0 = x"
  "js_at (x # xs) (Suc i) = js_at xs i"
  by (simp_all add: js_at_def)

lemma js_at_numeral [simp]: "js_at (x # xs) (numeral n) = js_at xs (pred_numeral n)"
  by (simp add: numeral_eq_Suc)

lemma js_at_one [simp]: "js_at (x # xs) 1 = js_at xs 0"
  by simp

lemma js_at_out: "length v \<le> i \<Longrightarrow> js_at v i = NaN"
  by (simp add: js_at_def)

section \<open>Lists\<close>

lemma length_concat_const:
  "(\<And>x. x \<in> set xs \<Longrightarrow> length (f x) = k) \<Longrightarrow> length (concat (map f xs)) = length xs * k"
  by (induction xs) auto

lemma nth_concat_const:
  assumes "\<And>x. x \<in> set xs \<Longrightarrow> length (f x) = k" and "i < length xs" and "j < k"
  shows "concat (map f xs) ! (i * k + j) = f (xs ! i) ! j"
  using assms
proof (induction xs arbitrary: i)
  case Nil
  then show ?case by simp
next
  case (Cons x xs)
  then show ?case by (cases i) (simp_all add: nth_append add.assoc)
qed

end
