(* ===== verification/GlMatrix.thy ===== *)
theory GlMatrix
  imports Prelude
begin

text \<open>
  The interface of the package gl-matrix, which is not part of the repository: a record of the
  functions the program calls, passed to every definition that uses one of them, and a locale
  with the documented laws the proofs rely on.  Matrices and vectors are what the package
  documents them to be, arrays of numbers (a \<open>mat4\<close> has sixteen entries, columns first).

  The receiving argument of a gl-matrix call is overwritten completely, so a field of the record
  takes the operands only and returns the new content of the receiver; the caller stores it
  where the code has the receiver.  \<open>invert\<close> and \<open>normalFromMat4\<close> return null for a singular
  matrix, hence the options.  The one call outside the documentation, \<open>mat4.mul\<close> with two
  vectors cast to matrices (light.ts), has a field of its own.

  The last section interprets the locale on a reference implementation of the documented
  operations over exact reals, so that the laws are known to be satisfiable together.
\<close>

section \<open>The functions of the package\<close>

type_synonym vec = "number list"
type_synonym mat = "number list"

record glm =
  mat4_create :: mat
  mat4_clone :: "mat \<Rightarrow> mat"
  mat4_mul :: "mat \<Rightarrow> mat \<Rightarrow> mat"
  mat4_mul_cast :: "mat \<Rightarrow> vec \<Rightarrow> vec"
  mat4_translate :: "mat \<Rightarrow> vec \<Rightarrow> mat"
  mat4_rotateX :: "mat \<Rightarrow> number \<Rightarrow> mat"
  mat4_rotateY :: "mat \<Rightarrow> number \<Rightarrow> mat"
  mat4_rotateZ :: "mat \<Rightarrow> number \<Rightarrow> mat"
  mat4_perspective :: "number \<Rightarrow> number \<Rightarrow> number \<Rightarrow> number \<Rightarrow> mat"
  mat4_invert :: "mat \<Rightarrow> mat option"
  mat3_normalFromMat4 :: "mat \<Rightarrow> mat option"
  vec3_fromValues :: "number \<Rightarrow> number \<Rightarrow> number \<Rightarrow> vec"
  vec3_set :: "number \<Rightarrow> number \<Rightarrow> number \<Rightarrow> vec"
  vec3_sub :: "vec \<Rightarrow> vec \<Rightarrow> vec"
  vec3_cross :: "vec \<Rightarrow> vec \<Rightarrow> vec"
  vec4_fromValues :: "number \<Rightarrow> number \<Rightarrow> number \<Rightarrow> number \<Rightarrow> vec"
  vec4_set :: "number \<Rightarrow> number \<Rightarrow> number \<Rightarrow> number \<Rightarrow> vec"
  vec4_clone :: "vec \<Rightarrow> vec"

section \<open>The documented laws\<close>

text \<open>
  \<open>ok\<close> singles out the matrices the scene is made of: finite, affine and invertible.  The
  operations that build them stay inside, and on them \<open>translate\<close> and \<open>rotate\<close> compose as
  translations and rotations do.
\<close>

locale gl_matrix =
  fixes P :: "'a glm_scheme"
    and ok :: "mat \<Rightarrow> bool"
  assumes create_ok: "ok (mat4_create P)"
    and mul_ok: "ok m \<Longrightarrow> ok n \<Longrightarrow> ok (mat4_mul P m n)"
    and translate_ok: "ok m \<Longrightarrow> ok (mat4_translate P m [Fin x, Fin y, Fin z])"
    and rotateX_ok: "ok m \<Longrightarrow> ok (mat4_rotateX P m (Fin a))"
    and rotateY_ok: "ok m \<Longrightarrow> ok (mat4_rotateY P m (Fin a))"
    and rotateZ_ok: "ok m \<Longrightarrow> ok (mat4_rotateZ P m (Fin a))"
    and clone_eq: "ok m \<Longrightarrow> mat4_clone P m = m"
    and mul_create: "ok m \<Longrightarrow> mat4_mul P m (mat4_create P) = m"
    and translate_add: "ok m \<Longrightarrow>
      mat4_translate P (mat4_translate P m [Fin x, Fin y, Fin z]) [Fin x', Fin y', Fin z'] =
      mat4_translate P m [Fin (x + x'), Fin (y + y'), Fin (z + z')]"
    and translate_0: "ok m \<Longrightarrow> mat4_translate P m [Fin 0, Fin 0, Fin 0] = m"
    and rotateX_0: "ok m \<Longrightarrow> mat4_rotateX P m (Fin 0) = m"
    and rotateX_add: "ok m \<Longrightarrow>
      mat4_rotateX P (mat4_rotateX P m (Fin a)) (Fin b) = mat4_rotateX P m (Fin (a + b))"
    and rotateY_add: "ok m \<Longrightarrow>
      mat4_rotateY P (mat4_rotateY P m (Fin a)) (Fin b) = mat4_rotateY P m (Fin (a + b))"
    and rotateY_0: "ok m \<Longrightarrow> mat4_rotateY P m (Fin 0) = m"
    and rotateY_turn: "ok m \<Longrightarrow> mat4_rotateY P m (Fin (2 * pi)) = m"
    and rotateZ_0: "ok m \<Longrightarrow> mat4_rotateZ P m (Fin 0) = m"
    and rotateZ_add: "ok m \<Longrightarrow>
      mat4_rotateZ P (mat4_rotateZ P m (Fin a)) (Fin b) = mat4_rotateZ P m (Fin (a + b))"
    and invert_some: "ok m \<Longrightarrow> mat4_invert P m \<noteq> None"
    and normal_some: "ok m \<Longrightarrow> mat3_normalFromMat4 P m \<noteq> None"
    and vec3_values: "vec3_fromValues P p q r = [p, q, r]"
    and vec3_set_values: "vec3_set P p q r = [p, q, r]"
    and vec4_values: "vec4_fromValues P p q r s = [p, q, r, s]"
    and vec4_set_values: "vec4_set P p q r s = [p, q, r, s]"
    and vec4_clone_eq: "vec4_clone P [p, q, r, s] = [p, q, r, s]"
    and mul_cast_eq: "ok m \<Longrightarrow> mat4_mul_cast P m [p, q, r, s] =
      map (\<lambda>i. js_at m i * p + js_at m (4 + i) * q + js_at m (8 + i) * r + js_at m (12 + i) * s) [0, 1, 2, 3]"
    and sub_eq: "vec3_sub P [p, q, r] [p', q', r'] = [p - p', q - q', r - r']"
    and cross_eq: "vec3_cross P [p, q, r] [p', q', r'] =
      [q * r' - r * q', r * p' - p * r', p * q' - q * p']"
begin

lemma translate_cancel:
  "ok m \<Longrightarrow> mat4_translate P (mat4_translate P m [Fin x, Fin y, Fin z]) [Fin (- x), Fin (- y), Fin (- z)] = m"
  by (simp add: translate_add translate_0)

lemma translate_x_cancel:
  "ok m \<Longrightarrow> mat4_translate P (mat4_translate P m [Fin x, Fin 0, Fin 0]) [Fin (- x), Fin 0, Fin 0] = m"
  using translate_cancel [of m x 0 0] by simp

lemma rotateY_turns: "ok m \<Longrightarrow> mat4_rotateY P m (Fin (real n * (2 * pi))) = m"
proof (induction n)
  case 0
  then show ?case by (simp add: rotateY_0)
next
  case (Suc n)
  have "mat4_rotateY P m (Fin (real (Suc n) * (2 * pi))) =
      mat4_rotateY P (mat4_rotateY P m (Fin (real n * (2 * pi)))) (Fin (2 * pi))"
    using Suc.prems by (simp add: rotateY_add algebra_simps)
  with Suc show ?case by (simp add: rotateY_turn)
qed

end

text \<open>
  A rotation by NaN: the package computes with the sine and the cosine of the angle, so two columns
  of the matrix become NaN, no translation or rotation brings numbers back into them, and the
  determinant is NaN, for which \<open>invert\<close> returns null as for every matrix without an inverse.  \<open>lost\<close>
  singles out such matrices.
\<close>

locale gl_matrix_nan = gl_matrix P ok for P :: "'a glm_scheme" and ok :: "mat \<Rightarrow> bool" +
  fixes lost :: "mat \<Rightarrow> bool"
  assumes rotateX_nan: "lost (mat4_rotateX P m NaN)"
    and translate_lost: "lost m \<Longrightarrow> lost (mat4_translate P m v)"
    and rotateX_lost: "lost m \<Longrightarrow> lost (mat4_rotateX P m a)"
    and rotateY_lost: "lost m \<Longrightarrow> lost (mat4_rotateY P m a)"
    and rotateZ_lost: "lost m \<Longrightarrow> lost (mat4_rotateZ P m a)"
    and invert_lost: "lost m \<Longrightarrow> mat4_invert P m = None"

section \<open>A reference implementation\<close>

text \<open>
  The documented operations written out: column-major matrices, \<open>translate\<close> and \<open>rotate\<close> as
  products with a translation or a rotation on the right.  The inverse is the one of an affine
  matrix, the only kind the program inverts; there is none when the determinant is 0 or NaN.
\<close>

definition ref_mul :: "mat \<Rightarrow> mat \<Rightarrow> mat" where
  "ref_mul a b = [js_at a r * js_at b (4 * c) + js_at a (4 + r) * js_at b (4 * c + 1)
     + js_at a (8 + r) * js_at b (4 * c + 2) + js_at a (12 + r) * js_at b (4 * c + 3).
     c \<leftarrow> [0, 1, 2, 3], r \<leftarrow> [0, 1, 2, 3]]"

definition ref_mul_cast :: "mat \<Rightarrow> vec \<Rightarrow> vec" where
  "ref_mul_cast a v = [js_at a r * js_at v 0 + js_at a (4 + r) * js_at v 1
     + js_at a (8 + r) * js_at v 2 + js_at a (12 + r) * js_at v 3. r \<leftarrow> [0, 1, 2, 3]]"

definition ref_identity :: mat where
  "ref_identity = [1, 0, 0, 0,  0, 1, 0, 0,  0, 0, 1, 0,  0, 0, 0, 1]"

definition ref_translation :: "vec \<Rightarrow> mat" where
  "ref_translation v =
     [1, 0, 0, 0,  0, 1, 0, 0,  0, 0, 1, 0,  js_at v 0, js_at v 1, js_at v 2, 1]"

definition ref_rotX :: "number \<Rightarrow> mat" where
  "ref_rotX a = [1, 0, 0, 0,  0, js_cos a, js_sin a, 0,  0, - js_sin a, js_cos a, 0,  0, 0, 0, 1]"

definition ref_rotY :: "number \<Rightarrow> mat" where
  "ref_rotY a = [js_cos a, 0, - js_sin a, 0,  0, 1, 0, 0,  js_sin a, 0, js_cos a, 0,  0, 0, 0, 1]"

definition ref_rotZ :: "number \<Rightarrow> mat" where
  "ref_rotZ a = [js_cos a, js_sin a, 0, 0,  - js_sin a, js_cos a, 0, 0,  0, 0, 1, 0,  0, 0, 0, 1]"

definition ref_perspective :: "number \<Rightarrow> number \<Rightarrow> number \<Rightarrow> number \<Rightarrow> mat" where
  "ref_perspective fovy aspect near far =
     (let f = 1 / js_tan (fovy / 2); nf = 1 / (near - far)
      in [f / aspect, 0, 0, 0,  0, f, 0, 0,  0, 0, (far + near) * nf, - 1,
          0, 0, 2 * far * near * nf, 0])"

text \<open>The cofactors of the upper left block, column by column, and its determinant.\<close>

definition ref_cof :: "mat \<Rightarrow> number list" where
  "ref_cof m = (let a = js_at m in
     [a 5 * a 10 - a 6 * a 9, a 6 * a 8 - a 4 * a 10, a 4 * a 9 - a 5 * a 8,
      a 2 * a 9 - a 1 * a 10, a 0 * a 10 - a 2 * a 8, a 1 * a 8 - a 0 * a 9,
      a 1 * a 6 - a 2 * a 5, a 2 * a 4 - a 0 * a 6, a 0 * a 5 - a 1 * a 4])"

definition ref_det :: "mat \<Rightarrow> number" where
  "ref_det m = js_at m 0 * js_at (ref_cof m) 0 + js_at m 1 * js_at (ref_cof m) 1
     + js_at m 2 * js_at (ref_cof m) 2"

definition ref_normal :: "mat \<Rightarrow> mat option" where
  "ref_normal m = (if ref_det m = 0 \<or> ref_det m = NaN then None else Some (map (\<lambda>x. x / ref_det m) (ref_cof m)))"

definition ref_invert :: "mat \<Rightarrow> mat option" where
  "ref_invert m = (case ref_normal m of None \<Rightarrow> None | Some n \<Rightarrow>
     (let b = js_at n; a = js_at m
      in Some [b 0, b 3, b 6, 0,  b 1, b 4, b 7, 0,  b 2, b 5, b 8, 0,
               - (b 0 * a 12 + b 1 * a 13 + b 2 * a 14),
               - (b 3 * a 12 + b 4 * a 13 + b 5 * a 14),
               - (b 6 * a 12 + b 7 * a 13 + b 8 * a 14), 1]))"

definition ref_glm :: glm where
  "ref_glm = \<lparr>
     mat4_create = ref_identity,
     mat4_clone = (\<lambda>m. m),
     mat4_mul = ref_mul,
     mat4_mul_cast = ref_mul_cast,
     mat4_translate = (\<lambda>m v. ref_mul m (ref_translation v)),
     mat4_rotateX = (\<lambda>m a. ref_mul m (ref_rotX a)),
     mat4_rotateY = (\<lambda>m a. ref_mul m (ref_rotY a)),
     mat4_rotateZ = (\<lambda>m a. ref_mul m (ref_rotZ a)),
     mat4_perspective = ref_perspective,
     mat4_invert = ref_invert,
     mat3_normalFromMat4 = ref_normal,
     vec3_fromValues = (\<lambda>x y z. [x, y, z]),
     vec3_set = (\<lambda>x y z. [x, y, z]),
     vec3_sub = (\<lambda>v w. [js_at v 0 - js_at w 0, js_at v 1 - js_at w 1, js_at v 2 - js_at w 2]),
     vec3_cross = (\<lambda>v w.
       [js_at v 1 * js_at w 2 - js_at v 2 * js_at w 1,
        js_at v 2 * js_at w 0 - js_at v 0 * js_at w 2,
        js_at v 0 * js_at w 1 - js_at v 1 * js_at w 0]),
     vec4_fromValues = (\<lambda>x y z w. [x, y, z, w]),
     vec4_set = (\<lambda>x y z w. [x, y, z, w]),
     vec4_clone = (\<lambda>v. v)\<rparr>"

section \<open>The reference implementation satisfies the laws\<close>

text \<open>An affine matrix by its four columns, and the invertible ones among them.\<close>

definition affine :: "real \<times> real \<times> real \<Rightarrow> real \<times> real \<times> real \<Rightarrow> real \<times> real \<times> real \<Rightarrow>
    real \<times> real \<times> real \<Rightarrow> mat" where
  "affine = (\<lambda>(a0, a1, a2) (b0, b1, b2) (c0, c1, c2) (d0, d1, d2).
     [Fin a0, Fin a1, Fin a2, Fin 0,  Fin b0, Fin b1, Fin b2, Fin 0,
      Fin c0, Fin c1, Fin c2, Fin 0,  Fin d0, Fin d1, Fin d2, Fin 1])"

definition affine_ok :: "mat \<Rightarrow> bool" where
  "affine_ok m \<longleftrightarrow> length m = 16 \<and> list_all finite_number m \<and>
     js_at m 3 = 0 \<and> js_at m 7 = 0 \<and> js_at m 11 = 0 \<and> js_at m 15 = 1 \<and> ref_det m \<noteq> 0"

lemma affine_det:
  "ref_det (affine (a0, a1, a2) (b0, b1, b2) (c0, c1, c2) d) =
     Fin (a0 * (b1 * c2 - b2 * c1) + a1 * (b2 * c0 - b0 * c2) + a2 * (b0 * c1 - b1 * c0))"
  by (cases d) (simp add: ref_det_def ref_cof_def affine_def minus_number_Fin)

lemma affine_ok_affine:
  "affine_ok (affine (a0, a1, a2) (b0, b1, b2) (c0, c1, c2) d) \<longleftrightarrow>
     a0 * (b1 * c2 - b2 * c1) + a1 * (b2 * c0 - b0 * c2) + a2 * (b0 * c1 - b1 * c0) \<noteq> 0"
proof -
  have "length (affine (a0, a1, a2) (b0, b1, b2) (c0, c1, c2) d) = 16 \<and>
      list_all finite_number (affine (a0, a1, a2) (b0, b1, b2) (c0, c1, c2) d) \<and>
      (\<forall>i \<in> {3, 7, 11}. js_at (affine (a0, a1, a2) (b0, b1, b2) (c0, c1, c2) d) i = 0) \<and>
      js_at (affine (a0, a1, a2) (b0, b1, b2) (c0, c1, c2) d) 15 = 1"
    by (cases d) (simp add: affine_def num_simps)
  then show ?thesis by (simp add: affine_ok_def affine_det zero_number_def)
qed

lemma affine_okE:
  assumes "affine_ok m"
  obtains a0 a1 a2 b0 b1 b2 c0 c1 c2 d0 d1 d2
  where "m = affine (a0, a1, a2) (b0, b1, b2) (c0, c1, c2) (d0, d1, d2)"
    and "a0 * (b1 * c2 - b2 * c1) + a1 * (b2 * c0 - b0 * c2) + a2 * (b0 * c1 - b1 * c0) \<noteq> 0"
proof -
  from assms have "length m = 16" and fin: "list_all finite_number m"
    by (simp_all add: affine_ok_def)
  then obtain x0 x1 x2 x3 x4 x5 x6 x7 x8 x9 x10 x11 x12 x13 x14 x15
    where m: "m = [x0, x1, x2, x3, x4, x5, x6, x7, x8, x9, x10, x11, x12, x13, x14, x15]"
    by (auto simp: numeral_eq_Suc length_Suc_conv)
  from fin m obtain a0 a1 a2 b0 b1 b2 c0 c1 c2 d0 d1 d2
    where "x0 = Fin a0" "x1 = Fin a1" "x2 = Fin a2" "x4 = Fin b0" "x5 = Fin b1" "x6 = Fin b2"
      "x8 = Fin c0" "x9 = Fin c1" "x10 = Fin c2" "x12 = Fin d0" "x13 = Fin d1" "x14 = Fin d2"
    by (auto simp: finite_number_iff)
  moreover from assms m have "x3 = 0" "x7 = 0" "x11 = 0" "x15 = 1"
    by (simp_all add: affine_ok_def)
  ultimately have m': "m = affine (a0, a1, a2) (b0, b1, b2) (c0, c1, c2) (d0, d1, d2)"
    using m by (simp add: affine_def num_simps)
  moreover from assms m' have
    "a0 * (b1 * c2 - b2 * c1) + a1 * (b2 * c0 - b0 * c2) + a2 * (b0 * c1 - b1 * c0) \<noteq> 0"
    by (simp add: affine_ok_affine)
  ultimately show thesis by (rule that)
qed

lemma ref_mul_affine:
  "ref_mul (affine (a0, a1, a2) (b0, b1, b2) (c0, c1, c2) (d0, d1, d2))
     (affine (a0', a1', a2') (b0', b1', b2') (c0', c1', c2') (d0', d1', d2')) =
   affine
     (a0 * a0' + b0 * a1' + c0 * a2', a1 * a0' + b1 * a1' + c1 * a2', a2 * a0' + b2 * a1' + c2 * a2')
     (a0 * b0' + b0 * b1' + c0 * b2', a1 * b0' + b1 * b1' + c1 * b2', a2 * b0' + b2 * b1' + c2 * b2')
     (a0 * c0' + b0 * c1' + c0 * c2', a1 * c0' + b1 * c1' + c1 * c2', a2 * c0' + b2 * c1' + c2 * c2')
     (a0 * d0' + b0 * d1' + c0 * d2' + d0, a1 * d0' + b1 * d1' + c1 * d2' + d1,
      a2 * d0' + b2 * d1' + c2 * d2' + d2)"
  by (simp add: ref_mul_def affine_def)

lemma ref_mul_ok:
  assumes "affine_ok m" and "affine_ok n"
  shows "affine_ok (ref_mul m n)"
proof -
  from assms(1) obtain a0 a1 a2 b0 b1 b2 c0 c1 c2 d0 d1 d2
    where m: "m = affine (a0, a1, a2) (b0, b1, b2) (c0, c1, c2) (d0, d1, d2)"
      and dm: "a0 * (b1 * c2 - b2 * c1) + a1 * (b2 * c0 - b0 * c2) + a2 * (b0 * c1 - b1 * c0) \<noteq> 0"
    by (rule affine_okE)
  from assms(2) obtain a0' a1' a2' b0' b1' b2' c0' c1' c2' d0' d1' d2'
    where n: "n = affine (a0', a1', a2') (b0', b1', b2') (c0', c1', c2') (d0', d1', d2')"
      and dn: "a0' * (b1' * c2' - b2' * c1') + a1' * (b2' * c0' - b0' * c2')
        + a2' * (b0' * c1' - b1' * c0') \<noteq> 0"
    by (rule affine_okE)
  have "(a0 * (b1 * c2 - b2 * c1) + a1 * (b2 * c0 - b0 * c2) + a2 * (b0 * c1 - b1 * c0)) *
      (a0' * (b1' * c2' - b2' * c1') + a1' * (b2' * c0' - b0' * c2') + a2' * (b0' * c1' - b1' * c0')) \<noteq> 0"
    using dm dn by simp
  then show ?thesis
    unfolding m n ref_mul_affine affine_ok_affine by (simp add: algebra_simps)
qed

lemma affine_cong:
  "a = a' \<Longrightarrow> b = b' \<Longrightarrow> c = c' \<Longrightarrow> d = d' \<Longrightarrow> affine a b c d = affine a' b' c' d'"
  by simp

lemma ref_mul_assoc:
  assumes "affine_ok m" and "affine_ok n" and "affine_ok k"
  shows "ref_mul (ref_mul m n) k = ref_mul m (ref_mul n k)"
proof -
  obtain a0 a1 a2 b0 b1 b2 c0 c1 c2 d0 d1 d2
    where m: "m = affine (a0, a1, a2) (b0, b1, b2) (c0, c1, c2) (d0, d1, d2)"
    using assms(1) by (rule affine_okE)
  obtain a0' a1' a2' b0' b1' b2' c0' c1' c2' d0' d1' d2'
    where n: "n = affine (a0', a1', a2') (b0', b1', b2') (c0', c1', c2') (d0', d1', d2')"
    using assms(2) by (rule affine_okE)
  obtain a0'' a1'' a2'' b0'' b1'' b2'' c0'' c1'' c2'' d0'' d1'' d2''
    where k: "k = affine (a0'', a1'', a2'') (b0'', b1'', b2'') (c0'', c1'', c2'') (d0'', d1'', d2'')"
    using assms(3) by (rule affine_okE)
  show ?thesis
    unfolding m n k ref_mul_affine
    by (intro affine_cong arg_cong2 [where f = Pair])
      (simp_all add: distrib_left distrib_right mult.assoc add.assoc add.commute add.left_commute)
qed

lemma ref_identity_affine: "ref_identity = affine (1, 0, 0) (0, 1, 0) (0, 0, 1) (0, 0, 0)"
  by (simp add: ref_identity_def affine_def num_simps)

lemma ref_translation_affine:
  "ref_translation [Fin x, Fin y, Fin z] = affine (1, 0, 0) (0, 1, 0) (0, 0, 1) (x, y, z)"
  by (simp add: ref_translation_def affine_def num_simps)

lemma ref_rot_affine:
  "ref_rotX (Fin t) = affine (1, 0, 0) (0, cos t, sin t) (0, - sin t, cos t) (0, 0, 0)"
  "ref_rotY (Fin t) = affine (cos t, 0, - sin t) (0, 1, 0) (sin t, 0, cos t) (0, 0, 0)"
  "ref_rotZ (Fin t) = affine (cos t, sin t, 0) (- sin t, cos t, 0) (0, 0, 1) (0, 0, 0)"
  by (simp_all add: ref_rotX_def ref_rotY_def ref_rotZ_def affine_def num_simps)

lemmas ref_affine = ref_identity_affine ref_translation_affine ref_rot_affine

lemma ref_factors_ok:
  "affine_ok ref_identity" "affine_ok (ref_translation [Fin x, Fin y, Fin z])"
  "affine_ok (ref_rotX (Fin t))" "affine_ok (ref_rotY (Fin t))" "affine_ok (ref_rotZ (Fin t))"
proof -
  have "cos t * cos t + sin t * sin t = 1"
    using sin_cos_squared_add [of t] by (simp add: power2_eq_square)
  then show "affine_ok ref_identity" "affine_ok (ref_translation [Fin x, Fin y, Fin z])"
    "affine_ok (ref_rotX (Fin t))" "affine_ok (ref_rotY (Fin t))" "affine_ok (ref_rotZ (Fin t))"
    by (simp_all add: ref_affine affine_ok_affine)
qed

lemma ref_mul_identity: "affine_ok m \<Longrightarrow> ref_mul m ref_identity = m"
  by (erule affine_okE) (simp add: ref_affine ref_mul_affine)

lemma ref_products:
  "ref_mul (ref_translation [Fin x, Fin y, Fin z]) (ref_translation [Fin x', Fin y', Fin z']) =
     ref_translation [Fin (x + x'), Fin (y + y'), Fin (z + z')]"
  "ref_mul (ref_rotX (Fin a)) (ref_rotX (Fin b)) = ref_rotX (Fin (a + b))"
  "ref_mul (ref_rotY (Fin a)) (ref_rotY (Fin b)) = ref_rotY (Fin (a + b))"
  "ref_mul (ref_rotZ (Fin a)) (ref_rotZ (Fin b)) = ref_rotZ (Fin (a + b))"
  by (simp_all add: ref_affine ref_mul_affine cos_add sin_add, simp_all add: affine_def algebra_simps)

lemma ref_trivial_factors:
  "ref_translation [Fin 0, Fin 0, Fin 0] = ref_identity"
  "ref_rotX (Fin 0) = ref_identity" "ref_rotY (Fin 0) = ref_identity" "ref_rotZ (Fin 0) = ref_identity"
  "ref_rotY (Fin (2 * pi)) = ref_identity"
  by (simp_all add: ref_affine)

lemma ref_normal_some: "affine_ok m \<Longrightarrow> ref_normal m \<noteq> None"
  by (erule affine_okE) (simp add: ref_normal_def affine_det zero_number_def)

interpretation ref: gl_matrix ref_glm affine_ok
proof unfold_locales
  show "mat4_invert ref_glm m \<noteq> None" if "affine_ok m" for m
    using ref_normal_some [OF that] by (auto simp: ref_invert_def ref_glm_def Let_def)
qed (simp_all add: ref_glm_def ref_mul_ok ref_factors_ok ref_mul_identity ref_mul_assoc
  ref_products ref_trivial_factors ref_normal_some ref_mul_cast_def)

text \<open>The upper three entries of the second and third columns are NaN.\<close>

definition ref_lost :: "mat \<Rightarrow> bool" where
  "ref_lost m \<longleftrightarrow> list_all (\<lambda>i. js_at m i = NaN) [4, 5, 6, 8, 9, 10]"

lemma ref_lost_det: "ref_lost m \<Longrightarrow> ref_det m = NaN"
  by (simp add: ref_lost_def ref_det_def ref_cof_def Let_def)

lemma ref_mul_lost:
  "ref_lost m \<Longrightarrow> ref_lost (ref_mul m (ref_translation v))"
  "ref_lost m \<Longrightarrow> ref_lost (ref_mul m (ref_rotX a))"
  "ref_lost m \<Longrightarrow> ref_lost (ref_mul m (ref_rotY a))"
  "ref_lost m \<Longrightarrow> ref_lost (ref_mul m (ref_rotZ a))"
  "ref_lost (ref_mul m (ref_rotX NaN))"
  by (simp_all add: ref_lost_def ref_mul_def ref_translation_def ref_rotX_def ref_rotY_def ref_rotZ_def)

interpretation ref_nan: gl_matrix_nan ref_glm affine_ok ref_lost
  by unfold_locales (simp_all add: ref_glm_def ref_mul_lost ref_invert_def ref_normal_def ref_lost_det)

end
