(* ===== verification/WebGL.thy ===== *)
theory WebGL
  imports GlMatrix
begin

text \<open>
  The WebGL context the program draws with, as the state machine its specification describes, cut
  to the calls the program makes: objects are numbered in the order of their creation, a call that
  the specification refuses changes nothing but the error count, and the calls that produce
  something visible (uniform uploads, draw calls, clears) are recorded in \<open>trace\<close>.  A draw call is
  recorded with everything the shaders can see at that moment: the contents of the buffers its
  attributes point to, the uniforms and the texture of unit 0.
\<close>

section \<open>State\<close>

type_synonym handle = nat

datatype gl_target = ARRAY_BUFFER | ELEMENT_ARRAY_BUFFER

datatype buf_data = Floats "number list" | Shorts "16 word list"

datatype uval = UMat mat | UVec vec | UFloat number | UInt int

datatype draw_mode = TRIANGLES | TRIANGLE_STRIP

datatype shader_type = VERTEX_SHADER | FRAGMENT_SHADER

datatype tex_filter = NEAREST | LINEAR | NEAREST_MIPMAP_LINEAR

datatype tex_wrap = REPEAT | CLAMP_TO_EDGE

record attrib =
  a_buffer :: "handle option"
  a_size :: nat

record texture =
  tex_image :: "(nat \<times> nat) option"   \<comment> \<open>width and height of the image, once one is loaded\<close>
  tex_mag :: tex_filter
  tex_min :: tex_filter
  tex_wrap_s :: tex_wrap
  tex_wrap_t :: tex_wrap

record shader =
  sh_type :: shader_type
  sh_source :: string
  sh_compiled :: bool

record program =
  pr_attached :: "handle list"
  pr_linked :: bool

record draw_call =
  d_mode :: draw_mode
  d_indices :: "nat list"
  d_sources :: "int \<Rightarrow> (nat \<times> number list) option"  \<comment> \<open>size and data of each enabled attribute\<close>
  d_uniforms :: "string \<Rightarrow> uval option"
  d_texture :: "handle option"

datatype gl_event =
    Uniform string uval
  | Draw draw_call
  | Clear
  | Viewport nat nat

record gl_state =
  fresh :: handle
  buffers :: "handle \<Rightarrow> buf_data option"
  array_buffer :: "handle option"
  element_buffer :: "handle option"
  attribs :: "int \<Rightarrow> attrib option"
  enabled :: "int list"
  shaders :: "handle \<Rightarrow> shader option"
  programs :: "handle \<Rightarrow> program option"
  current_program :: "handle option"
  uniforms :: "string \<Rightarrow> uval option"
  textures :: "handle \<Rightarrow> texture option"
  active_unit :: nat
  bound_texture :: "nat \<Rightarrow> handle option"
  depth_test :: bool
  cull_face :: bool
  gl_errors :: nat
  trace :: "gl_event list"

definition gl_init :: gl_state where
  "gl_init = \<lparr>fresh = 0, buffers = (\<lambda>_. None), array_buffer = None, element_buffer = None,
     attribs = (\<lambda>_. None), enabled = [], shaders = (\<lambda>_. None), programs = (\<lambda>_. None),
     current_program = None, uniforms = (\<lambda>_. None), textures = (\<lambda>_. None), active_unit = 0,
     bound_texture = (\<lambda>_. None), depth_test = False, cull_face = False, gl_errors = 0, trace = []\<rparr>"

definition gl_fail :: "gl_state \<Rightarrow> gl_state" where
  "gl_fail s = s\<lparr>gl_errors := Suc (gl_errors s)\<rparr>"

section \<open>Buffers and attributes\<close>

definition createBuffer :: "gl_state \<Rightarrow> handle \<times> gl_state" where
  "createBuffer s =
     (fresh s, s\<lparr>fresh := Suc (fresh s), buffers := (buffers s)(fresh s \<mapsto> Floats [])\<rparr>)"

fun bindBuffer :: "gl_target \<Rightarrow> handle option \<Rightarrow> gl_state \<Rightarrow> gl_state" where
  "bindBuffer ARRAY_BUFFER b s = s\<lparr>array_buffer := b\<rparr>"
| "bindBuffer ELEMENT_ARRAY_BUFFER b s = s\<lparr>element_buffer := b\<rparr>"

fun bound_buffer :: "gl_target \<Rightarrow> gl_state \<Rightarrow> handle option" where
  "bound_buffer ARRAY_BUFFER s = array_buffer s"
| "bound_buffer ELEMENT_ARRAY_BUFFER s = element_buffer s"

definition bufferData :: "gl_target \<Rightarrow> buf_data \<Rightarrow> gl_state \<Rightarrow> gl_state" where
  "bufferData t d s = (case bound_buffer t s of
     None \<Rightarrow> gl_fail s
   | Some b \<Rightarrow> s\<lparr>buffers := (buffers s)(b \<mapsto> d)\<rparr>)"

definition vertexAttribPointer :: "int \<Rightarrow> nat \<Rightarrow> gl_state \<Rightarrow> gl_state" where
  "vertexAttribPointer loc sz s =
     (if loc < 0 then gl_fail s
      else s\<lparr>attribs := (attribs s)(loc \<mapsto> \<lparr>a_buffer = array_buffer s, a_size = sz\<rparr>)\<rparr>)"

definition enableVertexAttribArray :: "int \<Rightarrow> gl_state \<Rightarrow> gl_state" where
  "enableVertexAttribArray loc s =
     (if loc < 0 then gl_fail s else s\<lparr>enabled := List.insert loc (enabled s)\<rparr>)"

text \<open>\<open>new Uint16Array(xs)\<close> reduces every number modulo 65536.\<close>

definition uint16Array :: "nat list \<Rightarrow> buf_data" where
  "uint16Array xs = Shorts (map word_of_nat xs)"

section \<open>Shaders, programs and uniforms\<close>

definition createShader :: "shader_type \<Rightarrow> gl_state \<Rightarrow> handle \<times> gl_state" where
  "createShader t s = (fresh s, s\<lparr>fresh := Suc (fresh s), shaders := (shaders s)
     (fresh s \<mapsto> \<lparr>sh_type = t, sh_source = '''', sh_compiled = False\<rparr>)\<rparr>)"

definition shaderSource :: "handle \<Rightarrow> string \<Rightarrow> gl_state \<Rightarrow> gl_state" where
  "shaderSource h src s = (case shaders s h of
     None \<Rightarrow> gl_fail s
   | Some sh \<Rightarrow> s\<lparr>shaders := (shaders s)(h \<mapsto> sh\<lparr>sh_source := src\<rparr>)\<rparr>)"

definition compileShader :: "handle \<Rightarrow> gl_state \<Rightarrow> gl_state" where
  "compileShader h s = (case shaders s h of
     None \<Rightarrow> gl_fail s
   | Some sh \<Rightarrow> s\<lparr>shaders := (shaders s)(h \<mapsto> sh\<lparr>sh_compiled := True\<rparr>)\<rparr>)"

definition createProgram :: "gl_state \<Rightarrow> handle \<times> gl_state" where
  "createProgram s = (fresh s, s\<lparr>fresh := Suc (fresh s), programs := (programs s)
     (fresh s \<mapsto> \<lparr>pr_attached = [], pr_linked = False\<rparr>)\<rparr>)"

definition attachShader :: "handle \<Rightarrow> handle \<Rightarrow> gl_state \<Rightarrow> gl_state" where
  "attachShader p h s = (case programs s p of
     None \<Rightarrow> gl_fail s
   | Some pr \<Rightarrow> s\<lparr>programs := (programs s)(p \<mapsto> pr\<lparr>pr_attached := pr_attached pr @ [h]\<rparr>)\<rparr>)"

text \<open>Whether the linker accepts the two shaders is its own affair: the argument \<open>ok\<close>.\<close>

definition linkProgram :: "bool \<Rightarrow> handle \<Rightarrow> gl_state \<Rightarrow> gl_state" where
  "linkProgram ok p s = (case programs s p of
     None \<Rightarrow> gl_fail s
   | Some pr \<Rightarrow> s\<lparr>programs := (programs s)(p \<mapsto> pr\<lparr>pr_linked := ok\<rparr>)\<rparr>)"

definition is_linked :: "handle \<Rightarrow> gl_state \<Rightarrow> bool" where
  "is_linked p s = (case programs s p of None \<Rightarrow> False | Some pr \<Rightarrow> pr_linked pr)"

definition useProgram :: "handle \<Rightarrow> gl_state \<Rightarrow> gl_state" where
  "useProgram p s = (if is_linked p s then s\<lparr>current_program := Some p\<rparr> else gl_fail s)"

text \<open>
  A uniform location is null when the program is not linked or has no such active uniform, and an
  upload to the null location is silently ignored.  A location is identified with the name.
\<close>

definition setUniform :: "string option \<Rightarrow> uval \<Rightarrow> gl_state \<Rightarrow> gl_state" where
  "setUniform loc v s = (case loc of
     None \<Rightarrow> s
   | Some x \<Rightarrow>
       (if current_program s = None then gl_fail s
        else s\<lparr>uniforms := (uniforms s)(x \<mapsto> v), trace := trace s @ [Uniform x v]\<rparr>))"

section \<open>Textures\<close>

definition createTexture :: "gl_state \<Rightarrow> handle \<times> gl_state" where
  "createTexture s = (fresh s, s\<lparr>fresh := Suc (fresh s), textures := (textures s)
     (fresh s \<mapsto> \<lparr>tex_image = None, tex_mag = LINEAR, tex_min = NEAREST_MIPMAP_LINEAR,
        tex_wrap_s = REPEAT, tex_wrap_t = REPEAT\<rparr>)\<rparr>)"

definition activeTexture :: "nat \<Rightarrow> gl_state \<Rightarrow> gl_state" where
  "activeTexture u s = s\<lparr>active_unit := u\<rparr>"

definition bindTexture :: "handle option \<Rightarrow> gl_state \<Rightarrow> gl_state" where
  "bindTexture t s = s\<lparr>bound_texture := (bound_texture s)(active_unit s := t)\<rparr>"

text \<open>\<open>texParameteri\<close> and \<open>texImage2D\<close> change the texture bound to the active unit.\<close>

definition onTexture :: "(texture \<Rightarrow> texture) \<Rightarrow> gl_state \<Rightarrow> gl_state" where
  "onTexture f s = (case bound_texture s (active_unit s) of
     None \<Rightarrow> gl_fail s
   | Some h \<Rightarrow> (case textures s h of
       None \<Rightarrow> gl_fail s
     | Some t \<Rightarrow> s\<lparr>textures := (textures s)(h \<mapsto> f t)\<rparr>))"

text \<open>A texture that is not complete samples as black.\<close>

fun power_of_two :: "nat \<Rightarrow> bool" where
  "power_of_two n = (if n = 0 then False else if n = 1 then True
     else even n \<and> power_of_two (n div 2))"

declare power_of_two.simps [simp del]

definition tex_complete :: "texture \<Rightarrow> bool" where
  "tex_complete t = (case tex_image t of
     None \<Rightarrow> False
   | Some (w, h) \<Rightarrow> 0 < w \<and> 0 < h \<and> tex_min t \<noteq> NEAREST_MIPMAP_LINEAR \<and>
       (power_of_two w \<and> power_of_two h \<or> tex_wrap_s t = CLAMP_TO_EDGE \<and> tex_wrap_t t = CLAMP_TO_EDGE))"

section \<open>Drawing\<close>

definition source_of :: "gl_state \<Rightarrow> int \<Rightarrow> (nat \<times> number list) option" where
  "source_of s loc =
     (if loc \<notin> set (enabled s) then None
      else case attribs s loc of
        None \<Rightarrow> None
      | Some a \<Rightarrow> (case a_buffer a of
          None \<Rightarrow> None
        | Some b \<Rightarrow> (case buffers s b of
            Some (Floats xs) \<Rightarrow> Some (a_size a, xs)
          | _ \<Rightarrow> None)))"

text \<open>
  A draw is refused when an enabled attribute has no buffer or one too short for the vertices
  drawn.
\<close>

definition covers :: "(nat \<times> number list) option \<Rightarrow> nat list \<Rightarrow> bool" where
  "covers src idx = (case src of
     None \<Rightarrow> False
   | Some (sz, xs) \<Rightarrow> list_all (\<lambda>i. (i + 1) * sz \<le> length xs) idx)"

definition draw_allowed :: "gl_state \<Rightarrow> nat list \<Rightarrow> bool" where
  "draw_allowed s idx \<longleftrightarrow> current_program s \<noteq> None \<and>
     list_all (\<lambda>loc. covers (source_of s loc) idx) (enabled s)"

definition draw_now :: "gl_state \<Rightarrow> draw_mode \<Rightarrow> nat list \<Rightarrow> draw_call" where
  "draw_now s m idx = \<lparr>d_mode = m, d_indices = idx, d_sources = source_of s,
     d_uniforms = uniforms s, d_texture = bound_texture s 0\<rparr>"

definition draw_indices :: "draw_mode \<Rightarrow> nat list \<Rightarrow> gl_state \<Rightarrow> gl_state" where
  "draw_indices m idx s =
     (if draw_allowed s idx then s\<lparr>trace := trace s @ [Draw (draw_now s m idx)]\<rparr> else gl_fail s)"

definition drawArrays :: "draw_mode \<Rightarrow> nat \<Rightarrow> nat \<Rightarrow> gl_state \<Rightarrow> gl_state" where
  "drawArrays m first count = draw_indices m [first..<first + count]"

definition drawElements :: "draw_mode \<Rightarrow> nat \<Rightarrow> gl_state \<Rightarrow> gl_state" where
  "drawElements m count s = (case element_buffer s of
     None \<Rightarrow> gl_fail s
   | Some b \<Rightarrow> (case buffers s b of
       Some (Shorts ws) \<Rightarrow>
         (if count \<le> length ws then draw_indices m (map unat (take count ws)) s else gl_fail s)
     | _ \<Rightarrow> gl_fail s))"

definition gl_clear :: "gl_state \<Rightarrow> gl_state" where
  "gl_clear s = s\<lparr>trace := trace s @ [Clear]\<rparr>"

definition gl_viewport :: "nat \<Rightarrow> nat \<Rightarrow> gl_state \<Rightarrow> gl_state" where
  "gl_viewport w h s = s\<lparr>trace := trace s @ [Viewport w h]\<rparr>"

text \<open>The vertex the shader is fed with for one index of an attribute.\<close>

definition fetch :: "nat \<times> number list \<Rightarrow> nat \<Rightarrow> number list" where
  "fetch src i = (case src of (sz, xs) \<Rightarrow> take sz (drop (i * sz) xs))"

section \<open>What the calls leave alone\<close>

text \<open>
  The pipeline (programs, enabled attributes, tests) is set up once; no buffer, uniform, texture
  or draw call changes it.  The scene state (uniforms and textures) is left alone by the buffer
  and draw calls.
\<close>

definition pipeline :: "gl_state \<Rightarrow> handle option \<times> (handle \<Rightarrow> program option) \<times> int list \<times> bool \<times> bool" where
  "pipeline s = (current_program s, programs s, enabled s, depth_test s, cull_face s)"

definition scene_state ::
    "gl_state \<Rightarrow> (string \<Rightarrow> uval option) \<times> (handle \<Rightarrow> texture option) \<times> nat \<times> (nat \<Rightarrow> handle option)" where
  "scene_state s = (uniforms s, textures s, active_unit s, bound_texture s)"

named_theorems gl_frame \<open>what a call leaves alone\<close>

lemma gl_fail_frame [gl_frame]:
  "pipeline (gl_fail s) = pipeline s" "scene_state (gl_fail s) = scene_state s"
  "buffers (gl_fail s) = buffers s" "fresh (gl_fail s) = fresh s" "trace (gl_fail s) = trace s"
  by (simp_all add: gl_fail_def pipeline_def scene_state_def)

lemma buffer_calls_frame [gl_frame]:
  "pipeline (snd (createBuffer s)) = pipeline s"
  "scene_state (snd (createBuffer s)) = scene_state s"
  "trace (snd (createBuffer s)) = trace s"
  "pipeline (bindBuffer t b s) = pipeline s"
  "scene_state (bindBuffer t b s) = scene_state s"
  "trace (bindBuffer t b s) = trace s"
  "fresh (bindBuffer t b s) = fresh s"
  "buffers (bindBuffer t b s) = buffers s"
  "gl_errors (bindBuffer t b s) = gl_errors s"
  "pipeline (bufferData t d s) = pipeline s"
  "scene_state (bufferData t d s) = scene_state s"
  "trace (bufferData t d s) = trace s"
  "fresh (bufferData t d s) = fresh s"
  "pipeline (vertexAttribPointer l n s) = pipeline s"
  "scene_state (vertexAttribPointer l n s) = scene_state s"
  "trace (vertexAttribPointer l n s) = trace s"
  "fresh (vertexAttribPointer l n s) = fresh s"
  "buffers (vertexAttribPointer l n s) = buffers s"
  by (cases t; simp add: createBuffer_def bufferData_def vertexAttribPointer_def gl_fail_def
        pipeline_def scene_state_def split: option.split)+

lemma draw_calls_frame [gl_frame]:
  "pipeline (draw_indices m idx s) = pipeline s"
  "scene_state (draw_indices m idx s) = scene_state s"
  "fresh (draw_indices m idx s) = fresh s"
  "buffers (draw_indices m idx s) = buffers s"
  "pipeline (drawArrays m a n s) = pipeline s"
  "scene_state (drawArrays m a n s) = scene_state s"
  "fresh (drawArrays m a n s) = fresh s"
  "buffers (drawArrays m a n s) = buffers s"
  "pipeline (drawElements m n s) = pipeline s"
  "scene_state (drawElements m n s) = scene_state s"
  "fresh (drawElements m n s) = fresh s"
  "buffers (drawElements m n s) = buffers s"
  by (simp_all add: draw_indices_def drawArrays_def drawElements_def gl_fail_def
      pipeline_def scene_state_def split: option.split buf_data.split)

lemma uniform_frame [gl_frame]:
  "pipeline (setUniform l v s) = pipeline s"
  "buffers (setUniform l v s) = buffers s"
  "fresh (setUniform l v s) = fresh s"
  "textures (setUniform l v s) = textures s"
  "active_unit (setUniform l v s) = active_unit s"
  "bound_texture (setUniform l v s) = bound_texture s"
  by (simp_all add: setUniform_def gl_fail_def pipeline_def split: option.split)

lemma texture_frame [gl_frame]:
  "pipeline (snd (createTexture s)) = pipeline s"
  "pipeline (bindTexture t s) = pipeline s"
  "pipeline (activeTexture u s) = pipeline s"
  "pipeline (onTexture f s) = pipeline s"
  "buffers (bindTexture t s) = buffers s"
  "buffers (activeTexture u s) = buffers s"
  "buffers (onTexture f s) = buffers s"
  by (simp_all add: createTexture_def bindTexture_def activeTexture_def onTexture_def gl_fail_def
      pipeline_def split: option.split)

end
