(* ===== verification/WebGLStart.thy ===== *)
theory WebGLStart
  imports WebGL
begin

text \<open>
  The class \<open>WebGLStart\<close> (src/triangle/webglstart.ts): a singleton that fetches the canvas and its
  WebGL context, compiles and links the two Phong shaders and looks up the locations the other
  classes draw with.  The browser's answers (is there a canvas, a WebGL context, do the shaders
  link, which locations come out) are fields of \<open>platform\<close>, which also carries gl-matrix.
\<close>

section \<open>The platform and the page\<close>

record platform = glm +
  canvas_present :: bool
  webgl_present :: bool
  shaders_link :: bool
  attrib_location :: "string \<Rightarrow> int"
  uniform_active :: "string \<Rightarrow> bool"
  inner_width :: nat
  inner_height :: nat

record webgl_start =
  canvas_width :: nat
  canvas_height :: nat
  shaderProgram :: handle
  vertexPositionAttribute :: int
  normalPositionAttribute :: int
  texCoordAttribute :: int
  pMatrixUniform :: "string option"
  mMatrixUniform :: "string option"
  nMatrixUniform :: "string option"
  modelViewMatrix :: mat
  projectionMatrix :: mat

record page =
  gl :: gl_state
  webgl_instance :: "webgl_start option"
  alerts :: nat

definition page_init :: page where
  "page_init = \<lparr>gl = gl_init, webgl_instance = None, alerts = 0\<rparr>"

section \<open>The operations\<close>

text \<open>
  Asking a program that is not linked for a location is an invalid operation: the call fails and
  hands out \<open>-1\<close> or null.
\<close>

definition getAttribLocation :: "'a platform_scheme \<Rightarrow> handle \<Rightarrow> string \<Rightarrow> gl_state \<Rightarrow> int \<times> gl_state" where
  "getAttribLocation P p name s =
     (if is_linked p s then (attrib_location P name, s) else (- 1, gl_fail s))"

definition getUniformLocation ::
    "'a platform_scheme \<Rightarrow> handle \<Rightarrow> string \<Rightarrow> gl_state \<Rightarrow> string option \<times> gl_state" where
  "getUniformLocation P p name s =
     (if is_linked p s then (if uniform_active P name then Some name else None, s) else (None, gl_fail s))"

definition createShaders :: "string \<Rightarrow> shader_type \<Rightarrow> gl_state \<Rightarrow> handle \<times> gl_state" where
  "createShaders sourceShader type s =
     (let (shader, s1) = createShader type s;
          s2 = shaderSource shader sourceShader s1;
          s3 = compileShader shader s2
      in (shader, s3))"

text \<open>\<open>initShaders\<close> fills in the program and the locations; a program that does not link is reported
  with an alert and used all the same.\<close>

definition initShaders ::
    "'a platform_scheme \<Rightarrow> webgl_start \<times> gl_state \<times> nat \<Rightarrow> webgl_start \<times> gl_state \<times> nat" where
  "initShaders P = (\<lambda>(this, s0, n).
     let (vertexShader, s1) = createShaders ''phong_vertexshader.glsl'' VERTEX_SHADER s0;
         (fragmentShader, s2) = createShaders ''phong_fragmentshader.glsl'' FRAGMENT_SHADER s1;
         (prog, s3) = createProgram s2;
         s4 = attachShader prog vertexShader s3;
         s5 = attachShader prog fragmentShader s4;
         s6 = linkProgram (shaders_link P) prog s5;
         n' = (if \<not> is_linked prog s6 then Suc n else n);
         s7 = useProgram prog s6;
         (vp, s8) = getAttribLocation P prog ''aVertexPosition'' s7;
         s9 = enableVertexAttribArray vp s8;
         (np, s10) = getAttribLocation P prog ''aNormalPosition'' s9;
         s11 = enableVertexAttribArray np s10;
         (tc, s12) = getAttribLocation P prog ''aTexCoord'' s11;
         s13 = enableVertexAttribArray tc s12;
         (pm, s14) = getUniformLocation P prog ''uProjectionMatrix'' s13;
         (mm, s15) = getUniformLocation P prog ''uModelViewMatrix'' s14;
         (nm, s16) = getUniformLocation P prog ''uNormalMatrix'' s15
     in (this\<lparr>shaderProgram := prog, vertexPositionAttribute := vp,
              normalPositionAttribute := np, texCoordAttribute := tc,
              pMatrixUniform := pm, mMatrixUniform := mm, nMatrixUniform := nm\<rparr>, s16, n'))"

definition webGLStartExample ::
    "'a platform_scheme \<Rightarrow> webgl_start \<times> gl_state \<times> nat \<Rightarrow> webgl_start \<times> gl_state \<times> nat" where
  "webGLStartExample P st =
     (case initShaders P st of (this, s, n) \<Rightarrow>
        (this\<lparr>canvas_height := inner_height P, canvas_width := inner_width P\<rparr>,
         s\<lparr>depth_test := True, cull_face := True\<rparr>, n))"

text \<open>The constructor: without a canvas \<open>getContext\<close> is called on null; without WebGL the context
  is null and its first use, in \<open>createShaders\<close>, raises.\<close>

definition new_webgl_start ::
    "'a platform_scheme \<Rightarrow> gl_state \<times> nat \<Rightarrow> (webgl_start \<times> gl_state \<times> nat) result" where
  "new_webgl_start P = (\<lambda>(s, n).
     if \<not> canvas_present P then Inl TypeError
     else if \<not> webgl_present P then Inl TypeError
     else Inr (webGLStartExample P
       (\<lparr>canvas_width = 500, canvas_height = 500, shaderProgram = 0, vertexPositionAttribute = 0,
         normalPositionAttribute = 0, texCoordAttribute = 0, pMatrixUniform = None,
         mMatrixUniform = None, nMatrixUniform = None, modelViewMatrix = mat4_create P,
         projectionMatrix = mat4_create P\<rparr>, s, n)))"

definition getInstance ::
    "'a platform_scheme \<Rightarrow> 'b page_scheme \<Rightarrow> (webgl_start \<times> 'b page_scheme) result" where
  "getInstance P w = (case webgl_instance w of
     Some this \<Rightarrow> Inr (this, w)
   | None \<Rightarrow> andThen (new_webgl_start P (gl w, alerts w)) (\<lambda>(this, s, n).
       Inr (this, w\<lparr>gl := s, alerts := n, webgl_instance := Some this\<rparr>)))"

section \<open>The contract of a lazily created singleton\<close>

text \<open>
  Two classes of the program are singletons of this kind.  \<open>get\<close> hands out the stored object when
  there is one and leaves the state alone; otherwise it creates one and stores it.
\<close>

locale lazy_singleton =
  fixes get :: "'s \<Rightarrow> ('i \<times> 's) result"
    and stored :: "'s \<Rightarrow> 'i option"
  assumes get_stored: "stored s = Some i \<Longrightarrow> get s = Inr (i, s)"
    and get_stores: "get s = Inr (i, s') \<Longrightarrow> stored s' = Some i"
begin

lemma get_again: "get s = Inr (i, s') \<Longrightarrow> get s' = Inr (i, s')"
  using get_stored get_stores by blast

lemma get_same: "get s = Inr (i, s') \<Longrightarrow> stored t = stored s' \<Longrightarrow> get t = Inr (i, t)"
  using get_stored get_stores by metis

lemma get_error_unset: "get s = Inl e \<Longrightarrow> stored s = None"
  using get_stored [of s] by (cases "stored s") auto

end

interpretation webgl: lazy_singleton "getInstance P" webgl_instance for P
proof
  show "getInstance P s = Inr (i, s)" if "webgl_instance s = Some i" for s :: "'b page_scheme" and i
    using that by (simp add: getInstance_def)
  show "webgl_instance s' = Some i" if "getInstance P s = Inr (i, s')" for s s' :: "'b page_scheme" and i
    using that by (auto simp: getInstance_def andThen_eq_Inr split: option.splits)
qed

section \<open>What the constructor sets up\<close>

text \<open>
  The uniforms of the two Phong shaders, a platform on which everything works, and the state the
  singleton leaves the context in: program linked and in use, the three attribute arrays enabled,
  the matrix locations looked up, depth test and face culling on.
\<close>

definition used_uniforms :: "string list" where
  "used_uniforms = [''uProjectionMatrix'', ''uModelViewMatrix'', ''uNormalMatrix'',
     ''uLightPosition'', ''uLightAmbient'', ''uLightDiffuse'', ''uLightSpecular'',
     ''uMaterialEmission'', ''uMaterialAmbient'', ''uMaterialDiffuse'', ''uMaterialSpecular'',
     ''uMaterialShininess'', ''uSampler'']"

definition platform_ok :: "'a platform_scheme \<Rightarrow> bool" where
  "platform_ok P \<longleftrightarrow> canvas_present P \<and> webgl_present P \<and> shaders_link P \<and>
     list_all (uniform_active P) used_uniforms \<and>
     0 \<le> attrib_location P ''aVertexPosition'' \<and> 0 \<le> attrib_location P ''aNormalPosition'' \<and>
     0 \<le> attrib_location P ''aTexCoord'' \<and>
     distinct [attrib_location P ''aVertexPosition'', attrib_location P ''aNormalPosition'',
       attrib_location P ''aTexCoord'']"

definition gl_ready :: "'a platform_scheme \<Rightarrow> webgl_start \<Rightarrow> gl_state \<Rightarrow> bool" where
  "gl_ready P ws s \<longleftrightarrow>
     current_program s = Some (shaderProgram ws) \<and> is_linked (shaderProgram ws) s \<and>
     vertexPositionAttribute ws = attrib_location P ''aVertexPosition'' \<and>
     normalPositionAttribute ws = attrib_location P ''aNormalPosition'' \<and>
     texCoordAttribute ws = attrib_location P ''aTexCoord'' \<and>
     set (enabled s) =
       {vertexPositionAttribute ws, normalPositionAttribute ws, texCoordAttribute ws} \<and>
     pMatrixUniform ws = Some ''uProjectionMatrix'' \<and> mMatrixUniform ws = Some ''uModelViewMatrix'' \<and>
     nMatrixUniform ws = Some ''uNormalMatrix'' \<and> depth_test s \<and> cull_face s"

lemma gl_ready_pipeline: "pipeline s = pipeline t \<Longrightarrow> gl_ready P ws s \<longleftrightarrow> gl_ready P ws t"
  by (simp add: gl_ready_def pipeline_def is_linked_def)

lemma is_linked_calls:
  "is_linked p (useProgram q s) = is_linked p s"
  "is_linked p (enableVertexAttribArray l s) = is_linked p s"
  "is_linked p (gl_fail s) = is_linked p s"
  "is_linked p (linkProgram ok p s) \<longleftrightarrow> ok \<and> programs s p \<noteq> None"
  by (simp_all add: is_linked_def useProgram_def enableVertexAttribArray_def linkProgram_def gl_fail_def
      split: option.split)

lemma setup_calls_frame:
  "enabled (snd (createShaders src t s)) = enabled s"
  "gl_errors (snd (createShaders src t s)) = gl_errors s"
  "current_program (snd (createShaders src t s)) = current_program s"
  "enabled (snd (createProgram s)) = enabled s"
  "gl_errors (snd (createProgram s)) = gl_errors s"
  "current_program (snd (createProgram s)) = current_program s"
  "enabled (attachShader p h s) = enabled s"
  "current_program (attachShader p h s) = current_program s"
  "enabled (linkProgram ok p s) = enabled s"
  "current_program (linkProgram ok p s) = current_program s"
  "enabled (useProgram p s) = enabled s"
  by (simp_all add: createShaders_def createShader_def shaderSource_def compileShader_def
      createProgram_def attachShader_def linkProgram_def useProgram_def gl_fail_def Let_def split: option.split)

lemma program_exists:
  "programs (snd (createProgram s)) (fst (createProgram s)) \<noteq> None"
  "programs (attachShader p h s) q = None \<longleftrightarrow> programs s q = None"
  by (auto simp: createProgram_def attachShader_def gl_fail_def split: option.split)

lemma setup_errors:
  "programs s p \<noteq> None \<Longrightarrow> gl_errors (attachShader p h s) = gl_errors s"
  "programs s p \<noteq> None \<Longrightarrow> gl_errors (linkProgram ok p s) = gl_errors s"
  "gl_errors (useProgram p s) = (if is_linked p s then gl_errors s else Suc (gl_errors s))"
  "gl_errors (enableVertexAttribArray l s) = (if l < 0 then Suc (gl_errors s) else gl_errors s)"
  by (auto simp: attachShader_def linkProgram_def useProgram_def enableVertexAttribArray_def gl_fail_def)

lemma setup_effects:
  "current_program (useProgram p s) = (if is_linked p s then Some p else current_program s)"
  "current_program (enableVertexAttribArray l s) = current_program s"
  "set (enabled (enableVertexAttribArray l s)) = (if l < 0 then set (enabled s) else insert l (set (enabled s)))"
  "l < 0 \<Longrightarrow> enabled (enableVertexAttribArray l s) = enabled s"
  by (simp_all add: useProgram_def enableVertexAttribArray_def gl_fail_def)

lemmas setup_calls = is_linked_calls setup_calls_frame program_exists setup_errors setup_effects

text \<open>The states \<open>initShaders\<close> passes through, named.\<close>

definition shaders_attached :: "'a platform_scheme \<Rightarrow> gl_state \<Rightarrow> handle \<times> gl_state" where
  "shaders_attached P s0 =
     (let (vertexShader, s1) = createShaders ''phong_vertexshader.glsl'' VERTEX_SHADER s0;
         (fragmentShader, s2) = createShaders ''phong_fragmentshader.glsl'' FRAGMENT_SHADER s1;
         (prog, s3) = createProgram s2
      in (prog, linkProgram (shaders_link P) prog
           (attachShader prog fragmentShader (attachShader prog vertexShader s3))))"

lemma shaders_attached_facts:
  assumes "shaders_attached P s = (p, t)"
  shows "is_linked p t \<longleftrightarrow> shaders_link P" and "enabled t = enabled s"
    and "gl_errors t = gl_errors s" and "current_program t = current_program s"
  using assms by (auto simp: shaders_attached_def setup_calls Let_def case_prod_beta)

lemma initShaders_eq:
  "initShaders P (this, s, n) =
    (case shaders_attached P s of (prog, s6) \<Rightarrow>
      let n' = (if \<not> is_linked prog s6 then Suc n else n);
         s7 = useProgram prog s6;
         (vp, s8) = getAttribLocation P prog ''aVertexPosition'' s7;
         s9 = enableVertexAttribArray vp s8;
         (np, s10) = getAttribLocation P prog ''aNormalPosition'' s9;
         s11 = enableVertexAttribArray np s10;
         (tc, s12) = getAttribLocation P prog ''aTexCoord'' s11;
         s13 = enableVertexAttribArray tc s12;
         (pm, s14) = getUniformLocation P prog ''uProjectionMatrix'' s13;
         (mm, s15) = getUniformLocation P prog ''uModelViewMatrix'' s14;
         (nm, s16) = getUniformLocation P prog ''uNormalMatrix'' s15
     in (this\<lparr>shaderProgram := prog, vertexPositionAttribute := vp,
              normalPositionAttribute := np, texCoordAttribute := tc,
              pMatrixUniform := pm, mMatrixUniform := mm, nMatrixUniform := nm\<rparr>, s16, n'))"
  by (simp add: initShaders_def shaders_attached_def Let_def case_prod_beta)

lemma initShaders_linked:
  assumes "shaders_attached P s = (prog, t)" and "shaders_link P"
  shows "initShaders P (this, s, n) =
    (this\<lparr>shaderProgram := prog,
       vertexPositionAttribute := attrib_location P ''aVertexPosition'',
       normalPositionAttribute := attrib_location P ''aNormalPosition'',
       texCoordAttribute := attrib_location P ''aTexCoord'',
       pMatrixUniform := (if uniform_active P ''uProjectionMatrix'' then Some ''uProjectionMatrix'' else None),
       mMatrixUniform := (if uniform_active P ''uModelViewMatrix'' then Some ''uModelViewMatrix'' else None),
       nMatrixUniform := (if uniform_active P ''uNormalMatrix'' then Some ''uNormalMatrix'' else None)\<rparr>,
     enableVertexAttribArray (attrib_location P ''aTexCoord'')
      (enableVertexAttribArray (attrib_location P ''aNormalPosition'')
        (enableVertexAttribArray (attrib_location P ''aVertexPosition'') (useProgram prog t))), n)"
  using shaders_attached_facts [OF assms(1)] assms
  by (simp add: initShaders_eq getAttribLocation_def getUniformLocation_def is_linked_calls Let_def)

lemma initShaders_unlinked:
  assumes "shaders_attached P s = (prog, t)" and "\<not> shaders_link P"
  shows "initShaders P (this, s, n) =
    (this\<lparr>shaderProgram := prog, vertexPositionAttribute := - 1, normalPositionAttribute := - 1,
       texCoordAttribute := - 1, pMatrixUniform := None, mMatrixUniform := None,
       nMatrixUniform := None\<rparr>, (gl_fail ^^ 10) t, Suc n)"
  using shaders_attached_facts [OF assms(1)] assms
  by (simp add: initShaders_eq getAttribLocation_def getUniformLocation_def is_linked_calls Let_def)
    (simp add: enableVertexAttribArray_def useProgram_def is_linked_calls numeral_eq_Suc)

lemma webGLStartExample_ready:
  assumes "platform_ok P" and "enabled s = []" and "webGLStartExample P (this, s, n) = (ws, s', n')"
  shows "gl_ready P ws s' \<and> n' = n \<and> gl_errors s' = gl_errors s"
proof -
  obtain prog t where t: "shaders_attached P s = (prog, t)" by (cases "shaders_attached P s")
  from assms(1) have ok: "shaders_link P" "0 \<le> attrib_location P ''aVertexPosition''"
      "0 \<le> attrib_location P ''aNormalPosition''" "0 \<le> attrib_location P ''aTexCoord''"
      "uniform_active P ''uProjectionMatrix''" "uniform_active P ''uModelViewMatrix''"
      "uniform_active P ''uNormalMatrix''"
    by (simp_all add: platform_ok_def used_uniforms_def)
  from t ok assms(3) have "n' = n"
    "ws = this\<lparr>shaderProgram := prog,
       vertexPositionAttribute := attrib_location P ''aVertexPosition'',
       normalPositionAttribute := attrib_location P ''aNormalPosition'',
       texCoordAttribute := attrib_location P ''aTexCoord'',
       pMatrixUniform := Some ''uProjectionMatrix'', mMatrixUniform := Some ''uModelViewMatrix'',
       nMatrixUniform := Some ''uNormalMatrix'',
       canvas_height := inner_height P, canvas_width := inner_width P\<rparr>"
    "s' = (enableVertexAttribArray (attrib_location P ''aTexCoord'')
      (enableVertexAttribArray (attrib_location P ''aNormalPosition'')
        (enableVertexAttribArray (attrib_location P ''aVertexPosition'') (useProgram prog t))))
          \<lparr>depth_test := True, cull_face := True\<rparr>"
    by (simp_all add: webGLStartExample_def initShaders_linked)
  then show ?thesis
    using shaders_attached_facts [OF t] ok assms(2)
    by (auto simp: gl_ready_def setup_calls is_linked_def enableVertexAttribArray_def useProgram_def)
qed

lemma getInstance_first:
  assumes "platform_ok P" and "webgl_instance w = None" and "enabled (gl w) = []"
  obtains ws w' where "getInstance P w = Inr (ws, w')" and "gl_ready P ws (gl w')"
    and "alerts w' = alerts w" and "gl_errors (gl w') = gl_errors (gl w)"
proof -
  let ?this = "\<lparr>canvas_width = 500, canvas_height = 500, shaderProgram = 0, vertexPositionAttribute = 0,
         normalPositionAttribute = 0, texCoordAttribute = 0, pMatrixUniform = None,
         mMatrixUniform = None, nMatrixUniform = None, modelViewMatrix = mat4_create P,
         projectionMatrix = mat4_create P\<rparr>"
  obtain ws s n where e: "webGLStartExample P (?this, gl w, alerts w) = (ws, s, n)"
    by (cases "webGLStartExample P (?this, gl w, alerts w)") auto
  have "getInstance P w = Inr (ws, w\<lparr>gl := s, alerts := n, webgl_instance := Some ws\<rparr>)"
    using assms e by (simp add: getInstance_def new_webgl_start_def platform_ok_def)
  then show ?thesis
    using that webGLStartExample_ready [OF assms(1,3) e] by auto
qed

text \<open>A program that does not link: one alert, and every location is null.\<close>

lemma getInstance_unlinked:
  assumes "canvas_present P" and "webgl_present P" and "\<not> shaders_link P"
    and "webgl_instance w = None"
  obtains ws w' where "getInstance P w = Inr (ws, w')" and "alerts w' = Suc (alerts w)"
    and "pMatrixUniform ws = None" "mMatrixUniform ws = None" "nMatrixUniform ws = None"
    and "vertexPositionAttribute ws = - 1" and "enabled (gl w') = enabled (gl w)"
    and "current_program (gl w') = current_program (gl w)"
    and "gl_errors (gl w') = gl_errors (gl w) + 10"
proof -
  let ?this = "\<lparr>canvas_width = 500, canvas_height = 500, shaderProgram = 0, vertexPositionAttribute = 0,
         normalPositionAttribute = 0, texCoordAttribute = 0, pMatrixUniform = None,
         mMatrixUniform = None, nMatrixUniform = None, modelViewMatrix = mat4_create P,
         projectionMatrix = mat4_create P\<rparr>"
  obtain prog t where t: "shaders_attached P (gl w) = (prog, t)" by (cases "shaders_attached P (gl w)")
  from assms t show ?thesis
    using that shaders_attached_facts [OF t]
    by (simp add: getInstance_def new_webgl_start_def webGLStartExample_def
        initShaders_unlinked gl_fail_def numeral_eq_Suc)
qed

end
