(* ===== verification/Forms.thy ===== *)
theory Forms
  imports WebGLStart
begin

text \<open>
  The flat forms: \<open>Triangle\<close> (src/triangle/triangle.ts), \<open>Square\<close> and \<open>Cube\<close> (src/forms) and
  \<open>CubeNode\<close>'s geometry (src/szenegraph/cubeNode.ts).  Constructors and draw methods take the page
  (the WebGL context and the singleton) and return it changed; an object whose fields a method
  assigns is returned as well.
\<close>

section \<open>The page\<close>

definition on_gl :: "(gl_state \<Rightarrow> gl_state) \<Rightarrow> 'b page_scheme \<Rightarrow> 'b page_scheme" where
  "on_gl f w = w\<lparr>gl := f (gl w)\<rparr>"

definition new_on_gl :: "(gl_state \<Rightarrow> handle \<times> gl_state) \<Rightarrow> 'b page_scheme \<Rightarrow> handle \<times> 'b page_scheme" where
  "new_on_gl f w = (case f (gl w) of (h, s) \<Rightarrow> (h, w\<lparr>gl := s\<rparr>))"

text \<open>\<open>gl.bindBuffer(t, b); gl.bufferData(t, d, STATIC_DRAW)\<close> after \<open>b = gl.createBuffer()\<close>.\<close>

definition fill_buffer :: "gl_target \<Rightarrow> handle \<Rightarrow> buf_data \<Rightarrow> gl_state \<Rightarrow> gl_state" where
  "fill_buffer t b d s = bufferData t d (bindBuffer t (Some b) s)"

text \<open>\<open>gl.bindBuffer(ARRAY_BUFFER, b); gl.vertexAttribPointer(loc, n, FLOAT, false, 0, 0)\<close>.\<close>

definition point_at :: "int \<Rightarrow> nat \<Rightarrow> handle \<Rightarrow> gl_state \<Rightarrow> gl_state" where
  "point_at loc n b s = vertexAttribPointer loc n (bindBuffer ARRAY_BUFFER (Some b) s)"

section \<open>Triangle\<close>

record triangle =
  t_vertices :: "number list"
  t_normal :: "number list"
  t_vertexPositionBuffer :: handle
  t_normalPositionBuffer :: handle
  t_vertexPositionAttribute :: int
  t_normalPositionAttribute :: int

definition triangle_vertices :: "vec \<Rightarrow> vec \<Rightarrow> vec \<Rightarrow> number list" where
  "triangle_vertices v1 v2 v3 =
     [js_at v1 0, js_at v1 1, js_at v1 2,
      js_at v2 0, js_at v2 1, js_at v2 2,
      js_at v3 0, js_at v3 1, js_at v3 2]"

definition triangle_normal :: "'a glm_scheme \<Rightarrow> vec \<Rightarrow> vec \<Rightarrow> vec \<Rightarrow> number list" where
  "triangle_normal P v1 v2 v3 =
     (let diff1 = vec3_sub P v2 v1;
          diff2 = vec3_sub P v3 v1;
          faceNormal = vec3_cross P diff1 diff2
      in [js_at faceNormal 0, js_at faceNormal 1, js_at faceNormal 2,
          js_at faceNormal 0, js_at faceNormal 1, js_at faceNormal 2,
          js_at faceNormal 0, js_at faceNormal 1, js_at faceNormal 2])"

definition triangle_initBuffers :: "triangle \<Rightarrow> gl_state \<Rightarrow> triangle \<times> gl_state" where
  "triangle_initBuffers this s =
     (let (vb, s1) = createBuffer s;
          (nb, s2) = createBuffer s1;
          s3 = fill_buffer ARRAY_BUFFER vb (Floats (t_vertices this)) s2;
          s4 = fill_buffer ARRAY_BUFFER nb (Floats (t_normal this)) s3
      in (this\<lparr>t_vertexPositionBuffer := vb, t_normalPositionBuffer := nb\<rparr>, s4))"

definition new_triangle ::
    "'a platform_scheme \<Rightarrow> vec \<Rightarrow> vec \<Rightarrow> vec \<Rightarrow> 'b page_scheme \<Rightarrow> (triangle \<times> 'b page_scheme) result" where
  "new_triangle P v1 v2 v3 w =
     andThen (getInstance P w) (\<lambda>(webglStart, w1).
       let this = \<lparr>t_vertices = triangle_vertices v1 v2 v3, t_normal = triangle_normal P v1 v2 v3,
                   t_vertexPositionBuffer = 0, t_normalPositionBuffer = 0,
                   t_vertexPositionAttribute = vertexPositionAttribute webglStart,
                   t_normalPositionAttribute = normalPositionAttribute webglStart\<rparr>;
           (this', s) = triangle_initBuffers this (gl w1)
       in Inr (this', w1\<lparr>gl := s\<rparr>))"

definition triangle_draw :: "triangle \<Rightarrow> nat \<Rightarrow> gl_state \<Rightarrow> gl_state" where
  "triangle_draw this count s =
     drawArrays TRIANGLES 0 count
       (point_at (t_normalPositionAttribute this) 3 (t_normalPositionBuffer this)
         (point_at (t_vertexPositionAttribute this) 3 (t_vertexPositionBuffer this) s))"

section \<open>Square\<close>

record square =
  textPositionData :: "number list"
  texturePositionBuffer :: handle
  triangles :: "triangle list"

definition square_initBuffer ::
    "'a platform_scheme \<Rightarrow> square \<Rightarrow> 'b page_scheme \<Rightarrow> (square \<times> 'b page_scheme) result" where
  "square_initBuffer P this w =
     andThen (getInstance P w) (\<lambda>(_, w1).
       let (b, w2) = new_on_gl createBuffer w1
       in Inr (this\<lparr>texturePositionBuffer := b\<rparr>,
               on_gl (fill_buffer ARRAY_BUFFER b (Floats (textPositionData this))) w2))"

definition square_bindBuffer ::
    "'a platform_scheme \<Rightarrow> square \<Rightarrow> 'b page_scheme \<Rightarrow> 'b page_scheme result" where
  "square_bindBuffer P this w =
     andThen (getInstance P w) (\<lambda>(webgl, w1).
       Inr (on_gl (point_at (texCoordAttribute webgl) 2 (texturePositionBuffer this)) w1))"

definition new_square ::
    "'a platform_scheme \<Rightarrow> vec \<Rightarrow> vec \<Rightarrow> vec \<Rightarrow> vec \<Rightarrow> 'b page_scheme \<Rightarrow> (square \<times> 'b page_scheme) result" where
  "new_square P v1 v2 v3 v4 w =
     andThen (new_triangle P v1 v2 v3 w) (\<lambda>(a, w1).
     andThen (new_triangle P v3 v4 v1 w1) (\<lambda>(b, w2).
       square_initBuffer P \<lparr>textPositionData = [], texturePositionBuffer = 0, triangles = [a, b]\<rparr> w2))"

text \<open>One half of \<open>draw\<close>: new texture coordinates in a new buffer, then a triangle.\<close>

definition square_drawHalf ::
    "'a platform_scheme \<Rightarrow> number list \<Rightarrow> nat \<Rightarrow> square \<times> 'b page_scheme \<Rightarrow> (square \<times> 'b page_scheme) result" where
  "square_drawHalf P coords i = (\<lambda>(this, w).
     andThen (square_initBuffer P (this\<lparr>textPositionData := coords\<rparr>) w) (\<lambda>(this1, w1).
     andThen (square_bindBuffer P this1 w1) (\<lambda>w2.
     andThen (deref (js_nth (triangles this1) i)) (\<lambda>t.
       Inr (this1, on_gl (triangle_draw t 3) w2)))))"

definition square_draw ::
    "'a platform_scheme \<Rightarrow> square \<Rightarrow> 'b page_scheme \<Rightarrow> (square \<times> 'b page_scheme) result" where
  "square_draw P this w =
     andThen (square_drawHalf P [0, 0, 0, 1, 1, 1] 0 (this, w))
       (square_drawHalf P [1, 1, 1, 0, 0, 0] 1)"

section \<open>The corners of a box, Cube and CubeNode\<close>

text \<open>The corners \<open>v1\<close> to \<open>v8\<close>, made by \<open>mk\<close> (\<open>vec3.fromValues\<close> or \<open>vec3.set\<close>).\<close>

definition box_corners ::
    "(number \<Rightarrow> number \<Rightarrow> number \<Rightarrow> vec) \<Rightarrow> number \<Rightarrow> number \<Rightarrow> number \<Rightarrow> vec list" where
  "box_corners mk heigth width depth =
     [mk (heigth / 2) (width / 2) (- depth / 2),
      mk (heigth / 2) (- width / 2) (- depth / 2),
      mk (- heigth / 2) (- width / 2) (- depth / 2),
      mk (- heigth / 2) (width / 2) (- depth / 2),
      mk (heigth / 2) (width / 2) (depth / 2),
      mk (heigth / 2) (- width / 2) (depth / 2),
      mk (- heigth / 2) (- width / 2) (depth / 2),
      mk (- heigth / 2) (width / 2) (depth / 2)]"

text \<open>The faces, each by the numbers of its four corners in the order of the code.\<close>

definition cube_faces :: "(nat \<times> nat \<times> nat \<times> nat) list" where
  "cube_faces = [(1, 2, 3, 4), (6, 5, 8, 7), (5, 6, 2, 1), (5, 1, 4, 8), (2, 6, 7, 3), (4, 3, 7, 8)]"

fun new_squares ::
    "'a platform_scheme \<Rightarrow> vec list \<Rightarrow> (nat \<times> nat \<times> nat \<times> nat) list \<Rightarrow> 'b page_scheme \<Rightarrow>
     (square list \<times> 'b page_scheme) result" where
  "new_squares P v [] w = Inr ([], w)"
| "new_squares P v ((a, b, c, d) # fs) w =
     andThen (new_square P (v ! (a - 1)) (v ! (b - 1)) (v ! (c - 1)) (v ! (d - 1)) w) (\<lambda>(sq, w1).
     andThen (new_squares P v fs w1) (\<lambda>(sqs, w2). Inr (sq # sqs, w2)))"

record cube_node =
  squares :: "square list"
  c_texCoordBuffer :: handle
  c_texData :: "number list"

definition cube_initTex :: "cube_node \<Rightarrow> 'b page_scheme \<Rightarrow> cube_node \<times> 'b page_scheme" where
  "cube_initTex this w =
     (let (b, w1) = new_on_gl createBuffer w
      in (this\<lparr>c_texCoordBuffer := b\<rparr>,
          on_gl (fill_buffer ARRAY_BUFFER b (Floats (c_texData this))) w1))"

definition cube_bindTex :: "'a platform_scheme \<Rightarrow> cube_node \<Rightarrow> 'b page_scheme \<Rightarrow> 'b page_scheme result" where
  "cube_bindTex P this w =
     andThen (getInstance P w) (\<lambda>(webgl, w1).
       Inr (on_gl (point_at (texCoordAttribute webgl) 2 (c_texCoordBuffer this)) w1))"

definition new_cube_node ::
    "'a platform_scheme \<Rightarrow> number \<Rightarrow> number \<Rightarrow> number \<Rightarrow> 'b page_scheme \<Rightarrow> (cube_node \<times> 'b page_scheme) result" where
  "new_cube_node P heigth width depth w =
     andThen (getInstance P w) (\<lambda>(_, w0).
     andThen (new_squares P (box_corners (vec3_fromValues P) heigth width depth) cube_faces w0) (\<lambda>(sqs, w1).
       Inr (cube_initTex \<lparr>squares = sqs, c_texCoordBuffer = 0,
              c_texData = concat (map (\<lambda>_. [1, 1, 0, 1, 0, 0, 1, 0]) sqs)\<rparr> w1)))"

fun draw_squares ::
    "'a platform_scheme \<Rightarrow> square list \<Rightarrow> 'b page_scheme \<Rightarrow> (square list \<times> 'b page_scheme) result" where
  "draw_squares P [] w = Inr ([], w)"
| "draw_squares P (sq # sqs) w =
     andThen (square_draw P sq w) (\<lambda>(sq', w1).
     andThen (draw_squares P sqs w1) (\<lambda>(sqs', w2). Inr (sq' # sqs', w2)))"

definition cube_draw ::
    "'a platform_scheme \<Rightarrow> cube_node \<Rightarrow> 'b page_scheme \<Rightarrow> (cube_node \<times> 'b page_scheme) result" where
  "cube_draw P this w =
     andThen (cube_bindTex P this w) (\<lambda>w1.
     andThen (draw_squares P (squares this) w1) (\<lambda>(sqs, w2).
       Inr (this\<lparr>squares := sqs\<rparr>, w2)))"

text \<open>
  The class \<open>Cube\<close> of src/forms/cube.ts is a \<open>Square\<close> of the first face; the other five faces are
  constructed (with their buffers) and dropped.
\<close>

definition new_cube ::
    "'a platform_scheme \<Rightarrow> number \<Rightarrow> number \<Rightarrow> number \<Rightarrow> 'b page_scheme \<Rightarrow> (square \<times> 'b page_scheme) result" where
  "new_cube P heigth width depth w =
     (let v = box_corners (vec3_set P) heigth width depth in
      andThen (new_squares P v [hd cube_faces] w) (\<lambda>(super, w1).
      andThen (new_squares P v (tl cube_faces) w1) (\<lambda>(_, w2).
      andThen (deref (js_nth super 0)) (\<lambda>this. Inr (this, w2)))))"

section \<open>Growth of the context\<close>

text \<open>
  A later state of the context extends an earlier one: handles are never reused, the buffers that
  existed keep their contents, the pipeline stays as it was set up and the trace only grows.
\<close>

definition gl_ext :: "gl_state \<Rightarrow> gl_state \<Rightarrow> bool" where
  "gl_ext s s' \<longleftrightarrow> fresh s \<le> fresh s' \<and> (\<forall>h < fresh s. buffers s' h = buffers s h) \<and>
     pipeline s' = pipeline s \<and> (\<exists>es. trace s' = trace s @ es)"

lemma gl_ext_refl [simp, intro]: "gl_ext s s"
  by (simp add: gl_ext_def)

lemma gl_ext_trans [trans]: "gl_ext s t \<Longrightarrow> gl_ext t u \<Longrightarrow> gl_ext s u"
  by (auto simp: gl_ext_def)

lemma gl_ext_ready: "gl_ext s s' \<Longrightarrow> gl_ready P ws s' \<longleftrightarrow> gl_ready P ws s"
  using gl_ready_pipeline by (metis gl_ext_def)

lemma gl_ext_calls [intro]:
  "gl_ext s (snd (createBuffer s))"
  "gl_ext s (bindBuffer t b s)"
  "gl_ext s (vertexAttribPointer l n s)"
  "gl_ext s (draw_indices m idx s)"
  "gl_ext s (drawArrays m i n s)"
  by (simp_all add: gl_ext_def gl_frame createBuffer_def draw_indices_def drawArrays_def gl_fail_def)
    (simp_all add: pipeline_def)

lemma gl_ext_fill: "fresh s \<le> b \<Longrightarrow> gl_ext s s' \<Longrightarrow> gl_ext s (fill_buffer t b d s')"
  by (cases t) (auto simp: gl_ext_def fill_buffer_def gl_frame bufferData_def gl_fail_def pipeline_def split: option.split)

lemma gl_ext_point: "gl_ext s (point_at l n b s)"
  unfolding point_at_def by (meson gl_ext_calls gl_ext_trans)

lemma fill_buffer_simps [simp]:
  "buffers (fill_buffer t b d s) = (buffers s)(b \<mapsto> d)"
  "fresh (fill_buffer t b d s) = fresh s"
  "gl_errors (fill_buffer t b d s) = gl_errors s"
  "scene_state (fill_buffer t b d s) = scene_state s"
  "pipeline (fill_buffer t b d s) = pipeline s"
  "trace (fill_buffer t b d s) = trace s"
  by (cases t; simp add: fill_buffer_def bufferData_def scene_state_def pipeline_def)+

lemma point_at_simps [simp]:
  "buffers (point_at l n b s) = buffers s"
  "fresh (point_at l n b s) = fresh s"
  "0 \<le> l \<Longrightarrow> gl_errors (point_at l n b s) = gl_errors s"
  "scene_state (point_at l n b s) = scene_state s"
  "pipeline (point_at l n b s) = pipeline s"
  "trace (point_at l n b s) = trace s"
  by (simp_all add: point_at_def gl_frame vertexAttribPointer_def gl_fail_def pipeline_def scene_state_def)

lemma source_of_point_at:
  assumes "0 \<le> l" and "l \<in> set (enabled s)" and "buffers s b = Some (Floats xs)"
  shows "source_of (point_at l n b s) k = (if k = l then Some (n, xs) else source_of s k)"
  using assms by (simp add: source_of_def point_at_def vertexAttribPointer_def
      split: option.split buf_data.split)

lemma createBuffer_simps [simp]:
  "fst (createBuffer s) = fresh s"
  "fresh (snd (createBuffer s)) = Suc (fresh s)"
  "buffers (snd (createBuffer s)) = (buffers s)(fresh s \<mapsto> Floats [])"
  "gl_errors (snd (createBuffer s)) = gl_errors s"
  by (simp_all add: createBuffer_def)

text \<open>The vertices of a draw call, as one attribute of the vertex shader sees them.\<close>

definition drawn :: "draw_call \<Rightarrow> int \<Rightarrow> number list list" where
  "drawn d loc = (case d_sources d loc of None \<Rightarrow> [] | Some src \<Rightarrow> map (fetch src) (d_indices d))"

section \<open>Drawing one triangle\<close>

definition triangle_good :: "webgl_start \<Rightarrow> triangle \<Rightarrow> gl_state \<Rightarrow> bool" where
  "triangle_good ws t s \<longleftrightarrow>
     t_vertexPositionAttribute t = vertexPositionAttribute ws \<and>
     t_normalPositionAttribute t = normalPositionAttribute ws \<and>
     t_vertexPositionBuffer t < fresh s \<and> t_normalPositionBuffer t < fresh s \<and>
     buffers s (t_vertexPositionBuffer t) = Some (Floats (t_vertices t)) \<and>
     buffers s (t_normalPositionBuffer t) = Some (Floats (t_normal t)) \<and>
     length (t_vertices t) = 9 \<and> length (t_normal t) = 9"

lemma triangle_good_ext: "gl_ext s s' \<Longrightarrow> triangle_good ws t s \<Longrightarrow> triangle_good ws t s'"
  by (auto simp: triangle_good_def gl_ext_def)

definition locations_ok :: "webgl_start \<Rightarrow> bool" where
  "locations_ok ws \<longleftrightarrow> 0 \<le> vertexPositionAttribute ws \<and> 0 \<le> normalPositionAttribute ws \<and>
     0 \<le> texCoordAttribute ws \<and>
     distinct [vertexPositionAttribute ws, normalPositionAttribute ws, texCoordAttribute ws]"

lemma ready_locations: "platform_ok P \<Longrightarrow> gl_ready P ws s \<Longrightarrow> locations_ok ws"
  by (simp add: platform_ok_def gl_ready_def locations_ok_def)

lemma upt_3: "[0..<3] = [0, 1, 2::nat]"
  by (simp add: upt_rec)

lemma triangle_draw_draws:
  assumes "locations_ok ws" and "gl_ready P ws s" and "triangle_good ws t s"
    and "source_of s (texCoordAttribute ws) = Some (2, uv)" and "length uv = 6"
  shows "gl_ext s (triangle_draw t 3 s)"
    and "gl_errors (triangle_draw t 3 s) = gl_errors s"
    and "scene_state (triangle_draw t 3 s) = scene_state s"
    and "fresh (triangle_draw t 3 s) = fresh s"
    and "\<exists>d. trace (triangle_draw t 3 s) = trace s @ [Draw d] \<and> d_mode d = TRIANGLES \<and>
      d_indices d = [0, 1, 2] \<and>
      d_uniforms d = uniforms s \<and> d_texture d = bound_texture s 0 \<and>
      d_sources d (vertexPositionAttribute ws) = Some (3, t_vertices t) \<and>
      d_sources d (normalPositionAttribute ws) = Some (3, t_normal t) \<and>
      d_sources d (texCoordAttribute ws) = Some (2, uv)"
proof -
  let ?s1 = "point_at (vertexPositionAttribute ws) 3 (t_vertexPositionBuffer t) s"
  let ?s2 = "point_at (normalPositionAttribute ws) 3 (t_normalPositionBuffer t) ?s1"
  have pipe: "pipeline ?s2 = pipeline s" and scene: "scene_state ?s2 = scene_state s" by simp_all
  then have ready: "gl_ready P ws ?s2" using assms(2) gl_ready_pipeline by metis
  from assms(1) have pos: "0 \<le> vertexPositionAttribute ws" "0 \<le> normalPositionAttribute ws"
    and dist: "vertexPositionAttribute ws \<noteq> normalPositionAttribute ws"
      "texCoordAttribute ws \<noteq> normalPositionAttribute ws" "texCoordAttribute ws \<noteq> vertexPositionAttribute ws"
    by (auto simp: locations_ok_def)
  have en: "set (enabled s) = {vertexPositionAttribute ws, normalPositionAttribute ws, texCoordAttribute ws}"
    using assms(2) by (simp add: gl_ready_def)
  have en1: "enabled ?s1 = enabled s" "enabled ?s2 = enabled s" 
    using pipe by (simp_all add: pipeline_def point_at_def vertexAttribPointer_def gl_fail_def)
  have src: "source_of ?s2 k = (if k = normalPositionAttribute ws then Some (3, t_normal t)
      else if k = vertexPositionAttribute ws then Some (3, t_vertices t) else source_of s k)" for k
    using assms(3) pos en en1 by (simp add: triangle_good_def source_of_point_at)
  have allowed: "draw_allowed ?s2 [0, 1, 2]"
    using ready assms(3-5) src dist en en1
    by (auto simp: draw_allowed_def covers_def list_all_iff triangle_good_def gl_ready_def)
  have eq: "triangle_draw t 3 s = draw_indices TRIANGLES [0, 1, 2] ?s2"
    using assms(3) by (simp add: triangle_draw_def triangle_good_def drawArrays_def upt_3)
  show "gl_ext s (triangle_draw t 3 s)"
    unfolding eq by (meson gl_ext_point gl_ext_calls gl_ext_trans)
  show "gl_errors (triangle_draw t 3 s) = gl_errors s"
    unfolding eq using allowed pos by (simp add: draw_indices_def)
  show "scene_state (triangle_draw t 3 s) = scene_state s"
    unfolding eq by (simp add: gl_frame)
  show "fresh (triangle_draw t 3 s) = fresh s"
    unfolding eq by (simp add: gl_frame)
  show "\<exists>d. trace (triangle_draw t 3 s) = trace s @ [Draw d] \<and> d_mode d = TRIANGLES \<and>
      d_indices d = [0, 1, 2] \<and>
      d_uniforms d = uniforms s \<and> d_texture d = bound_texture s 0 \<and>
      d_sources d (vertexPositionAttribute ws) = Some (3, t_vertices t) \<and>
      d_sources d (normalPositionAttribute ws) = Some (3, t_normal t) \<and>
      d_sources d (texCoordAttribute ws) = Some (2, uv)"
    using allowed scene assms(4) dist
    by (simp add: eq draw_indices_def draw_now_def src scene_state_def)
qed

section \<open>Squares\<close>

definition page_ready :: "'a platform_scheme \<Rightarrow> webgl_start \<Rightarrow> 'b page_scheme \<Rightarrow> bool" where
  "page_ready P ws w \<longleftrightarrow> platform_ok P \<and> webgl_instance w = Some ws \<and> gl_ready P ws (gl w)"

lemma page_ready_getInstance: "page_ready P ws w \<Longrightarrow> getInstance P w = Inr (ws, w)"
  by (simp add: page_ready_def webgl.get_stored)

lemma page_ready_ext:
  "page_ready P ws w \<Longrightarrow> gl_ext (gl w) s \<Longrightarrow> page_ready P ws (w\<lparr>gl := s\<rparr>)"
  by (simp add: page_ready_def gl_ext_ready)

lemma page_ready_locations: "page_ready P ws w \<Longrightarrow> locations_ok ws"
  by (auto simp: page_ready_def intro: ready_locations)

text \<open>A page that another one grew from, by calls to the context alone.\<close>

definition page_grows :: "'b page_scheme \<Rightarrow> 'b page_scheme \<Rightarrow> bool" where
  "page_grows w w' \<longleftrightarrow> gl_ext (gl w) (gl w') \<and> w' = w\<lparr>gl := gl w'\<rparr>"

lemma page_grows_refl [simp, intro]: "page_grows w w"
  by (simp add: page_grows_def)

lemma page_grows_trans [trans]: "page_grows w v \<Longrightarrow> page_grows v u \<Longrightarrow> page_grows w u"
proof -
  assume a: "page_grows w v" and b: "page_grows v u"
  then have "gl_ext (gl w) (gl u)" unfolding page_grows_def using gl_ext_trans by blast
  moreover from a have v: "v = w\<lparr>gl := gl v\<rparr>" by (simp add: page_grows_def)
  from b have "u = v\<lparr>gl := gl u\<rparr>" by (simp add: page_grows_def)
  with v have "u = w\<lparr>gl := gl u\<rparr>" by (metis page.surjective page.update_convs(1))
  ultimately show "page_grows w u" by (simp add: page_grows_def)
qed

lemma page_grows_gl: "gl_ext (gl w) s \<Longrightarrow> page_grows w (w\<lparr>gl := s\<rparr>)"
  by (simp add: page_grows_def)

lemma page_grows_ready: "page_grows w w' \<Longrightarrow> page_ready P ws w \<Longrightarrow> page_ready P ws w'"
  by (metis page_grows_def page_ready_ext)

lemma new_triangle_good:
  assumes "page_ready P ws w"
  shows "\<exists>t w'. new_triangle P v1 v2 v3 w = Inr (t, w') \<and> page_grows w w' \<and>
    triangle_good ws t (gl w') \<and> t_vertices t = triangle_vertices v1 v2 v3 \<and>
    t_normal t = triangle_normal P v1 v2 v3 \<and> fresh (gl w') = fresh (gl w) + 2 \<and>
    gl_errors (gl w') = gl_errors (gl w) \<and> trace (gl w') = trace (gl w) \<and>
    scene_state (gl w') = scene_state (gl w)"
proof -
  let ?s = "gl w"
  let ?s4 = "fill_buffer ARRAY_BUFFER (Suc (fresh ?s)) (Floats (triangle_normal P v1 v2 v3))
      (fill_buffer ARRAY_BUFFER (fresh ?s) (Floats (triangle_vertices v1 v2 v3))
        (snd (createBuffer (snd (createBuffer ?s)))))"
  let ?t = "\<lparr>t_vertices = triangle_vertices v1 v2 v3, t_normal = triangle_normal P v1 v2 v3,
      t_vertexPositionBuffer = fresh ?s, t_normalPositionBuffer = Suc (fresh ?s),
      t_vertexPositionAttribute = vertexPositionAttribute ws,
      t_normalPositionAttribute = normalPositionAttribute ws\<rparr>"
  have "new_triangle P v1 v2 v3 w = Inr (?t, w\<lparr>gl := ?s4\<rparr>)"
    using page_ready_getInstance [OF assms]
    by (simp add: new_triangle_def triangle_initBuffers_def Let_def case_prod_beta)
  moreover have "gl_ext ?s ?s4"
    by (intro gl_ext_fill) (auto intro: gl_ext_trans)
  moreover have "triangle_good ws ?t ?s4"
    by (simp add: triangle_good_def triangle_vertices_def triangle_normal_def Let_def)
  ultimately show ?thesis
    by (auto intro: page_grows_gl simp: gl_frame)
qed

text \<open>A square that can be drawn: two triangles that can.\<close>

definition square_good :: "webgl_start \<Rightarrow> square \<Rightarrow> gl_state \<Rightarrow> bool" where
  "square_good ws sq s \<longleftrightarrow> length (triangles sq) = 2 \<and> list_all (\<lambda>t. triangle_good ws t s) (triangles sq)"

lemma square_good_ext: "gl_ext s s' \<Longrightarrow> square_good ws sq s \<Longrightarrow> square_good ws sq s'"
  by (auto simp: square_good_def list_all_iff intro: triangle_good_ext)

lemma page_ready_new_buffer:
  assumes "page_ready P ws w"
  shows "square_initBuffer P sq w = Inr (sq\<lparr>texturePositionBuffer := fresh (gl w)\<rparr>,
      w\<lparr>gl := fill_buffer ARRAY_BUFFER (fresh (gl w)) (Floats (textPositionData sq))
        (snd (createBuffer (gl w)))\<rparr>)"
  using page_ready_getInstance [OF assms]
  by (simp add: square_initBuffer_def new_on_gl_def on_gl_def case_prod_beta)

lemma new_square_good:
  assumes "page_ready P ws w"
  shows "\<exists>sq w'. new_square P v1 v2 v3 v4 w = Inr (sq, w') \<and> page_grows w w' \<and>
    square_good ws sq (gl w') \<and>
    map t_vertices (triangles sq) = [triangle_vertices v1 v2 v3, triangle_vertices v3 v4 v1] \<and>
    map t_normal (triangles sq) = [triangle_normal P v1 v2 v3, triangle_normal P v3 v4 v1] \<and>
    fresh (gl w') = fresh (gl w) + 5 \<and> gl_errors (gl w') = gl_errors (gl w) \<and>
    trace (gl w') = trace (gl w) \<and> scene_state (gl w') = scene_state (gl w)"
proof -
  from new_triangle_good [OF assms] obtain a w1 where
    a: "new_triangle P v1 v2 v3 w = Inr (a, w1)" "page_grows w w1" "triangle_good ws a (gl w1)"
      "t_vertices a = triangle_vertices v1 v2 v3" "t_normal a = triangle_normal P v1 v2 v3"
      "fresh (gl w1) = fresh (gl w) + 2" "gl_errors (gl w1) = gl_errors (gl w)"
      "trace (gl w1) = trace (gl w)" "scene_state (gl w1) = scene_state (gl w)"
    by blast
  from page_grows_ready [OF a(2) assms] have r1: "page_ready P ws w1" .
  from new_triangle_good [OF r1] obtain b w2 where
    b: "new_triangle P v3 v4 v1 w1 = Inr (b, w2)" "page_grows w1 w2" "triangle_good ws b (gl w2)"
      "t_vertices b = triangle_vertices v3 v4 v1" "t_normal b = triangle_normal P v3 v4 v1"
      "fresh (gl w2) = fresh (gl w1) + 2" "gl_errors (gl w2) = gl_errors (gl w1)"
      "trace (gl w2) = trace (gl w1)" "scene_state (gl w2) = scene_state (gl w1)"
    by blast
  from page_grows_ready [OF b(2) r1] have r2: "page_ready P ws w2" .
  let ?s = "fill_buffer ARRAY_BUFFER (fresh (gl w2)) (Floats []) (snd (createBuffer (gl w2)))"
  let ?sq = "\<lparr>textPositionData = [], texturePositionBuffer = fresh (gl w2), triangles = [a, b]\<rparr>"
  have eq: "new_square P v1 v2 v3 v4 w = Inr (?sq, w2\<lparr>gl := ?s\<rparr>)"
    by (simp add: new_square_def a b page_ready_new_buffer [OF r2])
  have e2: "gl_ext (gl w2) ?s" by (intro gl_ext_fill) auto
  have "triangle_good ws a (gl w2)"
    using a(3) b(2) triangle_good_ext by (auto simp: page_grows_def)
  then have "square_good ws ?sq ?s"
    using b(3) e2 triangle_good_ext by (auto simp: square_good_def)
  moreover have "page_grows w (w2\<lparr>gl := ?s\<rparr>)"
    using a(2) b(2) page_grows_gl [OF e2] page_grows_trans by blast
  ultimately show ?thesis
    using eq a b by (auto simp: gl_frame)
qed

text \<open>The draw call of a triangle with texture coordinates \<open>uv\<close>, in the scene state of \<open>s\<close>.\<close>

definition draws_triangle :: "webgl_start \<Rightarrow> gl_state \<Rightarrow> triangle \<Rightarrow> number list \<Rightarrow> draw_call \<Rightarrow> bool" where
  "draws_triangle ws s t uv d \<longleftrightarrow> d_mode d = TRIANGLES \<and> d_indices d = [0, 1, 2] \<and>
     d_uniforms d = uniforms s \<and> d_texture d = bound_texture s 0 \<and>
     d_sources d (vertexPositionAttribute ws) = Some (3, t_vertices t) \<and>
     d_sources d (normalPositionAttribute ws) = Some (3, t_normal t) \<and>
     d_sources d (texCoordAttribute ws) = Some (2, uv)"

lemma draws_triangle_scene:
  "scene_state s = scene_state s' \<Longrightarrow> draws_triangle ws s t uv d \<longleftrightarrow> draws_triangle ws s' t uv d"
  by (simp add: draws_triangle_def scene_state_def)

lemma square_drawHalf_draws:
  assumes r: "page_ready P ws w" and g: "square_good ws sq (gl w)" and i: "i < 2"
    and uv: "length uv = 6"
  shows "\<exists>w' d. square_drawHalf P uv i (sq, w) =
      Inr (sq\<lparr>textPositionData := uv, texturePositionBuffer := fresh (gl w)\<rparr>, w') \<and>
    page_grows w w' \<and> gl_errors (gl w') = gl_errors (gl w) \<and>
    scene_state (gl w') = scene_state (gl w) \<and> fresh (gl w') = Suc (fresh (gl w)) \<and>
    trace (gl w') = trace (gl w) @ [Draw d] \<and> draws_triangle ws (gl w) (triangles sq ! i) uv d"
proof -
  let ?s = "gl w" and ?t = "triangles sq ! i"
  let ?s1 = "fill_buffer ARRAY_BUFFER (fresh ?s) (Floats uv) (snd (createBuffer ?s))"
  let ?s2 = "point_at (texCoordAttribute ws) 2 (fresh ?s) ?s1"
  let ?s3 = "triangle_draw ?t 3 ?s2"
  have loc: "locations_ok ws" using r by (rule page_ready_locations)
  have e1: "gl_ext ?s ?s1" by (intro gl_ext_fill) auto
  have e2: "gl_ext ?s ?s2" using e1 gl_ext_point gl_ext_trans by blast
  have r1: "page_ready P ws (w\<lparr>gl := ?s1\<rparr>)" using r e1 by (rule page_ready_ext)
  have ready2: "gl_ready P ws ?s2" using r e2 gl_ext_ready by (auto simp: page_ready_def)
  have t: "triangle_good ws ?t ?s2"
    using g i e2 triangle_good_ext by (auto simp: square_good_def list_all_iff)
  have en: "enabled ?s1 = enabled ?s"
    using e1 by (simp add: gl_ext_def pipeline_def)
  then have "texCoordAttribute ws \<in> set (enabled ?s1)"
    using r by (simp add: page_ready_def gl_ready_def)
  then have src: "source_of ?s2 (texCoordAttribute ws) = Some (2, uv)"
    using loc by (simp add: source_of_point_at locations_ok_def)
  note d = triangle_draw_draws [OF loc ready2 t src uv]
  have len: "i < length (triangles sq)" using g i by (simp add: square_good_def)
  have eq: "square_drawHalf P uv i (sq, w) =
      Inr (sq\<lparr>textPositionData := uv, texturePositionBuffer := fresh ?s\<rparr>, w\<lparr>gl := ?s3\<rparr>)"
    using page_ready_getInstance [OF r1] len
    by (simp add: square_drawHalf_def page_ready_new_buffer [OF r] square_bindBuffer_def on_gl_def js_nth_def)
  have "page_grows w (w\<lparr>gl := ?s3\<rparr>)"
    using e2 d(1) gl_ext_trans by (blast intro: page_grows_gl)
  moreover have sc: "scene_state ?s2 = scene_state ?s" by (simp add: gl_frame)
  moreover obtain dc where "trace ?s3 = trace ?s2 @ [Draw dc]" and "draws_triangle ws ?s2 ?t uv dc"
    using d(5) by (auto simp: draws_triangle_def)
  moreover have "gl_errors ?s2 = gl_errors ?s"
    using loc by (simp add: locations_ok_def)
  ultimately show ?thesis
    using eq d(2-4) draws_triangle_scene [OF sc] by (auto simp: gl_frame)
qed

abbreviation first_uv :: "number list" where "first_uv \<equiv> [0, 0, 0, 1, 1, 1]"

abbreviation second_uv :: "number list" where "second_uv \<equiv> [1, 1, 1, 0, 0, 0]"

lemma square_draw_draws:
  assumes r: "page_ready P ws w" and g: "square_good ws sq (gl w)"
  shows "\<exists>sq' w' d1 d2. square_draw P sq w = Inr (sq', w') \<and> triangles sq' = triangles sq \<and>
    page_grows w w' \<and> gl_errors (gl w') = gl_errors (gl w) \<and>
    scene_state (gl w') = scene_state (gl w) \<and> fresh (gl w') = fresh (gl w) + 2 \<and>
    trace (gl w') = trace (gl w) @ [Draw d1, Draw d2] \<and>
    draws_triangle ws (gl w) (triangles sq ! 0) first_uv d1 \<and>
    draws_triangle ws (gl w) (triangles sq ! 1) second_uv d2"
proof -
  obtain w1 d1 where h1: "square_drawHalf P first_uv 0 (sq, w) =
      Inr (sq\<lparr>textPositionData := first_uv, texturePositionBuffer := fresh (gl w)\<rparr>, w1)"
    and p1: "page_grows w w1" "gl_errors (gl w1) = gl_errors (gl w)"
      "scene_state (gl w1) = scene_state (gl w)" "fresh (gl w1) = Suc (fresh (gl w))"
      "trace (gl w1) = trace (gl w) @ [Draw d1]"
      "draws_triangle ws (gl w) (triangles sq ! 0) first_uv d1"
    using square_drawHalf_draws [OF r g, of 0 first_uv] by auto
  let ?sq1 = "sq\<lparr>textPositionData := first_uv, texturePositionBuffer := fresh (gl w)\<rparr>"
  have r1: "page_ready P ws w1" using p1(1) r by (rule page_grows_ready)
  have g1: "square_good ws ?sq1 (gl w1)"
    using g p1(1) square_good_ext by (fastforce simp: page_grows_def square_good_def)
  obtain w2 d2 where h2: "square_drawHalf P second_uv 1 (?sq1, w1) =
      Inr (?sq1\<lparr>textPositionData := second_uv, texturePositionBuffer := fresh (gl w1)\<rparr>, w2)"
    and p2: "page_grows w1 w2" "gl_errors (gl w2) = gl_errors (gl w1)"
      "scene_state (gl w2) = scene_state (gl w1)" "fresh (gl w2) = Suc (fresh (gl w1))"
      "trace (gl w2) = trace (gl w1) @ [Draw d2]"
      "draws_triangle ws (gl w1) (triangles sq ! 1) second_uv d2"
    using square_drawHalf_draws [OF r1 g1, of 1 second_uv] by auto
  have "page_grows w w2" using p1(1) p2(1) by (rule page_grows_trans)
  then show ?thesis
    using h1 h2 p1 p2 draws_triangle_scene [OF p1(3)] by (auto simp: square_draw_def)
qed

section \<open>Lists of squares and the cube\<close>

definition faces_of :: "square list \<Rightarrow> (triangle \<times> number list) list" where
  "faces_of sqs = concat (map (\<lambda>sq. zip (triangles sq) [first_uv, second_uv]) sqs)"

definition draws_faces :: "webgl_start \<Rightarrow> gl_state \<Rightarrow> (triangle \<times> number list) list \<Rightarrow> draw_call list \<Rightarrow> bool" where
  "draws_faces ws s fs ds \<longleftrightarrow> list_all2 (\<lambda>(t, uv) d. draws_triangle ws s t uv d) fs ds"

lemma draws_faces_scene:
  "scene_state s = scene_state s' \<Longrightarrow> draws_faces ws s fs ds \<longleftrightarrow> draws_faces ws s' fs ds"
  by (simp add: draws_faces_def draws_triangle_scene [of s s'])

lemma draw_squares_draws:
  assumes "page_ready P ws w" and "list_all (\<lambda>sq. square_good ws sq (gl w)) sqs"
  shows "\<exists>sqs' w' ds. draw_squares P sqs w = Inr (sqs', w') \<and> map triangles sqs' = map triangles sqs \<and>
    page_grows w w' \<and> gl_errors (gl w') = gl_errors (gl w) \<and> scene_state (gl w') = scene_state (gl w) \<and>
    fresh (gl w') = fresh (gl w) + 2 * length sqs \<and> trace (gl w') = trace (gl w) @ map Draw ds \<and>
    draws_faces ws (gl w) (faces_of sqs) ds"
  using assms
proof (induction sqs arbitrary: w)
  case Nil
  then show ?case by (simp add: faces_of_def draws_faces_def)
next
  case (Cons sq sqs)
  from Cons.prems(2) have g: "square_good ws sq (gl w)"
    and gs: "list_all (\<lambda>sq. square_good ws sq (gl w)) sqs" by simp_all
  obtain sq' w1 d1 d2 where d: "square_draw P sq w = Inr (sq', w1)" "triangles sq' = triangles sq"
      "page_grows w w1" "gl_errors (gl w1) = gl_errors (gl w)" "scene_state (gl w1) = scene_state (gl w)"
      "fresh (gl w1) = fresh (gl w) + 2" "trace (gl w1) = trace (gl w) @ [Draw d1, Draw d2]"
      "draws_triangle ws (gl w) (triangles sq ! 0) first_uv d1"
      "draws_triangle ws (gl w) (triangles sq ! 1) second_uv d2"
    using square_draw_draws [OF Cons.prems(1) g] by blast
  have r1: "page_ready P ws w1" using d(3) Cons.prems(1) by (rule page_grows_ready)
  have gs1: "list_all (\<lambda>sq. square_good ws sq (gl w1)) sqs"
    using gs d(3) square_good_ext by (auto simp: page_grows_def list_all_iff)
  obtain sqs' w2 ds where i: "draw_squares P sqs w1 = Inr (sqs', w2)"
      "map triangles sqs' = map triangles sqs" "page_grows w1 w2"
      "gl_errors (gl w2) = gl_errors (gl w1)" "scene_state (gl w2) = scene_state (gl w1)"
      "fresh (gl w2) = fresh (gl w1) + 2 * length sqs" "trace (gl w2) = trace (gl w1) @ map Draw ds"
      "draws_faces ws (gl w1) (faces_of sqs) ds"
    using Cons.IH [OF r1 gs1] by blast
  obtain a b where two: "triangles sq = [a, b]"
    using g by (auto simp: square_good_def length_Suc_conv numeral_2_eq_2)
  then have "faces_of (sq # sqs) =
      (triangles sq ! 0, first_uv) # (triangles sq ! 1, second_uv) # faces_of sqs"
    by (simp add: faces_of_def)
  then have "draws_faces ws (gl w) (faces_of (sq # sqs)) (d1 # d2 # ds)"
    using d(8,9) i(8) draws_faces_scene [OF d(5)] by (simp add: draws_faces_def)
  moreover have "page_grows w w2" using d(3) i(3) by (rule page_grows_trans)
  ultimately show ?case
    using d i by (auto intro!: exI [of _ "d1 # d2 # ds"])
qed

definition cube_good :: "webgl_start \<Rightarrow> cube_node \<Rightarrow> gl_state \<Rightarrow> bool" where
  "cube_good ws c s \<longleftrightarrow> length (squares c) = 6 \<and> list_all (\<lambda>sq. square_good ws sq s) (squares c)"

lemma cube_draw_draws:
  assumes r: "page_ready P ws w" and g: "cube_good ws c (gl w)"
  shows "\<exists>c' w' ds. cube_draw P c w = Inr (c', w') \<and>
    map triangles (squares c') = map triangles (squares c) \<and>
    page_grows w w' \<and> gl_errors (gl w') = gl_errors (gl w) \<and> scene_state (gl w') = scene_state (gl w) \<and>
    fresh (gl w') = fresh (gl w) + 12 \<and> trace (gl w') = trace (gl w) @ map Draw ds \<and>
    draws_faces ws (gl w) (faces_of (squares c)) ds"
proof -
  let ?s1 = "point_at (texCoordAttribute ws) 2 (c_texCoordBuffer c) (gl w)"
  let ?w1 = "w\<lparr>gl := ?s1\<rparr>"
  have e1: "gl_ext (gl w) ?s1" by (rule gl_ext_point)
  have r1: "page_ready P ws ?w1" using r e1 by (rule page_ready_ext)
  have g1: "list_all (\<lambda>sq. square_good ws sq (gl ?w1)) (squares c)"
    using g e1 square_good_ext by (auto simp: cube_good_def list_all_iff)
  have sc: "scene_state ?s1 = scene_state (gl w)" by simp
  have er: "gl_errors ?s1 = gl_errors (gl w)"
    using page_ready_locations [OF r] by (simp add: locations_ok_def)
  obtain sqs' w2 ds where i: "draw_squares P (squares c) ?w1 = Inr (sqs', w2)"
      "map triangles sqs' = map triangles (squares c)" "page_grows ?w1 w2"
      "gl_errors (gl w2) = gl_errors (gl ?w1)" "scene_state (gl w2) = scene_state (gl ?w1)"
      "fresh (gl w2) = fresh (gl ?w1) + 2 * length (squares c)"
      "trace (gl w2) = trace (gl ?w1) @ map Draw ds"
      "draws_faces ws (gl ?w1) (faces_of (squares c)) ds"
    using draw_squares_draws [OF r1 g1] by blast
  have "page_grows w w2" using page_grows_gl [OF e1] i(3) by (rule page_grows_trans)
  then show ?thesis
    using i g er page_ready_getInstance [OF r] draws_faces_scene [OF sc]
    by (auto simp: cube_draw_def cube_bindTex_def on_gl_def cube_good_def)
qed

lemma triangles_good:
  "map triangles sqs' = map triangles sqs \<Longrightarrow>
    list_all (\<lambda>sq. square_good ws sq s) sqs' \<longleftrightarrow> list_all (\<lambda>sq. square_good ws sq s) sqs"
proof -
  have "list_all (\<lambda>sq. square_good ws sq s) xs \<longleftrightarrow>
      list_all (\<lambda>ts. length ts = 2 \<and> list_all (\<lambda>t. triangle_good ws t s) ts) (map triangles xs)" for xs
    by (simp add: list_all_iff square_good_def)
  then show "map triangles sqs' = map triangles sqs \<Longrightarrow> ?thesis" by simp
qed

section \<open>Objects drawn again in every frame\<close>

fun redraw :: "('x \<Rightarrow> 'w \<Rightarrow> ('x \<times> 'w) result) \<Rightarrow> nat \<Rightarrow> 'x \<Rightarrow> 'w \<Rightarrow> ('x \<times> 'w) result" where
  "redraw draw 0 x w = Inr (x, w)"
| "redraw draw (Suc n) x w = andThen (draw x w) (\<lambda>(x', w'). redraw draw n x' w')"

text \<open>
  The contract of a drawable object: in a page that is ready a good object draws itself without an
  exception or a WebGL error, stays good, and creates a fixed number of WebGL objects.
\<close>

locale drawable =
  fixes ready :: "'w \<Rightarrow> bool"
    and good :: "'x \<Rightarrow> 'w \<Rightarrow> bool"
    and draw :: "'x \<Rightarrow> 'w \<Rightarrow> ('x \<times> 'w) result"
    and created :: "'w \<Rightarrow> nat"
    and errors :: "'w \<Rightarrow> nat"
    and cost :: nat
  assumes draw_step: "ready w \<Longrightarrow> good x w \<Longrightarrow> \<exists>x' w'. draw x w = Inr (x', w') \<and> ready w' \<and>
    good x' w' \<and> created w' = created w + cost \<and> errors w' = errors w"
begin

lemma redraw_frames:
  "ready w \<Longrightarrow> good x w \<Longrightarrow> \<exists>x' w'. redraw draw n x w = Inr (x', w') \<and> ready w' \<and> good x' w' \<and>
    created w' = created w + n * cost \<and> errors w' = errors w"
proof (induction n arbitrary: x w)
  case 0
  then show ?case by simp
next
  case (Suc n)
  from draw_step [OF Suc.prems] obtain x1 w1 where
    1: "draw x w = Inr (x1, w1)" "ready w1" "good x1 w1" "created w1 = created w + cost"
      "errors w1 = errors w"
    by blast
  from Suc.IH [OF 1(2,3)] 1 show ?case by fastforce
qed

lemma redraw_no_error: "ready w \<Longrightarrow> good x w \<Longrightarrow> redraw draw n x w \<noteq> Inl e"
  using redraw_frames [of w x n] by auto

end

interpretation square: drawable "page_ready P ws" "\<lambda>sq w. square_good ws sq (gl w)" "square_draw P"
  "\<lambda>w. fresh (gl w)" "\<lambda>w. gl_errors (gl w)" 2 for P ws
proof
  fix w :: "'b page_scheme" and sq
  assume r: "page_ready P ws w" and g: "square_good ws sq (gl w)"
  from square_draw_draws [OF r g] obtain sq' w' where
    d: "square_draw P sq w = Inr (sq', w')" "triangles sq' = triangles sq" "page_grows w w'"
      "gl_errors (gl w') = gl_errors (gl w)" "fresh (gl w') = fresh (gl w) + 2"
    by blast
  have "square_good ws sq (gl w')" using d(3) g square_good_ext by (auto simp: page_grows_def)
  then show "\<exists>sq' w'. square_draw P sq w = Inr (sq', w') \<and> page_ready P ws w' \<and>
      square_good ws sq' (gl w') \<and> fresh (gl w') = fresh (gl w) + 2 \<and>
      gl_errors (gl w') = gl_errors (gl w)"
    using d page_grows_ready [OF d(3) r] by (auto simp: square_good_def)
qed

interpretation cube: drawable "page_ready P ws" "\<lambda>c w. cube_good ws c (gl w)" "cube_draw P"
  "\<lambda>w. fresh (gl w)" "\<lambda>w. gl_errors (gl w)" 12 for P ws
proof
  fix w :: "'b page_scheme" and c
  assume r: "page_ready P ws w" and g: "cube_good ws c (gl w)"
  from cube_draw_draws [OF r g] obtain c' w' where
    d: "cube_draw P c w = Inr (c', w')" "map triangles (squares c') = map triangles (squares c)"
      "page_grows w w'" "gl_errors (gl w') = gl_errors (gl w)" "fresh (gl w') = fresh (gl w) + 12"
    by blast
  have "list_all (\<lambda>sq. square_good ws sq (gl w')) (squares c)"
    using g d(3) square_good_ext by (auto simp: page_grows_def cube_good_def list_all_iff)
  then have "cube_good ws c' (gl w')"
    using g triangles_good [OF d(2)] map_eq_imp_length_eq [OF d(2)] by (simp add: cube_good_def)
  then show "\<exists>c' w'. cube_draw P c w = Inr (c', w') \<and> page_ready P ws w' \<and>
      cube_good ws c' (gl w') \<and> fresh (gl w') = fresh (gl w) + 12 \<and>
      gl_errors (gl w') = gl_errors (gl w)"
    using d page_grows_ready [OF d(3) r] by auto
qed

section \<open>Building the cube\<close>

definition face_triangles :: "vec list \<Rightarrow> (nat \<times> nat \<times> nat \<times> nat) list \<Rightarrow> (vec \<times> vec \<times> vec) list" where
  "face_triangles v fs = concat (map (\<lambda>(a, b, c, d).
     [(v ! (a - 1), v ! (b - 1), v ! (c - 1)), (v ! (c - 1), v ! (d - 1), v ! (a - 1))]) fs)"

lemma new_squares_good:
  assumes "page_ready P ws w"
  shows "\<exists>sqs w'. new_squares P v fs w = Inr (sqs, w') \<and> page_grows w w' \<and>
    list_all (\<lambda>sq. square_good ws sq (gl w')) sqs \<and> length sqs = length fs \<and>
    map t_vertices (concat (map triangles sqs)) =
      map (\<lambda>(a, b, c). triangle_vertices a b c) (face_triangles v fs) \<and>
    map t_normal (concat (map triangles sqs)) =
      map (\<lambda>(a, b, c). triangle_normal P a b c) (face_triangles v fs) \<and>
    fresh (gl w') = fresh (gl w) + 5 * length fs \<and> gl_errors (gl w') = gl_errors (gl w) \<and>
    trace (gl w') = trace (gl w) \<and> scene_state (gl w') = scene_state (gl w)"
  using assms
proof (induction fs arbitrary: w)
  case Nil
  then show ?case by (simp add: face_triangles_def)
next
  case (Cons f fs)
  obtain a b c d where f: "f = (a, b, c, d)" by (cases f)
  obtain sq w1 where s: "new_square P (v ! (a - 1)) (v ! (b - 1)) (v ! (c - 1)) (v ! (d - 1)) w = Inr (sq, w1)"
      "page_grows w w1" "square_good ws sq (gl w1)"
      "map t_vertices (triangles sq) = [triangle_vertices (v ! (a - 1)) (v ! (b - 1)) (v ! (c - 1)),
        triangle_vertices (v ! (c - 1)) (v ! (d - 1)) (v ! (a - 1))]"
      "map t_normal (triangles sq) = [triangle_normal P (v ! (a - 1)) (v ! (b - 1)) (v ! (c - 1)),
        triangle_normal P (v ! (c - 1)) (v ! (d - 1)) (v ! (a - 1))]"
      "fresh (gl w1) = fresh (gl w) + 5" "gl_errors (gl w1) = gl_errors (gl w)"
      "trace (gl w1) = trace (gl w)" "scene_state (gl w1) = scene_state (gl w)"
    using new_square_good [OF Cons.prems, of "v ! (a - 1)" "v ! (b - 1)" "v ! (c - 1)" "v ! (d - 1)"]
    by (elim exE conjE) (rule that)
  have r1: "page_ready P ws w1" using s(2) Cons.prems by (rule page_grows_ready)
  obtain sqs w2 where i: "new_squares P v fs w1 = Inr (sqs, w2)" "page_grows w1 w2"
      "list_all (\<lambda>sq. square_good ws sq (gl w2)) sqs" "length sqs = length fs"
      "map t_vertices (concat (map triangles sqs)) =
        map (\<lambda>(a, b, c). triangle_vertices a b c) (face_triangles v fs)"
      "map t_normal (concat (map triangles sqs)) =
        map (\<lambda>(a, b, c). triangle_normal P a b c) (face_triangles v fs)"
      "fresh (gl w2) = fresh (gl w1) + 5 * length fs" "gl_errors (gl w2) = gl_errors (gl w1)"
      "trace (gl w2) = trace (gl w1)" "scene_state (gl w2) = scene_state (gl w1)"
    using Cons.IH [OF r1] by blast
  have "square_good ws sq (gl w2)" using s(3) i(2) square_good_ext by (auto simp: page_grows_def)
  moreover have "page_grows w w2" using s(2) i(2) by (rule page_grows_trans)
  ultimately show ?case
    using s i by (auto simp: f face_triangles_def)
qed

lemma new_cube_node_good:
  assumes r: "page_ready P ws w"
  shows "\<exists>c w'. new_cube_node P x y z w = Inr (c, w') \<and> page_grows w w' \<and> cube_good ws c (gl w') \<and>
    map t_vertices (concat (map triangles (squares c))) =
      map (\<lambda>(a, b, c). triangle_vertices a b c)
        (face_triangles (box_corners (vec3_fromValues P) x y z) cube_faces) \<and>
    map t_normal (concat (map triangles (squares c))) =
      map (\<lambda>(a, b, c). triangle_normal P a b c)
        (face_triangles (box_corners (vec3_fromValues P) x y z) cube_faces) \<and>
    fresh (gl w') = fresh (gl w) + 31 \<and> gl_errors (gl w') = gl_errors (gl w) \<and>
    trace (gl w') = trace (gl w) \<and> scene_state (gl w') = scene_state (gl w)"
proof -
  let ?v = "box_corners (vec3_fromValues P) x y z"
  obtain sqs w1 where i: "new_squares P ?v cube_faces w = Inr (sqs, w1)" "page_grows w w1"
      "list_all (\<lambda>sq. square_good ws sq (gl w1)) sqs" "length sqs = 6"
      "map t_vertices (concat (map triangles sqs)) =
        map (\<lambda>(a, b, c). triangle_vertices a b c) (face_triangles ?v cube_faces)"
      "map t_normal (concat (map triangles sqs)) =
        map (\<lambda>(a, b, c). triangle_normal P a b c) (face_triangles ?v cube_faces)"
      "fresh (gl w1) = fresh (gl w) + 30" "gl_errors (gl w1) = gl_errors (gl w)"
      "trace (gl w1) = trace (gl w)" "scene_state (gl w1) = scene_state (gl w)"
    using new_squares_good [OF r, of ?v cube_faces] by (auto simp: cube_faces_def)
  let ?d = "concat (map (\<lambda>_. [1, 1, 0, 1, 0, 0, 1, 0]) sqs) :: number list"
  let ?s = "fill_buffer ARRAY_BUFFER (fresh (gl w1)) (Floats ?d) (snd (createBuffer (gl w1)))"
  let ?c = "\<lparr>squares = sqs, c_texCoordBuffer = fresh (gl w1), c_texData = ?d\<rparr>"
  have eq: "new_cube_node P x y z w = Inr (?c, w1\<lparr>gl := ?s\<rparr>)"
    using page_ready_getInstance [OF r] i(1)
    by (simp add: new_cube_node_def cube_initTex_def new_on_gl_def on_gl_def case_prod_beta)
  have e: "gl_ext (gl w1) ?s" by (intro gl_ext_fill) auto
  have "cube_good ws ?c ?s"
    using i(3,4) e square_good_ext by (auto simp: cube_good_def list_all_iff)
  moreover have "page_grows w (w1\<lparr>gl := ?s\<rparr>)"
    using i(2) page_grows_gl [OF e] page_grows_trans by blast
  ultimately show ?thesis using eq i by (auto simp: gl_frame)
qed

section \<open>Orientation\<close>

text \<open>
  With face culling on, WebGL draws a triangle when its corners run counterclockwise seen from
  outside, that is when the normal of the triangle points away from the centre of the body.
\<close>

fun positive :: "number \<Rightarrow> bool" where
  "positive (Fin x) \<longleftrightarrow> 0 < x"
| "positive PosInf = True"
| "positive _ = False"

text \<open>The triple product \<open>a . (b x c)\<close>: positive when the corners \<open>a\<close>, \<open>b\<close>, \<open>c\<close> run
  counterclockwise seen from outside a body around the origin, negative when clockwise, and 0 when
  the triangle is degenerate (or its plane goes through the origin).\<close>

definition triple_product :: "number list \<Rightarrow> number list \<Rightarrow> number list \<Rightarrow> number" where
  "triple_product a b c =
     js_at a 0 * (js_at b 1 * js_at c 2 - js_at b 2 * js_at c 1) +
     js_at a 1 * (js_at b 2 * js_at c 0 - js_at b 0 * js_at c 2) +
     js_at a 2 * (js_at b 0 * js_at c 1 - js_at b 1 * js_at c 0)"

definition strictly_out :: "(nat \<Rightarrow> number list) \<Rightarrow> nat \<times> nat \<times> nat \<Rightarrow> bool" where
  "strictly_out v t = (case t of (a, b, c) \<Rightarrow> positive (triple_product (v a) (v b) (v c)))"

definition outward :: "number list \<Rightarrow> number list \<Rightarrow> bool" where
  "outward n v \<longleftrightarrow> list_all (\<lambda>i. positive (js_at n i * js_at v i + js_at n (i + 1) * js_at v (i + 1)
     + js_at n (i + 2) * js_at v (i + 2))) [0, 3, 6]"

context gl_matrix
begin

lemma triangle_normal_values:
  "triangle_normal P [Fin a0, Fin a1, Fin a2] [Fin b0, Fin b1, Fin b2] [Fin c0, Fin c1, Fin c2] =
    (let n = [Fin ((b1 - a1) * (c2 - a2) - (b2 - a2) * (c1 - a1)),
              Fin ((b2 - a2) * (c0 - a0) - (b0 - a0) * (c2 - a2)),
              Fin ((b0 - a0) * (c1 - a1) - (b1 - a1) * (c0 - a0))]
     in n @ n @ n)"
  by (simp add: triangle_normal_def sub_eq cross_eq Let_def minus_number_Fin)

lemma box_corners_values:
  "box_corners (vec3_fromValues P) (Fin x) (Fin y) (Fin z) =
    [[Fin (x / 2), Fin (y / 2), Fin (- z / 2)], [Fin (x / 2), Fin (- y / 2), Fin (- z / 2)],
     [Fin (- x / 2), Fin (- y / 2), Fin (- z / 2)], [Fin (- x / 2), Fin (y / 2), Fin (- z / 2)],
     [Fin (x / 2), Fin (y / 2), Fin (z / 2)], [Fin (x / 2), Fin (- y / 2), Fin (z / 2)],
     [Fin (- x / 2), Fin (- y / 2), Fin (z / 2)], [Fin (- x / 2), Fin (y / 2), Fin (z / 2)]]"
  by (simp add: box_corners_def vec3_values numeral_number)

lemma cube_faces_outward:
  assumes "0 < x" and "0 < y" and "0 < z"
  shows "list_all (\<lambda>(a, b, c). outward (triangle_normal P a b c) (triangle_vertices a b c) \<and>
      strictly_out (fetch (3, triangle_vertices a b c)) (0, 1, 2))
    (face_triangles (box_corners (vec3_fromValues P) (Fin x) (Fin y) (Fin z)) cube_faces)"
  using assms by (simp add: face_triangles_def cube_faces_def box_corners_values triangle_normal_values
    triangle_vertices_def outward_def Let_def field_simps strictly_out_def triple_product_def fetch_def
    minus_number_Fin)

end

end
