(* ===== verification/Sphere.thy ===== *)
theory Sphere
  imports Forms
begin

text \<open>
  The class \<open>Sphere\<close> of src/szenegraph/sphereNode.ts: the vertices, normals and texture coordinates
  of a grid of latitudes and longitudes, the index list that walks the grid as one triangle strip,
  and the draw call; and the older class \<open>Sphere\<close> of src/szenegraph/sphere.ts, a polygon.  The number
  of bands is an argument of the data definitions (the code has 100 for both).
\<close>

section \<open>The data of the grid\<close>

definition latitudeBands :: nat where "latitudeBands = 100"

definition longitudeBands :: nat where "longitudeBands = 100"

text \<open>The unit vector of grid point \<open>(i, j)\<close>, from the angles \<open>theta\<close> and \<open>phi\<close>.\<close>

definition grid_normal :: "nat \<Rightarrow> nat \<Rightarrow> nat \<Rightarrow> nat \<Rightarrow> number list" where
  "grid_normal lat long i j =
     (let theta = Fin (real i) * js_PI / Fin (real lat);
          sinTheta = js_sin theta;
          cosTheta = js_cos theta;
          phi = Fin (real j) * 2 * js_PI / Fin (real long);
          x = sinTheta * js_sin phi;
          y = cosTheta;
          z = sinTheta * js_cos phi
      in [x, y, z])"

text \<open>The two nested loops with inclusive bounds, and what the body pushes.\<close>

definition grid_points :: "nat \<Rightarrow> nat \<Rightarrow> (nat \<times> nat) list" where
  "grid_points lat long = [(i, j). i \<leftarrow> [0..<lat + 1], j \<leftarrow> [0..<long + 1]]"

definition vertexPositionData :: "nat \<Rightarrow> nat \<Rightarrow> number \<Rightarrow> number list" where
  "vertexPositionData lat long radius =
     concat (map (\<lambda>(i, j). map (\<lambda>c. radius * c) (grid_normal lat long i j)) (grid_points lat long))"

definition normalPositionData :: "nat \<Rightarrow> nat \<Rightarrow> number list" where
  "normalPositionData lat long =
     concat (map (\<lambda>(i, j). grid_normal lat long i j) (grid_points lat long))"

definition sphere_texData :: "nat \<Rightarrow> nat \<Rightarrow> number list" where
  "sphere_texData lat long =
     concat (map (\<lambda>(i, j). [Fin (real j) / Fin (real long), Fin (real i) / Fin (real lat)])
       (grid_points lat long))"

text \<open>The four indices pushed for the quad whose upper left corner is \<open>(i, j)\<close>.\<close>

definition quad_indices :: "nat \<Rightarrow> nat \<Rightarrow> nat \<Rightarrow> nat list" where
  "quad_indices long i j =
     (let idx0 = i * (long + 1) + j;
          idx1 = idx0 + long + 1;
          idx2 = idx0 + 1;
          idx3 = idx1 + 1
      in [idx0, idx1, idx2, idx3])"

definition indexData :: "nat \<Rightarrow> nat \<Rightarrow> nat list" where
  "indexData lat long =
     concat (map (\<lambda>(i, j). quad_indices long i j) [(i, j). i \<leftarrow> [0..<lat], j \<leftarrow> [0..<long]])"

section \<open>The object\<close>

record sphere =
  sp_height :: number
  sp_vertexPositionData :: "number list"
  sp_normalPositionData :: "number list"
  sp_indexData :: "nat list"
  sp_texData :: "number list"
  sp_vertexPositionBuffer :: handle
  sp_normalPositionBuffer :: handle
  sp_indexBuffer :: handle
  sp_texCoordBuffer :: handle

definition getHeight :: "sphere \<Rightarrow> number" where
  "getHeight this = sp_height this"

definition sphere_initBuffers ::
    "'a platform_scheme \<Rightarrow> sphere \<Rightarrow> 'b page_scheme \<Rightarrow> (sphere \<times> 'b page_scheme) result" where
  "sphere_initBuffers P this w =
     andThen (getInstance P w) (\<lambda>(_, w0).
       let (vb, w1) = new_on_gl createBuffer w0;
           w2 = on_gl (fill_buffer ARRAY_BUFFER vb (Floats (sp_vertexPositionData this))) w1;
           (ib, w3) = new_on_gl createBuffer w2;
           w4 = on_gl (fill_buffer ELEMENT_ARRAY_BUFFER ib (uint16Array (sp_indexData this))) w3;
           (nb, w5) = new_on_gl createBuffer w4;
           w6 = on_gl (fill_buffer ARRAY_BUFFER nb (Floats (sp_normalPositionData this))) w5;
           (tb, w7) = new_on_gl createBuffer w6;
           w8 = on_gl (fill_buffer ARRAY_BUFFER tb (Floats (sp_texData this))) w7
       in Inr (this\<lparr>sp_vertexPositionBuffer := vb, sp_indexBuffer := ib,
                    sp_normalPositionBuffer := nb, sp_texCoordBuffer := tb\<rparr>, w8))"

definition new_sphere ::
    "'a platform_scheme \<Rightarrow> number \<Rightarrow> 'b page_scheme \<Rightarrow> (sphere \<times> 'b page_scheme) result" where
  "new_sphere P radius w =
     sphere_initBuffers P
       \<lparr>sp_height = 2 * radius,
        sp_vertexPositionData = vertexPositionData latitudeBands longitudeBands radius,
        sp_normalPositionData = normalPositionData latitudeBands longitudeBands,
        sp_indexData = indexData latitudeBands longitudeBands,
        sp_texData = sphere_texData latitudeBands longitudeBands,
        sp_vertexPositionBuffer = 0, sp_normalPositionBuffer = 0, sp_indexBuffer = 0,
        sp_texCoordBuffer = 0\<rparr> w"

definition sphere_bindBuffers ::
    "'a platform_scheme \<Rightarrow> sphere \<Rightarrow> 'b page_scheme \<Rightarrow> 'b page_scheme result" where
  "sphere_bindBuffers P this w =
     andThen (getInstance P w) (\<lambda>(webgl, w0).
       Inr (on_gl (\<lambda>s0.
         let s1 = point_at (vertexPositionAttribute webgl) 3 (sp_vertexPositionBuffer this) s0;
             s2 = point_at (normalPositionAttribute webgl) 3 (sp_normalPositionBuffer this) s1;
             s3 = point_at (texCoordAttribute webgl) 2 (sp_texCoordBuffer this) s2
         in bindBuffer ELEMENT_ARRAY_BUFFER (Some (sp_indexBuffer this)) s3) w0))"

definition sphere_draw :: "'a platform_scheme \<Rightarrow> sphere \<Rightarrow> 'b page_scheme \<Rightarrow> 'b page_scheme result" where
  "sphere_draw P this w =
     andThen (getInstance P w) (\<lambda>(_, w0).
     andThen (sphere_bindBuffers P this w0) (\<lambda>w1.
       Inr (on_gl (drawElements TRIANGLE_STRIP (length (sp_indexData this))) w1)))"

section \<open>The older Sphere\<close>

record polygon =
  pg_radius :: number
  pg_color :: "number list"
  pg_vertices :: "number list"
  pg_vertexPositionBuffer :: handle
  pg_vertexPositionAttribute :: int

text \<open>
  \<open>for (i = 0; i <= 360; i += 3)\<close>: the loop variable is the angle in degrees and the position
  in the array at once.
\<close>

definition calcVertices :: "number \<Rightarrow> number list" where
  "calcVertices radius = concat (map (\<lambda>k.
     let angle = Fin (real (3 * k)) * (js_PI / 180)
     in [radius * js_sin angle, radius * js_cos angle, 0]) [0..<121])"

definition new_polygon ::
    "'a platform_scheme \<Rightarrow> number \<Rightarrow> number list \<Rightarrow> 'b page_scheme \<Rightarrow> (polygon \<times> 'b page_scheme) result" where
  "new_polygon P diameter color w =
     andThen (getInstance P w) (\<lambda>(webglStart, w0).
       let verts = calcVertices (diameter / 2);
           (b, w1) = new_on_gl createBuffer w0
       in Inr (\<lparr>pg_radius = diameter / 2, pg_color = color, pg_vertices = verts,
                pg_vertexPositionBuffer = b,
                pg_vertexPositionAttribute = vertexPositionAttribute webglStart\<rparr>,
               on_gl (fill_buffer ARRAY_BUFFER b (Floats verts)) w1))"

text \<open>\<open>fragmentColorAttribute\<close> is never assigned, so \<open>uniform4f\<close> gets no location.\<close>

definition polygon_draw :: "polygon \<Rightarrow> gl_state \<Rightarrow> gl_state" where
  "polygon_draw this s =
     (let s1 = point_at (pg_vertexPositionAttribute this) 3 (pg_vertexPositionBuffer this) s;
          s2 = setUniform None (UVec (map (js_at (pg_color this)) [0, 1, 2, 3])) s1
      in drawArrays TRIANGLES 0 120 s2)"

section \<open>Reading the grid\<close>

lemma take_drop_concat:
  assumes "\<And>x. x \<in> set xs \<Longrightarrow> length (f x) = k" and "n < length xs"
  shows "take k (drop (n * k) (concat (map f xs))) = f (xs ! n)"
  using assms
proof (induction xs arbitrary: n)
  case Nil
  then show ?case by simp
next
  case (Cons x xs)
  then show ?case by (cases n) simp_all
qed

definition grid_index :: "nat \<Rightarrow> nat \<Rightarrow> nat \<Rightarrow> nat" where
  "grid_index long i j = i * (long + 1) + j"

lemma grid_points_length: "length (grid_points lat long) = (lat + 1) * (long + 1)"
  by (simp add: grid_points_def length_concat sum_list_triv comp_def)

lemma grid_points_nth:
  assumes "i \<le> lat" and "j \<le> long"
  shows "grid_points lat long ! grid_index long i j = (i, j)"
proof -
  have "concat (map (\<lambda>i. map (\<lambda>j. (i, j)) [0..<long + 1]) [0..<lat + 1]) ! (i * (long + 1) + j) =
      map (\<lambda>j. ([0..<lat + 1] ! i, j)) [0..<long + 1] ! j"
    using assms by (intro nth_concat_const) auto
  also have "\<dots> = (i, j)"
    using assms by (simp add: less_Suc_eq_le del: upt_Suc)
  finally show ?thesis by (simp add: grid_points_def grid_index_def)
qed

lemma grid_index_bound:
  assumes "i \<le> lat" and "j \<le> long"
  shows "grid_index long i j < (lat + 1) * (long + 1)"
proof -
  have "i * (long + 1) + j < (i + 1) * (long + 1)" using assms(2) by simp
  also have "\<dots> \<le> (lat + 1) * (long + 1)" using assms(1) by (intro mult_le_mono1) simp
  finally show ?thesis by (simp add: grid_index_def)
qed

lemma grid_normal_length [simp]: "length (grid_normal lat long i j) = 3"
  by (simp add: grid_normal_def Let_def)

lemma fetch_grid:
  assumes "i \<le> lat" and "j \<le> long"
  shows "fetch (3, vertexPositionData lat long r) (grid_index long i j) =
      map (\<lambda>c. r * c) (grid_normal lat long i j)"
    and "fetch (3, normalPositionData lat long) (grid_index long i j) = grid_normal lat long i j"
    and "fetch (2, sphere_texData lat long) (grid_index long i j) =
      [Fin (real j) / Fin (real long), Fin (real i) / Fin (real lat)]"
  unfolding fetch_def vertexPositionData_def normalPositionData_def sphere_texData_def prod.case
  using assms grid_points_nth [OF assms] grid_index_bound [OF assms]
  unfolding grid_index_def
  by (subst take_drop_concat; auto simp: grid_points_length)+

lemma grid_data_length:
  "length (vertexPositionData lat long r) = (lat + 1) * (long + 1) * 3"
  "length (normalPositionData lat long) = (lat + 1) * (long + 1) * 3"
  "length (sphere_texData lat long) = (lat + 1) * (long + 1) * 2"
  unfolding vertexPositionData_def normalPositionData_def sphere_texData_def
  by (subst length_concat_const [where k = 3] length_concat_const [where k = 2];
      auto simp: grid_points_length)+

text \<open>Angles of the grid and the unit vectors over the reals.\<close>

definition theta :: "nat \<Rightarrow> nat \<Rightarrow> real" where "theta lat i = real i * pi / real lat"

definition phi :: "nat \<Rightarrow> nat \<Rightarrow> real" where "phi long j = real j * 2 * pi / real long"

lemma grid_normal_values:
  assumes "0 < lat" and "0 < long"
  shows "grid_normal lat long i j = [Fin (sin (theta lat i) * sin (phi long j)),
     Fin (cos (theta lat i)), Fin (sin (theta lat i) * cos (phi long j))]"
  using assms by (simp add: grid_normal_def theta_def phi_def num_simps Let_def)

section \<open>Indices\<close>

lemma indexData_bound:
  assumes "k \<in> set (indexData lat long)"
  shows "k < (lat + 1) * (long + 1)"
proof -
  from assms obtain i j where "i < lat" "j < long" and k: "k \<in> set (quad_indices long i j)"
    by (auto simp: indexData_def)
  then have "k = grid_index long i j \<or> k = grid_index long (i + 1) j \<or>
      k = grid_index long i (j + 1) \<or> k = grid_index long (i + 1) (j + 1)"
    by (auto simp: quad_indices_def grid_index_def Let_def)
  moreover have "grid_index long i' j' < (lat + 1) * (long + 1)" if "i' \<le> i + 1" "j' \<le> j + 1" for i' j'
    using that \<open>i < lat\<close> \<open>j < long\<close> by (intro grid_index_bound) auto
  ultimately show ?thesis by (metis add.commute le_add1 le_add2 order_refl)
qed

lemma indexData_length: "length (indexData lat long) = lat * long * 4"
  unfolding indexData_def
  by (subst length_concat_const [where k = 4])
    (auto simp: quad_indices_def Let_def length_concat sum_list_triv comp_def)

lemma uint16_roundtrip:
  assumes "\<And>k. k \<in> set xs \<Longrightarrow> k < 2 ^ 16"
  shows "map unat (map (word_of_nat :: nat \<Rightarrow> 16 word) xs) = xs"
  using assms by (induction xs) (auto simp: unat_of_nat)

lemma indexData_nth:
  assumes "i < lat" and "j < long" and "m < 4"
  shows "indexData lat long ! ((i * long + j) * 4 + m) = quad_indices long i j ! m"
proof -
  let ?q = "[(i, j). i \<leftarrow> [0..<lat], j \<leftarrow> [0..<long]]"
  have q: "?q ! (i * long + j) = (i, j)"
  proof -
    have "concat (map (\<lambda>i. map (\<lambda>j. (i, j)) [0..<long]) [0..<lat]) ! (i * long + j) =
        map (\<lambda>j. ([0..<lat] ! i, j)) [0..<long] ! j"
      using assms by (intro nth_concat_const) auto
    with assms show ?thesis by simp
  qed
  have "i * long + j < (i + 1) * long" using assms(2) by simp
  also have "\<dots> \<le> lat * long" using assms(1) by (intro mult_le_mono1) simp
  finally have "i * long + j < length ?q" by (simp add: length_concat sum_list_triv comp_def)
  then have "concat (map (\<lambda>(i, j). quad_indices long i j) ?q) ! ((i * long + j) * 4 + m) =
      (case ?q ! (i * long + j) of (i, j) \<Rightarrow> quad_indices long i j) ! m"
    using assms(3) by (intro nth_concat_const) (auto simp: quad_indices_def Let_def)
  then show ?thesis by (simp add: indexData_def q)
qed

section \<open>The triangle strip\<close>

text \<open>
  WebGL decomposes a strip into the triangles of three consecutive indices; in every second one
  the first two corners are exchanged, so that all keep the orientation of the first.
\<close>

definition strip_triangle :: "nat list \<Rightarrow> nat \<Rightarrow> nat \<times> nat \<times> nat" where
  "strip_triangle idx k =
     (if even k then (idx ! k, idx ! (k + 1), idx ! (k + 2))
      else (idx ! (k + 1), idx ! k, idx ! (k + 2)))"

definition strip_triangles :: "nat list \<Rightarrow> (nat \<times> nat \<times> nat) list" where
  "strip_triangles idx = map (strip_triangle idx) [0..<length idx - 2]"

fun not_negative :: "number \<Rightarrow> bool" where
  "not_negative (Fin x) \<longleftrightarrow> 0 \<le> x"
| "not_negative PosInf = True"
| "not_negative _ = False"

text \<open>A triangle of the strip that does not face the centre; it may be degenerate.\<close>

definition faces_out :: "(nat \<Rightarrow> number list) \<Rightarrow> nat \<times> nat \<times> nat \<Rightarrow> bool" where
  "faces_out v t = (case t of (a, b, c) \<Rightarrow> not_negative (triple_product (v a) (v b) (v c)))"

text \<open>The position of a grid point over the reals.\<close>

definition grid_position :: "nat \<Rightarrow> nat \<Rightarrow> real \<Rightarrow> nat \<Rightarrow> nat \<Rightarrow> number list" where
  "grid_position lat long r i j = [Fin (r * (sin (theta lat i) * sin (phi long j))),
     Fin (r * cos (theta lat i)), Fin (r * (sin (theta lat i) * cos (phi long j)))]"

lemma fetch_position:
  assumes "i \<le> lat" and "j \<le> long" and "0 < lat" and "0 < long"
  shows "fetch (3, vertexPositionData lat long (Fin r)) (grid_index long i j) =
    grid_position lat long r i j"
  unfolding fetch_grid(1) [OF assms(1,2)] using assms(3,4)
  by (simp add: grid_normal_values grid_position_def)

lemma triple_same: "triple_product (map Fin [a, b, c]) (map Fin [a, b, c]) (map Fin [x, y, z]) = 0"
  "triple_product (map Fin [x, y, z]) (map Fin [a, b, c]) (map Fin [a, b, c]) = 0"
  "triple_product (map Fin [a, b, c]) (map Fin [x, y, z]) (map Fin [a, b, c]) = 0"
  by (simp_all add: triple_product_def num_simps algebra_simps)

lemma grid_triple_same:
  "triple_product (grid_position lat long r i j) (grid_position lat long r i j) (grid_position lat long r i' j') = 0"
  "triple_product (grid_position lat long r i' j') (grid_position lat long r i j) (grid_position lat long r i j) = 0"
  "triple_product (grid_position lat long r i j) (grid_position lat long r i' j') (grid_position lat long r i j) = 0"
  using triple_same by (simp_all add: grid_position_def)

lemma grid_triple_upper:
  "triple_product (grid_position lat long r i j) (grid_position lat long r i' j) (grid_position lat long r i j') =
    Fin (r ^ 3 * sin (theta lat i) * sin (theta lat i' - theta lat i) * sin (phi long j' - phi long j))"
  by (simp add: triple_product_def grid_position_def num_simps sin_diff power3_eq_cube algebra_simps)

lemma grid_triple_lower:
  "triple_product (grid_position lat long r i j') (grid_position lat long r i' j) (grid_position lat long r i' j') =
    Fin (r ^ 3 * sin (theta lat i') * sin (theta lat i' - theta lat i) * sin (phi long j' - phi long j))"
  by (simp add: triple_product_def grid_position_def num_simps sin_diff power3_eq_cube algebra_simps)

lemma grid_seam:
  assumes "0 < long"
  shows "grid_position lat long r i long = grid_position lat long r i 0"
  using assms by (simp add: grid_position_def phi_def)

lemma grid_angle_signs:
  assumes "i \<le> lat" and "0 < lat" and "2 \<le> long"
  shows "0 \<le> sin (theta lat i)" and "0 \<le> sin (theta lat (i + 1) - theta lat i)"
    and "0 \<le> sin (phi long (j + 1) - phi long j)"
proof -
  have "real i * pi \<le> real lat * pi" using assms(1) by simp
  then have "theta lat i \<le> pi" using assms(2) by (simp add: theta_def field_simps)
  then show "0 \<le> sin (theta lat i)" by (intro sin_ge_zero) (simp_all add: theta_def)
  have "theta lat (i + 1) - theta lat i = pi / real lat"
    by (simp add: theta_def add_divide_distrib distrib_right)
  moreover have "pi / real lat \<le> pi" using assms(2) by (simp add: field_simps)
  ultimately show "0 \<le> sin (theta lat (i + 1) - theta lat i)" by (intro sin_ge_zero) simp_all
  have "phi long (j + 1) - phi long j = 2 * pi / real long"
    by (simp add: phi_def diff_divide_distrib [symmetric] algebra_simps)
  moreover have "2 * pi / real long \<le> pi" using assms(3) by (simp add: field_simps)
  ultimately show "0 \<le> sin (phi long (j + 1) - phi long j)" by (intro sin_ge_zero) simp_all
qed

text \<open>The corners of the four triangles that start in a quad.\<close>

lemma indexData_quad:
  assumes "i < lat" and "j < long"
  defines "q \<equiv> (i * long + j) * 4"
  shows "indexData lat long ! q = grid_index long i j"
    and "indexData lat long ! (q + 1) = grid_index long (i + 1) j"
    and "indexData lat long ! (q + 2) = grid_index long i (j + 1)"
    and "indexData lat long ! (q + 3) = grid_index long (i + 1) (j + 1)"
  unfolding q_def
  using indexData_nth [OF assms(1,2), of 0] indexData_nth [OF assms(1,2), of 1]
    indexData_nth [OF assms(1,2), of 2] indexData_nth [OF assms(1,2), of 3]
  by (simp_all add: quad_indices_def grid_index_def Let_def)

lemma next_quad:
  fixes i :: nat
  assumes "i < lat" and "j < long" and "(i * long + j) * 4 + 4 < lat * long * 4"
  obtains i' j' where "i' < lat" and "j' < long" and "(i * long + j) * 4 + 4 = (i' * long + j') * 4"
    and "i' = i \<and> j' = j + 1 \<or> i' = i + 1 \<and> j' = 0 \<and> j + 1 = long"
proof (cases "j + 1 < long")
  case True
  show ?thesis by (rule that [of i "j + 1"]) (use assms True in auto)
next
  case False
  with assms(2) have j: "j + 1 = long" by simp
  then have e: "(i * long + j) * 4 + 4 = ((i + 1) * long + 0) * 4" by (auto simp: algebra_simps)
  with assms(3) have "(i + 1) * (long * 4) < lat * (long * 4)" by (simp add: mult.assoc)
  then have "i + 1 < lat" unfolding mult_less_cancel2 by blast
  with e j assms(2) show ?thesis by (intro that [of "i + 1" 0]) auto
qed

lemma strip_triangle_faces_out:
  assumes lat: "0 < lat" and long: "2 \<le> long" and r: "0 \<le> r"
    and k: "k + 2 < lat * long * 4"
  shows "faces_out (fetch (3, vertexPositionData lat long (Fin r)))
    (strip_triangle (indexData lat long) k)"
proof -
  let ?v = "fetch (3, vertexPositionData lat long (Fin r))" and ?idx = "indexData lat long"
  define i j m q where "i = k div 4 div long" and "j = k div 4 mod long" and "m = k mod 4"
    and q_def: "q = (i * long + j) * 4"
  have k_eq: "k = q + m" and j: "j < long" and m: "m < 4"
    using long by (simp_all add: i_def j_def m_def q_def)
  have q: "even q" "odd (Suc q)" "even (Suc (Suc q))" "odd (Suc (Suc (Suc q)))"
    by (simp_all add: q_def)
  have i: "i < lat"
  proof -
    have "k div 4 < lat * long" using k by (simp add: less_mult_imp_div_less)
    then show ?thesis unfolding i_def by (simp add: less_mult_imp_div_less)
  qed
  note quad = indexData_quad [OF i j, folded q_def]
  have pos: "?v (grid_index long i' j') = grid_position lat long r i' j'" if "i' \<le> lat" "j' \<le> long" for i' j'
    using fetch_position that lat long by simp
  have signs: "0 \<le> r ^ 3 * sin (theta lat i') * sin (theta lat (i + 1) - theta lat i) *
      sin (phi long (j + 1) - phi long j)" if "i' \<le> lat" for i'
    using grid_angle_signs [OF _ lat long] that i r by (simp add: less_imp_le)
  consider "m = 0" | "m = 1" | "m = 2" | "m = 3" using m by linarith
  then show ?thesis
  proof cases
    case 1
    with k_eq have "strip_triangle ?idx k =
        (grid_index long i j, grid_index long (i + 1) j, grid_index long i (j + 1))"
      using quad q by (simp add: strip_triangle_def numeral_eq_Suc)
    with signs [of i] i j show ?thesis
      by (simp add: faces_out_def pos grid_triple_upper)
  next
    case 2
    with k_eq have "strip_triangle ?idx k =
        (grid_index long i (j + 1), grid_index long (i + 1) j, grid_index long (i + 1) (j + 1))"
      using quad q by (simp add: strip_triangle_def numeral_eq_Suc)
    with signs [of "i + 1"] i j show ?thesis
      by (simp add: faces_out_def pos grid_triple_lower)
  next
    case 3
    with k k_eq obtain i' j' where n: "i' < lat" "j' < long" "(i * long + j) * 4 + 4 = (i' * long + j') * 4"
      "i' = i \<and> j' = j + 1 \<or> i' = i + 1 \<and> j' = 0 \<and> j + 1 = long"
      using next_quad [OF i j] by (auto simp: q_def)
    from 3 k_eq have "strip_triangle ?idx k =
        (grid_index long i (j + 1), grid_index long (i + 1) (j + 1), grid_index long i' j')"
      using quad q indexData_quad(1) [OF n(1,2), folded n(3) q_def]
      by (simp add: strip_triangle_def numeral_eq_Suc)
    moreover have "grid_position lat long r i' j' = grid_position lat long r i (j + 1) \<or>
        grid_position lat long r i' j' = grid_position lat long r (i + 1) (j + 1)"
      using n(4) grid_seam [of long lat r "i + 1"] long by auto
    ultimately show ?thesis
      using i j n(1,2) by (auto simp: faces_out_def pos grid_triple_same zero_number_def)
  next
    case 4
    with k k_eq obtain i' j' where n: "i' < lat" "j' < long" "(i * long + j) * 4 + 4 = (i' * long + j') * 4"
      "i' = i \<and> j' = j + 1 \<or> i' = i + 1 \<and> j' = 0 \<and> j + 1 = long"
      using next_quad [OF i j] by (auto simp: q_def)
    from 4 k_eq have "strip_triangle ?idx k =
        (grid_index long i' j', grid_index long (i + 1) (j + 1), grid_index long (i' + 1) j')"
      using quad q indexData_quad(1,2) [OF n(1,2), folded n(3) q_def]
      by (simp add: strip_triangle_def numeral_eq_Suc)
    moreover have "grid_position lat long r (i + 1) (j + 1) = grid_position lat long r (i' + 1) j' \<or>
        grid_position lat long r (i + 1) (j + 1) = grid_position lat long r i' j'"
      using n(4) grid_seam [of long lat r "i + 1"] long by auto
    ultimately show ?thesis
      using i j n(1,2) by (auto simp: faces_out_def pos grid_triple_same zero_number_def)
  qed
qed

lemma strip_triangles_face_out:
  assumes "0 < lat" and "2 \<le> long" and "0 \<le> r"
  shows "list_all (faces_out (fetch (3, vertexPositionData lat long (Fin r))))
    (strip_triangles (indexData lat long))"
  using assms strip_triangle_faces_out
  by (simp add: strip_triangles_def list_all_iff indexData_length less_diff_conv)

text \<open>
  The first two triangles of a quad are the two halves of the quad, and away from the poles (where
  all points of a row of the grid coincide) they face outward strictly, so that they are not
  degenerate.
\<close>

definition quad_shown :: "nat \<Rightarrow> nat \<Rightarrow> (nat \<Rightarrow> number list) \<Rightarrow> nat list \<Rightarrow> nat \<Rightarrow> nat \<Rightarrow> bool" where
  "quad_shown lat long v idx i j \<longleftrightarrow> (let q = (i * long + j) * 4 in
     strip_triangle idx q = (grid_index long i j, grid_index long (i + 1) j, grid_index long i (j + 1)) \<and>
     strip_triangle idx (q + 1) =
       (grid_index long i (j + 1), grid_index long (i + 1) j, grid_index long (i + 1) (j + 1)) \<and>
     (0 < i \<longrightarrow> strictly_out v (strip_triangle idx q)) \<and>
     (i + 1 < lat \<longrightarrow> strictly_out v (strip_triangle idx (q + 1))))"

lemma grid_angles_positive:
  assumes "2 \<le> lat" and "3 \<le> long"
  shows "0 < i \<Longrightarrow> i < lat \<Longrightarrow> 0 < sin (theta lat i)" and "0 < sin (theta lat (i + 1) - theta lat i)"
    and "0 < sin (phi long (j + 1) - phi long j)"
proof -
  show "0 < sin (theta lat i)" if "0 < i" "i < lat"
  proof -
    have "real i * pi < real lat * pi" using that(2) by simp
    then have "theta lat i < pi" using assms(1) by (simp add: theta_def field_simps)
    moreover have "0 < theta lat i" using that(1) assms(1) by (simp add: theta_def)
    ultimately show ?thesis by (simp add: sin_gt_zero)
  qed
  have "theta lat (i + 1) - theta lat i = pi / real lat"
    by (simp add: theta_def add_divide_distrib distrib_right)
  moreover have "pi / real lat < pi" using assms(1) by (simp add: field_simps)
  ultimately show "0 < sin (theta lat (i + 1) - theta lat i)" using assms(1) by (simp add: sin_gt_zero)
  have "phi long (j + 1) - phi long j = 2 * pi / real long"
    by (simp add: phi_def diff_divide_distrib [symmetric] algebra_simps)
  moreover have "2 * pi / real long < pi" using assms(2) by (simp add: field_simps)
  ultimately show "0 < sin (phi long (j + 1) - phi long j)" using assms(2) by (simp add: sin_gt_zero)
qed

lemma indexData_quads_shown:
  assumes lat: "2 \<le> lat" and long: "3 \<le> long" and r: "0 < r" and i: "i < lat" and j: "j < long"
  shows "quad_shown lat long (fetch (3, vertexPositionData lat long (Fin r))) (indexData lat long) i j"
proof -
  let ?v = "fetch (3, vertexPositionData lat long (Fin r))" and ?idx = "indexData lat long"
  define q where q_def: "q = (i * long + j) * 4"
  have q: "even q" "odd (Suc q)" by (simp_all add: q_def)
  note quad = indexData_quad [OF i j, folded q_def]
  have pos: "?v (grid_index long i' j') = grid_position lat long r i' j'" if "i' \<le> lat" "j' \<le> long" for i' j'
    using fetch_position that lat long by simp
  note signs = grid_angles_positive [OF lat long]
  have upper: "strip_triangle ?idx q = (grid_index long i j, grid_index long (i + 1) j, grid_index long i (j + 1))"
    using quad q by (simp add: strip_triangle_def numeral_eq_Suc)
  have lower: "strip_triangle ?idx (q + 1) =
      (grid_index long i (j + 1), grid_index long (i + 1) j, grid_index long (i + 1) (j + 1))"
    using quad q by (simp add: strip_triangle_def numeral_eq_Suc)
  have "strictly_out ?v (strip_triangle ?idx q)" if "0 < i"
    unfolding upper using signs(1) [OF that i] signs(2) [of i] signs(3) [of j] r i j
    by (simp add: strictly_out_def pos grid_triple_upper)
  moreover have "strictly_out ?v (strip_triangle ?idx (q + 1))" if "i + 1 < lat"
    unfolding lower using signs(1) [OF _ that] signs(2) [of i] signs(3) [of j] r i j
    by (simp add: strictly_out_def pos grid_triple_lower)
  ultimately show ?thesis unfolding quad_shown_def Let_def q_def [symmetric] using upper lower by simp
qed

section \<open>Drawing the sphere\<close>

definition sphere_good :: "webgl_start \<Rightarrow> sphere \<Rightarrow> gl_state \<Rightarrow> bool" where
  "sphere_good ws sp s \<longleftrightarrow>
     buffers s (sp_vertexPositionBuffer sp) = Some (Floats (sp_vertexPositionData sp)) \<and>
     buffers s (sp_normalPositionBuffer sp) = Some (Floats (sp_normalPositionData sp)) \<and>
     buffers s (sp_texCoordBuffer sp) = Some (Floats (sp_texData sp)) \<and>
     buffers s (sp_indexBuffer sp) = Some (uint16Array (sp_indexData sp)) \<and>
     list_all (\<lambda>h. h < fresh s) [sp_vertexPositionBuffer sp, sp_normalPositionBuffer sp,
       sp_texCoordBuffer sp, sp_indexBuffer sp] \<and>
     list_all (\<lambda>k. k < 2 ^ 16 \<and> (k + 1) * 3 \<le> length (sp_vertexPositionData sp) \<and>
       (k + 1) * 3 \<le> length (sp_normalPositionData sp) \<and> (k + 1) * 2 \<le> length (sp_texData sp))
       (sp_indexData sp)"

lemma sphere_good_ext: "gl_ext s s' \<Longrightarrow> sphere_good ws sp s \<Longrightarrow> sphere_good ws sp s'"
  by (auto simp: sphere_good_def gl_ext_def)

definition draws_sphere :: "webgl_start \<Rightarrow> gl_state \<Rightarrow> sphere \<Rightarrow> draw_call \<Rightarrow> bool" where
  "draws_sphere ws s sp d \<longleftrightarrow> d_mode d = TRIANGLE_STRIP \<and> d_indices d = sp_indexData sp \<and>
     d_uniforms d = uniforms s \<and> d_texture d = bound_texture s 0 \<and>
     d_sources d (vertexPositionAttribute ws) = Some (3, sp_vertexPositionData sp) \<and>
     d_sources d (normalPositionAttribute ws) = Some (3, sp_normalPositionData sp) \<and>
     d_sources d (texCoordAttribute ws) = Some (2, sp_texData sp)"

lemma gl_ext_drawElements [intro]: "gl_ext s (drawElements m n s)"
  by (simp add: gl_ext_def gl_frame)
    (simp add: drawElements_def draw_indices_def gl_fail_def split: option.split buf_data.split)

lemma sphere_draw_draws:
  assumes r: "page_ready P ws w" and g: "sphere_good ws sp (gl w)"
  shows "\<exists>w' d. sphere_draw P sp w = Inr w' \<and> page_grows w w' \<and>
    gl_errors (gl w') = gl_errors (gl w) \<and> scene_state (gl w') = scene_state (gl w) \<and>
    fresh (gl w') = fresh (gl w) \<and> trace (gl w') = trace (gl w) @ [Draw d] \<and>
    draws_sphere ws (gl w) sp d"
proof -
  let ?s = "gl w"
  let ?s1 = "point_at (vertexPositionAttribute ws) 3 (sp_vertexPositionBuffer sp) ?s"
  let ?s2 = "point_at (normalPositionAttribute ws) 3 (sp_normalPositionBuffer sp) ?s1"
  let ?s3 = "point_at (texCoordAttribute ws) 2 (sp_texCoordBuffer sp) ?s2"
  let ?s4 = "bindBuffer ELEMENT_ARRAY_BUFFER (Some (sp_indexBuffer sp)) ?s3"
  have loc: "locations_ok ws" using r by (rule page_ready_locations)
  then have pos: "0 \<le> vertexPositionAttribute ws" "0 \<le> normalPositionAttribute ws" "0 \<le> texCoordAttribute ws"
    and dist: "vertexPositionAttribute ws \<noteq> normalPositionAttribute ws"
      "vertexPositionAttribute ws \<noteq> texCoordAttribute ws" "normalPositionAttribute ws \<noteq> texCoordAttribute ws"
    by (simp_all add: locations_ok_def)
  have e4: "gl_ext ?s ?s4" by (meson gl_ext_point gl_ext_calls gl_ext_trans)
  have ready4: "gl_ready P ws ?s4" using r e4 gl_ext_ready by (auto simp: page_ready_def)
  have en: "enabled ?s1 = enabled ?s" "enabled ?s2 = enabled ?s" "enabled ?s3 = enabled ?s" "enabled ?s4 = enabled ?s"
    using point_at_simps(5) by (simp_all add: pipeline_def)
  have mem: "set (enabled ?s) = {vertexPositionAttribute ws, normalPositionAttribute ws, texCoordAttribute ws}"
    using r by (simp add: page_ready_def gl_ready_def)
  have src4: "source_of ?s4 k = source_of ?s3 k" for k by (simp add: source_of_def split: option.split buf_data.split)
  have src: "source_of ?s4 k = (if k = texCoordAttribute ws then Some (2, sp_texData sp)
      else if k = normalPositionAttribute ws then Some (3, sp_normalPositionData sp)
      else if k = vertexPositionAttribute ws then Some (3, sp_vertexPositionData sp) else source_of ?s k)" for k
    unfolding src4 using g pos mem en by (simp add: sphere_good_def source_of_point_at)
  have allowed: "draw_allowed ?s4 (sp_indexData sp)"
    using ready4 g src dist mem en(4)
    by (auto simp: draw_allowed_def covers_def list_all_iff sphere_good_def gl_ready_def)
  have u16: "map unat (map (word_of_nat :: nat \<Rightarrow> 16 word) (sp_indexData sp)) = sp_indexData sp"
    using g by (intro uint16_roundtrip) (simp add: sphere_good_def list_all_iff)
  have draw: "drawElements TRIANGLE_STRIP (length (sp_indexData sp)) ?s4 =
      draw_indices TRIANGLE_STRIP (sp_indexData sp) ?s4"
    using g u16 by (simp add: drawElements_def sphere_good_def uint16Array_def)
  let ?s5 = "draw_indices TRIANGLE_STRIP (sp_indexData sp) ?s4"
  have "sphere_draw P sp w = Inr (w\<lparr>gl := ?s5\<rparr>)"
    using page_ready_getInstance [OF r] draw
    by (simp add: sphere_draw_def sphere_bindBuffers_def on_gl_def Let_def)
  moreover have "page_grows w (w\<lparr>gl := ?s5\<rparr>)"
    using e4 by (intro page_grows_gl) (meson gl_ext_calls gl_ext_trans)
  moreover have sc: "scene_state ?s4 = scene_state ?s" by (simp add: gl_frame del: bindBuffer.simps)
  moreover have "gl_errors ?s4 = gl_errors ?s" "trace ?s4 = trace ?s" "fresh ?s4 = fresh ?s"
    using pos by (simp_all add: gl_frame del: bindBuffer.simps)
  moreover have "uniforms ?s4 = uniforms ?s" "bound_texture ?s4 = bound_texture ?s"
    using sc by (simp_all add: scene_state_def del: bindBuffer.simps)
  moreover have "?s5 = ?s4\<lparr>trace := trace ?s4 @ [Draw (draw_now ?s4 TRIANGLE_STRIP (sp_indexData sp))]\<rparr>"
    using allowed by (simp add: draw_indices_def)
  moreover have "scene_state (?s4\<lparr>trace := es\<rparr>) = scene_state ?s4" for es by (simp add: scene_state_def)
  ultimately show ?thesis
    using src dist
    by (simp add: draw_now_def draws_sphere_def del: bindBuffer.simps)
qed

interpretation sphere: drawable "page_ready P ws" "\<lambda>sp w. sphere_good ws sp (gl w)"
  "\<lambda>sp w. andThen (sphere_draw P sp w) (\<lambda>w'. Inr (sp, w'))"
  "\<lambda>w. fresh (gl w)" "\<lambda>w. gl_errors (gl w)" 0 for P ws
proof
  fix w :: "'b page_scheme" and sp
  assume r: "page_ready P ws w" and g: "sphere_good ws sp (gl w)"
  from sphere_draw_draws [OF r g] obtain w' where
    d: "sphere_draw P sp w = Inr w'" "page_grows w w'" "gl_errors (gl w') = gl_errors (gl w)"
      "fresh (gl w') = fresh (gl w)"
    by blast
  have "sphere_good ws sp (gl w')" using d(2) g sphere_good_ext by (auto simp: page_grows_def)
  then show "\<exists>sp' w'. andThen (sphere_draw P sp w) (\<lambda>w'. Inr (sp, w')) = Inr (sp', w') \<and>
      page_ready P ws w' \<and> sphere_good ws sp' (gl w') \<and> fresh (gl w') = fresh (gl w) + 0 \<and>
      gl_errors (gl w') = gl_errors (gl w)"
    using d page_grows_ready [OF d(2) r] by auto
qed

lemma new_sphere_good:
  assumes r: "page_ready P ws w"
  shows "\<exists>sp w'. new_sphere P radius w = Inr (sp, w') \<and> page_grows w w' \<and> sphere_good ws sp (gl w') \<and>
    sp_vertexPositionData sp = vertexPositionData latitudeBands longitudeBands radius \<and>
    sp_normalPositionData sp = normalPositionData latitudeBands longitudeBands \<and>
    sp_texData sp = sphere_texData latitudeBands longitudeBands \<and>
    sp_indexData sp = indexData latitudeBands longitudeBands \<and> sp_height sp = 2 * radius \<and>
    fresh (gl w') = fresh (gl w) + 4 \<and> gl_errors (gl w') = gl_errors (gl w) \<and>
    trace (gl w') = trace (gl w) \<and> scene_state (gl w') = scene_state (gl w)"
proof -
  let ?s = "gl w" and ?b = latitudeBands and ?l = longitudeBands
  let ?n = "fresh ?s"
  let ?s1 = "fill_buffer ARRAY_BUFFER ?n (Floats (vertexPositionData ?b ?l radius)) (snd (createBuffer ?s))"
  let ?s2 = "fill_buffer ELEMENT_ARRAY_BUFFER (?n + 1) (uint16Array (indexData ?b ?l)) (snd (createBuffer ?s1))"
  let ?s3 = "fill_buffer ARRAY_BUFFER (?n + 2) (Floats (normalPositionData ?b ?l)) (snd (createBuffer ?s2))"
  let ?s4 = "fill_buffer ARRAY_BUFFER (?n + 3) (Floats (sphere_texData ?b ?l)) (snd (createBuffer ?s3))"
  let ?sp = "\<lparr>sp_height = 2 * radius, sp_vertexPositionData = vertexPositionData ?b ?l radius,
      sp_normalPositionData = normalPositionData ?b ?l, sp_indexData = indexData ?b ?l,
      sp_texData = sphere_texData ?b ?l, sp_vertexPositionBuffer = ?n, sp_normalPositionBuffer = ?n + 2,
      sp_indexBuffer = ?n + 1, sp_texCoordBuffer = ?n + 3\<rparr>"
  have eq: "new_sphere P radius w = Inr (?sp, w\<lparr>gl := ?s4\<rparr>)"
    using page_ready_getInstance [OF r]
    by (simp add: new_sphere_def sphere_initBuffers_def new_on_gl_def on_gl_def case_prod_beta
        numeral_3_eq_3)
  have e1: "gl_ext ?s ?s1" by (intro gl_ext_fill) auto
  have e2: "gl_ext ?s ?s2" by (intro gl_ext_fill) (use e1 gl_ext_trans in auto)
  have e3: "gl_ext ?s ?s3" by (intro gl_ext_fill) (use e2 gl_ext_trans in auto)
  have e4: "gl_ext ?s ?s4" by (intro gl_ext_fill) (use e3 gl_ext_trans in auto)
  have "k < 101 * 101" if "k \<in> set (indexData ?b ?l)" for k
    using indexData_bound [OF that] by (simp add: latitudeBands_def longitudeBands_def)
  then have "k < 65536 \<and> k \<le> 10200" if "k \<in> set (indexData ?b ?l)" for k
    using that by fastforce
  then have "sphere_good ws ?sp ?s4"
    by (auto simp: sphere_good_def list_all_iff grid_data_length latitudeBands_def longitudeBands_def)
  then show ?thesis
    using eq page_grows_gl [OF e4] by (auto simp: gl_frame)
qed

end
