(* ===== verification/RefPlatform.thy ===== *)
theory RefPlatform
  imports Sphere
begin

text \<open>
  A platform on which everything works, with the reference implementation of gl-matrix, and the
  page as the singleton leaves it there: the concrete inputs at which the properties are applied.
\<close>

definition ref_location :: "string \<Rightarrow> int" where
  "ref_location name = (if name = ''aVertexPosition'' then 0
     else if name = ''aNormalPosition'' then 1 else 2)"

definition ref_platform :: platform where
  "ref_platform = glm.extend ref_glm (platform.fields True True True ref_location (\<lambda>_. True) 800 600)"

lemma ref_platform_glm:
  "glm.truncate ref_platform = glm.truncate ref_glm"
  by (simp add: ref_platform_def glm.defs platform.defs)

lemma ref_platform_simps [simp]:
  "canvas_present ref_platform" "webgl_present ref_platform" "shaders_link ref_platform"
  "attrib_location ref_platform = ref_location" "uniform_active ref_platform x"
  "inner_width ref_platform = 800" "inner_height ref_platform = 600"
  by (simp_all add: ref_platform_def glm.defs platform.defs)

lemma ref_platform_calls:
  "mat4_create ref_platform = mat4_create ref_glm" "mat4_clone ref_platform = mat4_clone ref_glm"
  "mat4_mul ref_platform = mat4_mul ref_glm" "mat4_mul_cast ref_platform = mat4_mul_cast ref_glm"
  "mat4_translate ref_platform = mat4_translate ref_glm" "mat4_rotateX ref_platform = mat4_rotateX ref_glm"
  "mat4_rotateY ref_platform = mat4_rotateY ref_glm" "mat4_rotateZ ref_platform = mat4_rotateZ ref_glm"
  "mat4_perspective ref_platform = mat4_perspective ref_glm" "mat4_invert ref_platform = mat4_invert ref_glm"
  "mat3_normalFromMat4 ref_platform = mat3_normalFromMat4 ref_glm"
  "vec3_fromValues ref_platform = vec3_fromValues ref_glm" "vec3_set ref_platform = vec3_set ref_glm"
  "vec3_sub ref_platform = vec3_sub ref_glm" "vec3_cross ref_platform = vec3_cross ref_glm"
  "vec4_fromValues ref_platform = vec4_fromValues ref_glm" "vec4_set ref_platform = vec4_set ref_glm"
  "vec4_clone ref_platform = vec4_clone ref_glm"
  by (simp_all add: ref_platform_def glm.defs)

interpretation refp: gl_matrix ref_platform affine_ok
proof
qed (simp_all only: ref_platform_calls ref.create_ok ref.mul_ok ref.translate_ok ref.rotateX_ok
    ref.rotateY_ok ref.rotateZ_ok ref.clone_eq ref.mul_create ref.translate_add ref.translate_0
    ref.rotateX_0 ref.rotateX_add ref.rotateY_add ref.rotateY_0 ref.rotateY_turn ref.rotateZ_0 ref.rotateZ_add
    ref.vec3_values ref.vec3_set_values ref.vec4_values ref.vec4_set_values
    ref.vec4_clone_eq ref.mul_cast_eq ref.sub_eq ref.cross_eq
    ref.invert_some ref.normal_some not_False_eq_True)

interpretation refp_nan: gl_matrix_nan ref_platform affine_ok ref_lost
proof
qed (simp_all only: ref_platform_calls ref_nan.rotateX_nan ref_nan.translate_lost ref_nan.rotateX_lost
    ref_nan.rotateY_lost ref_nan.rotateZ_lost ref_nan.invert_lost)

lemma ref_platform_ok: "platform_ok ref_platform"
  by (simp add: platform_ok_def used_uniforms_def ref_location_def)

text \<open>The page after the first use of the singleton, and the singleton.\<close>

definition ref_start :: "webgl_start \<times> page" where
  "ref_start = (case getInstance ref_platform page_init of Inr r \<Rightarrow> r | Inl _ \<Rightarrow> (undefined, page_init))"

abbreviation ref_ws :: webgl_start where "ref_ws \<equiv> fst ref_start"

abbreviation ref_page :: page where "ref_page \<equiv> snd ref_start"

lemma page_init_simps: "webgl_instance page_init = None" "enabled (gl page_init) = []"
  by (simp_all add: page_init_def gl_init_def)

lemma ref_start_getInstance: "getInstance ref_platform page_init = Inr ref_start"
proof -
  obtain ws w' where "getInstance ref_platform page_init = Inr (ws, w')"
    using ref_platform_ok page_init_simps by (rule getInstance_first)
  then show ?thesis by (simp add: ref_start_def)
qed

lemma ref_page_ready: "page_ready ref_platform ref_ws ref_page"
proof -
  obtain ws w' where g: "getInstance ref_platform page_init = Inr (ws, w')"
      "gl_ready ref_platform ws (gl w')"
    using ref_platform_ok page_init_simps by (rule getInstance_first)
  then have "webgl_instance w' = Some ws" by (blast intro: webgl.get_stores)
  moreover have r: "ref_start = (ws, w')" using g(1) ref_start_getInstance by simp
  have "ref_ws = ws" "ref_page = w'" unfolding r by simp_all
  ultimately show ?thesis using g(2) by (simp only: page_ready_def ref_platform_ok)
qed

end
