(* ===== verification/Rendering.thy ===== *)
theory Rendering
  imports RefPlatform
begin

text \<open>
  What appears on the screen: the properties of the singleton, of the flat forms and of the sphere
  from the constructor to the recorded draw calls, each applied to the reference platform.
\<close>

section \<open>Start-up\<close>

text \<open>C18: once the singleton has been handed out, every later use hands out the same object and
  leaves the page alone, as long as nobody else assigns the static field.\<close>

theorem singleton_stable:
  fixes w v :: "'b page_scheme"
  assumes "getInstance P w = Inr (ws, w')" and "webgl_instance v = webgl_instance w'"
  shows "getInstance P v = Inr (ws, v)"
  using assms by (rule webgl.get_same)

theorem singleton_stable_witness:
  "getInstance ref_platform (ref_page\<lparr>gl := gl_init\<rparr>) = Inr (ref_ws, ref_page\<lparr>gl := gl_init\<rparr>)"
proof -
  have "getInstance ref_platform page_init = Inr (ref_ws, ref_page)"
    by (simp add: ref_start_getInstance)
  then show ?thesis by (rule singleton_stable) simp
qed

text \<open>C10: on a page without the singleton its first use sets the context up completely (program
  linked and in use, the three attributes enabled, depth test and culling on) with no alert and no
  WebGL error, when the browser has a canvas with WebGL and the shaders link.\<close>

theorem startup_ready:
  assumes "platform_ok P" and "webgl_instance w = None" and "enabled (gl w) = []"
  shows "\<exists>ws w'. getInstance P w = Inr (ws, w') \<and> gl_ready P ws (gl w') \<and>
    webgl_instance w' = Some ws \<and> alerts w' = alerts w \<and> gl_errors (gl w') = gl_errors (gl w)"
proof -
  obtain ws w' where "getInstance P w = Inr (ws, w')" "gl_ready P ws (gl w')"
      "alerts w' = alerts w" "gl_errors (gl w') = gl_errors (gl w)"
    using assms by (rule getInstance_first)
  moreover from this(1) have "webgl_instance w' = Some ws" by (rule webgl.get_stores)
  ultimately show ?thesis by blast
qed

theorem startup_ready_witness:
  "\<exists>ws w'. getInstance ref_platform page_init = Inr (ws, w') \<and> gl_ready ref_platform ws (gl w') \<and>
    webgl_instance w' = Some ws \<and> alerts w' = alerts page_init \<and>
    gl_errors (gl w') = gl_errors (gl page_init)"
  by (rule startup_ready [OF ref_platform_ok page_init_simps])

text \<open>C32: when the shaders do not link, the user sees one alert and the program goes on: the
  singleton is handed out with null locations, nothing is in use and ten WebGL calls have failed: the one that puts the program into
  use, the six that ask it for a location and the three that enable the location \<open>-1\<close>.\<close>

theorem startup_unlinked:
  assumes "canvas_present P" and "webgl_present P" and "\<not> shaders_link P"
    and "webgl_instance w = None"
  shows "\<exists>ws w'. getInstance P w = Inr (ws, w') \<and> alerts w' = Suc (alerts w) \<and>
    pMatrixUniform ws = None \<and> mMatrixUniform ws = None \<and> nMatrixUniform ws = None \<and>
    vertexPositionAttribute ws = - 1 \<and> enabled (gl w') = enabled (gl w) \<and>
    current_program (gl w') = current_program (gl w) \<and> gl_errors (gl w') = gl_errors (gl w) + 10"
  using getInstance_unlinked [OF assms] by metis

theorem startup_unlinked_witness:
  "\<exists>ws w'. getInstance (ref_platform\<lparr>shaders_link := False\<rparr>) page_init = Inr (ws, w') \<and>
    alerts w' = Suc (alerts page_init) \<and>
    pMatrixUniform ws = None \<and> mMatrixUniform ws = None \<and> nMatrixUniform ws = None \<and>
    vertexPositionAttribute ws = - 1 \<and> enabled (gl w') = enabled (gl page_init) \<and>
    current_program (gl w') = current_program (gl page_init) \<and>
    gl_errors (gl w') = gl_errors (gl page_init) + 10"
  by (rule startup_unlinked) (simp_all add: page_init_simps)

section \<open>The cube\<close>

text \<open>
  What one draw call shows of a triangle: the three vertices, in the order in which they are drawn,
  run counterclockwise seen from outside, and the normal of each points away from the centre.
\<close>

definition shows_outward :: "webgl_start \<Rightarrow> draw_call \<Rightarrow> bool" where
  "shows_outward ws d \<longleftrightarrow> d_mode d = TRIANGLES \<and> d_indices d = [0, 1, 2] \<and>
     (case (d_sources d (vertexPositionAttribute ws), d_sources d (normalPositionAttribute ws)) of
        (Some (k, v), Some (l, n)) \<Rightarrow> k = 3 \<and> l = 3 \<and> length v = 9 \<and> strictly_out (fetch (3, v)) (0, 1, 2) \<and> outward n v
      | _ \<Rightarrow> False)"

lemma draws_faces_outward:
  assumes "draws_faces ws s (faces_of sqs) ds"
    and "list_all (\<lambda>sq. length (triangles sq) = 2) sqs"
    and "list_all (\<lambda>t. length (t_vertices t) = 9 \<and> outward (t_normal t) (t_vertices t) \<and>
        strictly_out (fetch (3, t_vertices t)) (0, 1, 2))
      (concat (map triangles sqs))"
  shows "list_all (shows_outward ws) ds \<and> length ds = 2 * length sqs"
  using assms
proof (induction sqs arbitrary: ds)
  case Nil
  then show ?case by (simp add: draws_faces_def faces_of_def)
next
  case (Cons sq sqs)
  from Cons.prems(2) obtain a b where ab: "triangles sq = [a, b]"
    by (auto simp: length_Suc_conv numeral_2_eq_2)
  with Cons.prems(1) obtain d1 d2 ds' where ds: "ds = d1 # d2 # ds'"
    and "draws_triangle ws s a first_uv d1" "draws_triangle ws s b second_uv d2"
    and rest: "draws_faces ws s (faces_of sqs) ds'"
    by (auto simp: draws_faces_def faces_of_def list_all2_Cons1)
  with Cons.prems(3) ab have "shows_outward ws d1" "shows_outward ws d2"
    by (auto simp: shows_outward_def draws_triangle_def numeral_eq_Suc)
  with Cons.IH [OF rest] Cons.prems ds show ?case by simp
qed

lemma outward_transfer:
  assumes "list_all (\<lambda>(a, b, c). outward (triangle_normal P a b c) (triangle_vertices a b c) \<and>
      strictly_out (fetch (3, triangle_vertices a b c)) (0, 1, 2)) ts"
    and "map t_vertices us = map (\<lambda>(a, b, c). triangle_vertices a b c) ts"
    and "map t_normal us = map (\<lambda>(a, b, c). triangle_normal P a b c) ts"
  shows "list_all (\<lambda>t. outward (t_normal t) (t_vertices t) \<and> strictly_out (fetch (3, t_vertices t)) (0, 1, 2)) us"
  using assms
proof (induction us arbitrary: ts)
  case (Cons u us)
  then show ?case by (cases ts) (auto simp: split_beta)
qed simp

text \<open>C22: a frame of a cube with positive sides draws twelve triangles; the vertices uploaded for each run
  counterclockwise seen from outside, in the order in which they are drawn, so that face culling
  removes no outer face, and the normals uploaded with them point away from the centre.\<close>

theorem cube_draws_outward:
  assumes "gl_matrix P ok" and "page_ready P ws w" and "0 < x" and "0 < y" and "0 < z"
  shows "\<exists>c w1 c' w2 ds. new_cube_node P (Fin x) (Fin y) (Fin z) w = Inr (c, w1) \<and>
    cube_draw P c w1 = Inr (c', w2) \<and> trace (gl w2) = trace (gl w) @ map Draw ds \<and>
    length ds = 12 \<and> list_all (shows_outward ws) ds"
proof -
  let ?ts = "face_triangles (box_corners (vec3_fromValues P) (Fin x) (Fin y) (Fin z)) cube_faces"
  obtain c w1 where n: "new_cube_node P (Fin x) (Fin y) (Fin z) w = Inr (c, w1)" "page_grows w w1"
      "cube_good ws c (gl w1)" "trace (gl w1) = trace (gl w)"
      "map t_vertices (concat (map triangles (squares c))) = map (\<lambda>(a, b, c). triangle_vertices a b c) ?ts"
      "map t_normal (concat (map triangles (squares c))) = map (\<lambda>(a, b, c). triangle_normal P a b c) ?ts"
    using new_cube_node_good [OF assms(2)] by metis
  have r1: "page_ready P ws w1" using n(2) assms(2) by (rule page_grows_ready)
  obtain c' w2 ds where d: "cube_draw P c w1 = Inr (c', w2)"
      "trace (gl w2) = trace (gl w1) @ map Draw ds" "draws_faces ws (gl w1) (faces_of (squares c)) ds"
    using cube_draw_draws [OF r1 n(3)] by blast
  have "list_all (\<lambda>t. outward (t_normal t) (t_vertices t) \<and> strictly_out (fetch (3, t_vertices t)) (0, 1, 2))
      (concat (map triangles (squares c)))"
    using gl_matrix.cube_faces_outward [OF assms(1,3,4,5)] n(5,6)
    by (rule outward_transfer)
  moreover have "list_all (\<lambda>t. length (t_vertices t) = 9) (concat (map triangles (squares c)))"
      "list_all (\<lambda>sq. length (triangles sq) = 2) (squares c)" "length (squares c) = 6"
    using n(3) by (auto simp: cube_good_def square_good_def triangle_good_def list_all_iff)
  ultimately have "list_all (shows_outward ws) ds \<and> length ds = 12"
    using draws_faces_outward [OF d(3)] by (simp add: list_all_iff)
  then show ?thesis using n d by auto
qed

theorem cube_draws_outward_witness:
  "\<exists>c w1 c' w2 ds. new_cube_node ref_platform (Fin 1) (Fin 1) (Fin 1) ref_page = Inr (c, w1) \<and>
    cube_draw ref_platform c w1 = Inr (c', w2) \<and> trace (gl w2) = trace (gl ref_page) @ map Draw ds \<and>
    length ds = 12 \<and> list_all (shows_outward ref_ws) ds"
  by (rule cube_draws_outward [OF refp.gl_matrix_axioms ref_page_ready]) simp_all

text \<open>C39: drawing a cube \<open>n\<close> times never raises and causes no WebGL error, but every frame leaves
  twelve buffers behind: \<open>Square.draw\<close> makes a new texture buffer for each half and nothing ever
  deletes one.\<close>

theorem cube_frames:
  assumes "page_ready P ws w"
  shows "\<exists>c w1 c' w2. new_cube_node P x y z w = Inr (c, w1) \<and>
    redraw (cube_draw P) n c w1 = Inr (c', w2) \<and> page_ready P ws w2 \<and>
    fresh (gl w2) = fresh (gl w) + 31 + 12 * n \<and> gl_errors (gl w2) = gl_errors (gl w)"
proof -
  obtain c w1 where c: "new_cube_node P x y z w = Inr (c, w1)" "page_grows w w1"
      "cube_good ws c (gl w1)" "fresh (gl w1) = fresh (gl w) + 31" "gl_errors (gl w1) = gl_errors (gl w)"
    using new_cube_node_good [OF assms] by metis
  from cube.redraw_frames [OF page_grows_ready [OF c(2) assms] c(3), of n] c show ?thesis
    by (auto simp: mult.commute)
qed

theorem cube_frames_witness:
  "\<exists>c w1 c' w2. new_cube_node ref_platform 1 1 1 ref_page = Inr (c, w1) \<and>
    redraw (cube_draw ref_platform) 60 c w1 = Inr (c', w2) \<and> page_ready ref_platform ref_ws w2 \<and>
    fresh (gl w2) = fresh (gl ref_page) + 31 + 12 * 60 \<and> gl_errors (gl w2) = gl_errors (gl ref_page)"
  by (rule cube_frames [OF ref_page_ready])

section \<open>The sphere\<close>

text \<open>C21: every vertex of the sphere lies at distance \<open>|r|\<close> from its centre, its normal is the unit
  vector in the same direction, and its texture coordinates lie between 0 and 1.\<close>

theorem sphere_vertices:
  assumes "i \<le> lat" and "j \<le> long" and "0 < lat" and "0 < long"
  shows "\<exists>x y z u v. fetch (3, vertexPositionData lat long (Fin r)) (grid_index long i j) =
      [Fin (r * x), Fin (r * y), Fin (r * z)] \<and>
    fetch (3, normalPositionData lat long) (grid_index long i j) = [Fin x, Fin y, Fin z] \<and>
    fetch (2, sphere_texData lat long) (grid_index long i j) = [Fin u, Fin v] \<and>
    x\<^sup>2 + y\<^sup>2 + z\<^sup>2 = 1 \<and> 0 \<le> u \<and> u \<le> 1 \<and> 0 \<le> v \<and> v \<le> 1"
proof -
  let ?s = "sin (theta lat i)" and ?p = "phi long j"
  have "(?s * sin ?p)\<^sup>2 + (cos (theta lat i))\<^sup>2 + (?s * cos ?p)\<^sup>2 =
      ?s\<^sup>2 * ((sin ?p)\<^sup>2 + (cos ?p)\<^sup>2) + (cos (theta lat i))\<^sup>2"
    by (simp only: power_mult_distrib distrib_left add_ac)
  also have "\<dots> = 1" by (simp only: sin_cos_squared_add mult_1_right)
  finally have "(?s * sin ?p)\<^sup>2 + (cos (theta lat i))\<^sup>2 + (?s * cos ?p)\<^sup>2 = 1" .
  moreover have "real j / real long \<le> 1" "real i / real lat \<le> 1" using assms by (simp_all add: field_simps)
  ultimately show ?thesis
    unfolding fetch_grid [OF assms(1,2)] using assms(3,4)
    by (simp add: grid_normal_values del: sin_squared_eq)
qed

theorem sphere_vertices_witness:
  "\<exists>x y z u v. fetch (3, vertexPositionData 100 100 (Fin 4)) (grid_index 100 7 9) =
      [Fin (4 * x), Fin (4 * y), Fin (4 * z)] \<and>
    fetch (3, normalPositionData 100 100) (grid_index 100 7 9) = [Fin x, Fin y, Fin z] \<and>
    fetch (2, sphere_texData 100 100) (grid_index 100 7 9) = [Fin u, Fin v] \<and>
    x\<^sup>2 + y\<^sup>2 + z\<^sup>2 = 1 \<and> 0 \<le> u \<and> u \<le> 1 \<and> 0 \<le> v \<and> v \<le> 1"
  by (rule sphere_vertices) simp_all

text \<open>C12: drawing a new sphere records one triangle strip.  Its 40000 indices are those of the index
  list: each fits into the 16 bit of its entry in the buffer, and has its vertex (so that WebGL does
  not refuse the call).  Every quad of the grid is drawn as its two halves, and each of these faces
  outward strictly, except for the half that shrinks to a line at a pole; none of the triangles that
  join the quads, across the seams between the bands as well, faces the centre.\<close>

theorem sphere_draws_outward:
  assumes "page_ready P ws w" and "0 < r"
  shows "\<exists>sp w1 w2 d pos us. new_sphere P (Fin r) w = Inr (sp, w1) \<and> sphere_draw P sp w1 = Inr w2 \<and>
    trace (gl w2) = trace (gl w) @ [Draw d] \<and> gl_errors (gl w2) = gl_errors (gl w) \<and>
    d_mode d = TRIANGLE_STRIP \<and> length (d_indices d) = 40000 \<and>
    buffers (gl w1) (sp_indexBuffer sp) = Some (Shorts us) \<and> d_indices d = map unat us \<and>
    d_indices d = sp_indexData sp \<and> list_all (\<lambda>k. k < 65536) (sp_indexData sp) \<and>
    d_sources d (vertexPositionAttribute ws) = Some (3, pos) \<and>
    list_all (\<lambda>k. (k + 1) * 3 \<le> length pos) (d_indices d) \<and>
    (\<forall>i < 100. \<forall>j < 100. quad_shown 100 100 (fetch (3, pos)) (d_indices d) i j) \<and>
    list_all (faces_out (fetch (3, pos))) (strip_triangles (d_indices d))"
proof -
  obtain sp w1 where n: "new_sphere P (Fin r) w = Inr (sp, w1)" "page_grows w w1" "sphere_good ws sp (gl w1)"
      "sp_vertexPositionData sp = vertexPositionData latitudeBands longitudeBands (Fin r)"
      "sp_indexData sp = indexData latitudeBands longitudeBands"
      "trace (gl w1) = trace (gl w)" "gl_errors (gl w1) = gl_errors (gl w)"
    using new_sphere_good [OF assms(1)] by metis
  have r1: "page_ready P ws w1" using n(2) assms(1) by (rule page_grows_ready)
  obtain w2 d where d: "sphere_draw P sp w1 = Inr w2" "gl_errors (gl w2) = gl_errors (gl w1)"
      "trace (gl w2) = trace (gl w1) @ [Draw d]" "draws_sphere ws (gl w1) sp d"
    using sphere_draw_draws [OF r1 n(3)] by blast
  let ?us = "map (word_of_nat :: nat \<Rightarrow> 16 word) (sp_indexData sp)" and ?v = "fetch (3, sp_vertexPositionData sp)"
  have bands: "latitudeBands = 100" "longitudeBands = 100" by (simp_all add: latitudeBands_def longitudeBands_def)
  have "list_all (faces_out ?v) (strip_triangles (sp_indexData sp))"
    unfolding n(4,5) using assms(2) by (intro strip_triangles_face_out) (simp_all add: bands)
  moreover have "\<forall>i < 100. \<forall>j < 100. quad_shown 100 100 ?v (sp_indexData sp) i j"
    unfolding n(4,5) bands using assms(2) by (simp add: indexData_quads_shown)
  moreover have "list_all (\<lambda>k. (k + 1) * 3 \<le> length (sp_vertexPositionData sp)) (sp_indexData sp)"
    and small: "list_all (\<lambda>k. k < 65536) (sp_indexData sp)"
    and "buffers (gl w1) (sp_indexBuffer sp) = Some (Shorts ?us)"
    using n(3) by (simp_all add: sphere_good_def list_all_iff uint16Array_def)
  moreover have "map unat ?us = sp_indexData sp"
    using small by (intro uint16_roundtrip) (simp add: list_all_iff)
  moreover have "length (sp_indexData sp) = 40000" by (simp add: n(5) indexData_length bands)
  moreover have "d_mode d = TRIANGLE_STRIP" "d_indices d = sp_indexData sp"
      "d_sources d (vertexPositionAttribute ws) = Some (3, sp_vertexPositionData sp)"
    using d(4) by (simp_all add: draws_sphere_def)
  ultimately show ?thesis
    using n(1,6,7) d(1-3)
    by (intro exI [of _ sp] exI [of _ w1] exI [of _ w2] exI [of _ d] exI [of _ "sp_vertexPositionData sp"] exI [of _ ?us])
      simp
qed

theorem sphere_draws_outward_witness:
  "\<exists>sp w1 w2 d pos. new_sphere ref_platform (Fin 20) ref_page = Inr (sp, w1) \<and>
    sphere_draw ref_platform sp w1 = Inr w2 \<and>
    trace (gl w2) = trace (gl ref_page) @ [Draw d] \<and> gl_errors (gl w2) = gl_errors (gl ref_page) \<and>
    d_mode d = TRIANGLE_STRIP \<and> length (d_indices d) = 40000 \<and> d_indices d = sp_indexData sp \<and>
    quad_shown 100 100 (fetch (3, pos)) (d_indices d) 99 99 \<and>
    list_all (faces_out (fetch (3, pos))) (strip_triangles (d_indices d))"
proof -
  have "(99 :: nat) < 100" by simp
  moreover have "(0 :: real) < 20" by simp
  note sphere_draws_outward [OF ref_page_ready this]
  ultimately show ?thesis by blast
qed

text \<open>C40: drawing a sphere any number of times raises nothing, causes no WebGL error and creates no
  further WebGL object than the four buffers of the constructor.\<close>

theorem sphere_frames:
  assumes "page_ready P ws w"
  shows "\<exists>sp w1 w2. new_sphere P r w = Inr (sp, w1) \<and>
    redraw (\<lambda>sp w. andThen (sphere_draw P sp w) (\<lambda>w'. Inr (sp, w'))) n sp w1 = Inr (sp, w2) \<and>
    page_ready P ws w2 \<and> fresh (gl w2) = fresh (gl w) + 4 \<and> gl_errors (gl w2) = gl_errors (gl w)"
proof -
  obtain sp w1 where c: "new_sphere P r w = Inr (sp, w1)" "page_grows w w1"
      "sphere_good ws sp (gl w1)" "fresh (gl w1) = fresh (gl w) + 4" "gl_errors (gl w1) = gl_errors (gl w)"
    using new_sphere_good [OF assms] by metis
  have "redraw (\<lambda>sp w. andThen (sphere_draw P sp w) (\<lambda>w'. Inr (sp, w'))) n sp w1 = Inr (sp', w2) \<Longrightarrow>
      sp' = sp" for sp' w2
    by (induction n arbitrary: w1) (auto simp: andThen_eq_Inr)
  with sphere.redraw_frames [OF page_grows_ready [OF c(2) assms] c(3), of n] c show ?thesis
    by auto
qed

theorem sphere_frames_witness:
  "\<exists>sp w1 w2. new_sphere ref_platform 4 ref_page = Inr (sp, w1) \<and>
    redraw (\<lambda>sp w. andThen (sphere_draw ref_platform sp w) (\<lambda>w'. Inr (sp, w'))) 3 sp w1 = Inr (sp, w2) \<and>
    page_ready ref_platform ref_ws w2 \<and> fresh (gl w2) = fresh (gl ref_page) + 4 \<and>
    gl_errors (gl w2) = gl_errors (gl ref_page)"
  by (rule sphere_frames [OF ref_page_ready])

end
