(* ===== verification/MatrixStack.thy ===== *)
theory MatrixStack
  imports RefPlatform
begin

text \<open>
  The class \<open>MatrixStack\<close> (src/matrixstack/matrixstack.ts): an array of matrices whose end is the
  top of the stack.

  A \<open>mat4\<close> is an object that gl-matrix overwrites in place (\<open>mat4.mul(trafo, trafo, m)\<close>), so the
  class is modelled twice.  \<open>object_push\<close> and \<open>object_pop\<close> work on addresses into a store of matrix
  objects; \<open>stack_push\<close> and \<open>stack_pop\<close> work on the matrices themselves.  The property at the end
  says that the first looks like the second to every client, also to one that overwrites the
  matrices it has pushed or popped, because \<open>push\<close> clones.  (That \<open>pop\<close> clones as well makes no
  difference to a client: the object it would get otherwise is no longer in the stack.)  The
  traversal of the scene graph is such a client.
\<close>

section \<open>The class, on matrices\<close>

text \<open>Popping an empty stack hands \<open>undefined\<close> to \<open>mat4.clone\<close>, which reads its first entry and raises.\<close>

type_synonym matrix_stack = "mat list"

definition new_matrix_stack :: matrix_stack where
  "new_matrix_stack = []"

definition stack_push :: "'a glm_scheme \<Rightarrow> mat \<Rightarrow> matrix_stack \<Rightarrow> matrix_stack" where
  "stack_push P m st = st @ [mat4_clone P m]"

definition stack_pop :: "'a glm_scheme \<Rightarrow> matrix_stack \<Rightarrow> (mat \<times> matrix_stack) result" where
  "stack_pop P st =
     (if st = [] then Inl TypeError else Inr (mat4_clone P (last st), butlast st))"

section \<open>The class, on matrix objects\<close>

text \<open>
  A store of matrix objects: what each address holds and the next address to be given out.
  \<open>mat4.create\<close> and \<open>mat4.clone\<close> give out a fresh address.
\<close>

record mat_store =
  content :: "nat \<Rightarrow> mat"
  next_address :: nat

definition new_object :: "mat \<Rightarrow> mat_store \<Rightarrow> nat \<times> mat_store" where
  "new_object m h = (next_address h,
     h\<lparr>content := (content h)(next_address h := m), next_address := Suc (next_address h)\<rparr>)"

definition clone_object :: "'a glm_scheme \<Rightarrow> nat \<Rightarrow> mat_store \<Rightarrow> nat \<times> mat_store" where
  "clone_object P a h = new_object (mat4_clone P (content h a)) h"

definition overwrite :: "nat \<Rightarrow> (mat \<Rightarrow> mat) \<Rightarrow> mat_store \<Rightarrow> mat_store" where
  "overwrite a f h = h\<lparr>content := (content h)(a := f (content h a))\<rparr>"

text \<open>The array of the class holds addresses.\<close>

definition object_push :: "'a glm_scheme \<Rightarrow> nat \<Rightarrow> nat list \<times> mat_store \<Rightarrow> nat list \<times> mat_store" where
  "object_push P mat = (\<lambda>(matrixStack, h).
     case clone_object P mat h of (b, h') \<Rightarrow> (matrixStack @ [b], h'))"

definition object_pop :: "'a glm_scheme \<Rightarrow> nat list \<times> mat_store \<Rightarrow> (nat \<times> nat list \<times> mat_store) result" where
  "object_pop P = (\<lambda>(matrixStack, h).
     if matrixStack = [] then Inl TypeError
     else case clone_object P (last matrixStack) h of (b, h') \<Rightarrow> Inr (b, butlast matrixStack, h'))"

definition view_stack :: "nat list \<times> mat_store \<Rightarrow> matrix_stack" where
  "view_stack = (\<lambda>(st, h). map (content h) st)"

section \<open>Clients\<close>

text \<open>
  What a client can do: make a matrix, overwrite one of the matrices it holds, push one of them,
  and pop.  Its matrices are numbered in the order in which it got them.
\<close>

datatype 'x client_call = New 'x | Overwrite nat "'x \<Rightarrow> 'x" | Push nat | Pop

text \<open>A client of a stack of values, whatever the stack is made of: \<open>v\<close> are the values it holds.\<close>

fun client :: "('x \<Rightarrow> 's \<Rightarrow> 's) \<Rightarrow> ('s \<Rightarrow> ('x \<times> 's) result) \<Rightarrow> 'x client_call list \<Rightarrow>
    'x list \<times> 's \<Rightarrow> ('x list \<times> 's) result" where
  "client push pop [] vs = Inr vs"
| "client push pop (New x # cs) (v, s) = client push pop cs (v @ [x], s)"
| "client push pop (Overwrite i f # cs) (v, s) =
     andThen (deref (js_nth v i)) (\<lambda>x. client push pop cs (v[i := f x], s))"
| "client push pop (Push i # cs) (v, s) =
     andThen (deref (js_nth v i)) (\<lambda>x. client push pop cs (v, push x s))"
| "client push pop (Pop # cs) (v, s) =
     andThen (pop s) (\<lambda>(x, s1). client push pop cs (v @ [x], s1))"

text \<open>The same client of the class: it holds addresses.\<close>

fun object_client :: "'a glm_scheme \<Rightarrow> mat client_call list \<Rightarrow> nat list \<times> nat list \<times> mat_store \<Rightarrow>
    (nat list \<times> nat list \<times> mat_store) result" where
  "object_client P [] x = Inr x"
| "object_client P (New m # cs) (held, st, h) =
     (case new_object m h of (a, h') \<Rightarrow> object_client P cs (held @ [a], st, h'))"
| "object_client P (Overwrite i f # cs) (held, st, h) =
     andThen (deref (js_nth held i)) (\<lambda>a. object_client P cs (held, st, overwrite a f h))"
| "object_client P (Push i # cs) (held, st, h) =
     andThen (deref (js_nth held i)) (\<lambda>a. object_client P cs (held, object_push P a (st, h)))"
| "object_client P (Pop # cs) (held, st, h) =
     andThen (object_pop P (st, h)) (\<lambda>(a, st', h'). object_client P cs (held @ [a], st', h'))"

section \<open>Addresses and values\<close>

text \<open>Nothing is shared: the client's objects and those of the stack are all different.\<close>

definition apart :: "nat list \<Rightarrow> nat list \<times> mat_store \<Rightarrow> bool" where
  "apart held = (\<lambda>(st, h). distinct (held @ st) \<and> (\<forall>a \<in> set (held @ st). a < next_address h))"

lemma clone_object_simp: "clone_object P a h = (next_address h,
    h\<lparr>content := (content h)(next_address h := mat4_clone P (content h a)), next_address := Suc (next_address h)\<rparr>)"
  by (simp add: clone_object_def new_object_def)

lemma content_elsewhere: "a \<notin> set xs \<Longrightarrow> map ((content h)(a := m)) xs = map (content h) xs"
  by (induction xs) auto

lemma apart_next: "apart held (st, h) \<Longrightarrow> next_address h \<notin> set held \<and> next_address h \<notin> set st"
  by (auto simp: apart_def)

lemma apart_new:
  assumes "apart held (st, h)" and "new_object m h = (a, h')"
  shows "apart (held @ [a]) (st, h')" and "map (content h') (held @ [a]) = map (content h) held @ [m]"
    and "map (content h') st = map (content h) st"
  using assms apart_next [OF assms(1)]
  by (auto simp: apart_def new_object_def content_elsewhere less_Suc_eq)

lemma apart_overwrite:
  assumes "apart held (st, h)" and "i < length held"
  shows "apart held (st, overwrite (held ! i) f h)"
    and "map (content (overwrite (held ! i) f h)) held = (map (content h) held)[i := f (content h (held ! i))]"
    and "map (content (overwrite (held ! i) f h)) st = map (content h) st"
proof -
  have d: "distinct held" "held ! i \<notin> set st"
    using assms(1) nth_mem [OF assms(2)] by (auto simp: apart_def)
  show "apart held (st, overwrite (held ! i) f h)" using assms(1) by (simp add: apart_def overwrite_def)
  show "map (content (overwrite (held ! i) f h)) held = (map (content h) held)[i := f (content h (held ! i))]"
    using d(1) assms(2) by (auto simp: overwrite_def list_eq_iff_nth_eq nth_list_update nth_eq_iff_index_eq)
  show "map (content (overwrite (held ! i) f h)) st = map (content h) st"
    using d(2) by (simp add: overwrite_def content_elsewhere)
qed

lemma apart_push:
  assumes "apart held (st, h)" and "a \<in> set held"
  shows "apart held (object_push P a (st, h))"
    and "map (content (snd (object_push P a (st, h)))) held = map (content h) held"
    and "view_stack (object_push P a (st, h)) = stack_push P (content h a) (view_stack (st, h))"
  using assms apart_next [OF assms(1)]
  by (auto simp: object_push_def clone_object_simp apart_def view_stack_def stack_push_def content_elsewhere less_Suc_eq)

lemma apart_pop:
  assumes "apart held (st, h)" and "st \<noteq> []"
  obtains a st' h' where "object_pop P (st, h) = Inr (a, st', h')" and "apart (held @ [a]) (st', h')"
    and "map (content h') (held @ [a]) = map (content h) held @ [content h' a]"
    and "stack_pop P (view_stack (st, h)) = Inr (content h' a, view_stack (st', h'))"
proof -
  let ?h = "h\<lparr>content := (content h)(next_address h := mat4_clone P (content h (last st))),
      next_address := Suc (next_address h)\<rparr>"
  have st: "st = butlast st @ [last st]" using assms(2) by simp
  have n: "next_address h \<notin> set held" "next_address h \<notin> set (butlast st)"
    using apart_next [OF assms(1)] by (auto dest: in_set_butlastD)
  have "object_pop P (st, h) = Inr (next_address h, butlast st, ?h)"
    using assms(2) by (simp add: object_pop_def clone_object_simp)
  moreover have "apart (held @ [next_address h]) (butlast st, ?h)"
    using assms(1) n by (auto simp: apart_def less_Suc_eq distinct_butlast dest: in_set_butlastD)
  moreover have "map (content ?h) (held @ [next_address h]) =
      map (content h) held @ [content ?h (next_address h)]"
    using n(1) by (simp add: content_elsewhere)
  moreover have "stack_pop P (view_stack (st, h)) = Inr (content ?h (next_address h), view_stack (butlast st, ?h))"
    using n(2) assms(2) by (simp add: stack_pop_def view_stack_def last_map map_butlast [symmetric] content_elsewhere)
  ultimately show thesis by (rule that)
qed

text \<open>To its client the class is the stack of values, and nothing is ever shared.\<close>

lemma object_client_values:
  assumes "apart held (st, h)"
  shows "mapResult (\<lambda>(held', st', h'). (map (content h') held', view_stack (st', h'))) (object_client P cs (held, st, h)) =
      client (stack_push P) (stack_pop P) cs (map (content h) held, view_stack (st, h))"
    and "object_client P cs (held, st, h) = Inr (held', st', h') \<Longrightarrow> apart held' (st', h')"
proof -
  have "mapResult (\<lambda>(held', st', h'). (map (content h') held', view_stack (st', h'))) (object_client P cs (held, st, h)) =
      client (stack_push P) (stack_pop P) cs (map (content h) held, view_stack (st, h)) \<and>
    (\<forall>held' st' h'. object_client P cs (held, st, h) = Inr (held', st', h') \<longrightarrow> apart held' (st', h'))"
    using assms
  proof (induction cs arbitrary: held st h)
    case Nil
    then show ?case by simp
  next
    case (Cons c cs)
    show ?case
    proof (cases c)
      case (New m)
      obtain a h1 where n: "new_object m h = (a, h1)" by (cases "new_object m h")
      from apart_new [OF Cons.prems n] Cons.IH [of "held @ [a]" st h1] New n show ?thesis
        by (simp add: view_stack_def del: map_eq_conv map_append)
    next
      case (Overwrite i f)
      then show ?thesis
        using apart_overwrite [OF Cons.prems, of i f] Cons.IH [of held st "overwrite (held ! i) f h"]
        by (cases "i < length held") (simp_all add: js_nth_def view_stack_def del: map_eq_conv)
    next
      case (Push i)
      obtain st1 h1 where p: "object_push P (held ! i) (st, h) = (st1, h1)" by (cases "object_push P (held ! i) (st, h)")
      show ?thesis
      proof (cases "i < length held")
        case True
        then have "held ! i \<in> set held" by simp
        from apart_push [OF Cons.prems this, of P] Cons.IH [of held st1 h1] Push True p show ?thesis
          by (simp add: js_nth_def del: map_eq_conv)
      next
        case False
        with Push show ?thesis by (simp add: js_nth_def)
      qed
    next
      case Pop
      show ?thesis
      proof (cases "st = []")
        case True
        with Pop show ?thesis by (simp add: object_pop_def stack_pop_def view_stack_def)
      next
        case False
        obtain a st1 h1 where p: "object_pop P (st, h) = Inr (a, st1, h1)" "apart (held @ [a]) (st1, h1)"
            "map (content h1) (held @ [a]) = map (content h) held @ [content h1 a]"
            "stack_pop P (view_stack (st, h)) = Inr (content h1 a, view_stack (st1, h1))"
          using apart_pop [OF Cons.prems False] by blast
        from Cons.IH [OF p(2)] Pop p show ?thesis by (simp del: map_eq_conv map_append)
      qed
    qed
  qed
  then show "mapResult (\<lambda>(held', st', h'). (map (content h') held', view_stack (st', h'))) (object_client P cs (held, st, h)) =
      client (stack_push P) (stack_pop P) cs (map (content h) held, view_stack (st, h))"
    and "object_client P cs (held, st, h) = Inr (held', st', h') \<Longrightarrow> apart held' (st', h')"
    by blast+
qed

section \<open>The contract of a stack\<close>

text \<open>The reference is the stack as a plain list with its top first.\<close>

fun list_pop :: "'x list \<Rightarrow> ('x \<times> 'x list) result" where
  "list_pop [] = Inl TypeError"
| "list_pop (x # xs) = Inr (x, xs)"

text \<open>The calls of a client that makes and leaves good values only.\<close>

fun good_call :: "('x \<Rightarrow> bool) \<Rightarrow> 'x client_call \<Rightarrow> bool" where
  "good_call good (New x) \<longleftrightarrow> good x"
| "good_call good (Overwrite i f) \<longleftrightarrow> (\<forall>x. good x \<longrightarrow> good (f x))"
| "good_call good _ \<longleftrightarrow> True"

locale stack =
  fixes push :: "'x \<Rightarrow> 's \<Rightarrow> 's"
    and pop :: "'s \<Rightarrow> ('x \<times> 's) result"
    and view :: "'s \<Rightarrow> 'x list"
    and wf :: "'s \<Rightarrow> bool"
    and good :: "'x \<Rightarrow> bool"
  assumes push_wf: "wf s \<Longrightarrow> good x \<Longrightarrow> wf (push x s)"
    and push_view: "wf s \<Longrightarrow> good x \<Longrightarrow> view (push x s) = x # view s"
    and pop_empty: "wf s \<Longrightarrow> view s = [] \<Longrightarrow> pop s = Inl TypeError"
    and pop_top: "wf s \<Longrightarrow> view s = x # xs \<Longrightarrow> \<exists>s'. pop s = Inr (x, s') \<and> wf s' \<and> view s' = xs \<and> good x"
begin

lemma client_refines:
  assumes "wf s" and "list_all good v" and "list_all (good_call good) cs"
  shows "mapResult (\<lambda>(v', s'). (v', view s')) (client push pop cs (v, s)) = client (#) list_pop cs (v, view s)"
  using assms
proof (induction cs arbitrary: v s)
  case Nil
  then show ?case by simp
next
  case (Cons c cs)
  show ?case
  proof (cases c)
    case (New x)
    with Cons show ?thesis by simp
  next
    case (Overwrite i f)
    show ?thesis
    proof (cases "i < length v")
      case True
      with Cons.prems Overwrite have "list_all good (v[i := f (v ! i)])"
        by (auto simp: list_all_length nth_list_update)
      with Cons Overwrite True show ?thesis by (simp add: js_nth_def)
    next
      case False
      with Overwrite show ?thesis by (simp add: js_nth_def)
    qed
  next
    case (Push i)
    show ?thesis
    proof (cases "i < length v")
      case True
      with Cons.prems have "good (v ! i)" by (simp add: list_all_length)
      with Cons Push True show ?thesis by (simp add: js_nth_def push_wf push_view)
    next
      case False
      with Push show ?thesis by (simp add: js_nth_def)
    qed
  next
    case Pop
    show ?thesis
    proof (cases "view s")
      case Nil
      with Cons.prems Pop show ?thesis by (simp add: pop_empty)
    next
      case (Cons x xs)
      from pop_top [OF Cons.prems(1) this] obtain s' where
        s': "pop s = Inr (x, s')" "wf s'" "view s' = xs" "good x" by blast
      with Cons.IH [OF s'(2), of "v @ [x]"] Cons.prems Pop Cons show ?thesis by simp
    qed
  qed
qed

end

definition stack_ok :: "(mat \<Rightarrow> bool) \<Rightarrow> matrix_stack \<Rightarrow> bool" where
  "stack_ok ok st \<longleftrightarrow> list_all ok st"

context gl_matrix
begin

lemma stack_push_simp: "ok m \<Longrightarrow> stack_push P m st = st @ [m]"
  by (simp add: stack_push_def clone_eq)

lemma stack_pop_simp: "ok m \<Longrightarrow> stack_pop P (st @ [m]) = Inr (m, st)"
  by (simp add: stack_pop_def clone_eq)

lemma stack_contract: "stack (stack_push P) (stack_pop P) rev (stack_ok ok) ok"
proof
  fix st x xs
  assume ok: "stack_ok ok st" and r: "rev st = x # xs"
  then have st: "st = rev xs @ [x]" by (metis rev.simps(2) rev_rev_ident)
  with ok have "stack_pop P st = Inr (x, rev xs) \<and> stack_ok ok (rev xs) \<and> rev (rev xs) = xs \<and> ok x"
    by (simp add: stack_ok_def stack_pop_simp)
  then show "\<exists>s'. stack_pop P st = Inr (x, s') \<and> stack_ok ok s' \<and> rev s' = xs \<and> ok x" by blast
qed (auto simp: stack_ok_def stack_push_simp stack_pop_def)

end

text \<open>On any gl-matrix that keeps the documented laws; here on the reference platform.\<close>

interpretation matrix_stack: stack "stack_push ref_platform" "stack_pop ref_platform" rev
  "stack_ok affine_ok" affine_ok
  by (rule refp.stack_contract)

text \<open>C13: to a client that makes matrices, pushes and pops them and overwrites in place those it has
  pushed or popped, the class is a list of values with its top first: what it pops is what was
  pushed, whatever it has done to the matrix since, the same stack is left, and popping raises a
  TypeError exactly when that list is empty.  No two of the matrices in the client's hands and in
  the stack are ever the same object.\<close>

theorem stack_refines_list:
  assumes "gl_matrix P ok" and "list_all (good_call ok) cs"
  shows "mapResult (\<lambda>(held, st, h). (map (content h) held, rev (view_stack (st, h))))
      (object_client P cs ([], [], h0)) = client (#) list_pop cs ([], []) \<and>
    (\<forall>held st h. object_client P cs ([], [], h0) = Inr (held, st, h) \<longrightarrow> distinct (held @ st))"
proof -
  let ?r = "object_client P cs ([], [], h0)"
  have apart: "apart [] ([], h0)" by (simp add: apart_def)
  have "mapResult (\<lambda>(held, st, h). (map (content h) held, rev (view_stack (st, h)))) ?r =
      mapResult (\<lambda>(v, s). (v, rev s)) (mapResult (\<lambda>(held, st, h). (map (content h) held, view_stack (st, h))) ?r)"
    by (cases ?r) (simp_all add: split_beta)
  also have "\<dots> = mapResult (\<lambda>(v, s). (v, rev s)) (client (stack_push P) (stack_pop P) cs ([], []))"
    using object_client_values(1) [OF apart, of P cs] by (simp add: view_stack_def)
  also have "\<dots> = client (#) list_pop cs ([], [])"
    using stack.client_refines [OF gl_matrix.stack_contract [OF assms(1)], of "[]" "[]" cs] assms(2)
    by (simp add: stack_ok_def)
  finally show ?thesis using object_client_values(2) [OF apart, of P cs] by (auto simp: apart_def)
qed

text \<open>What \<open>drawTraversal\<close> does: pop, push the same again, multiply in place, push.\<close>

theorem stack_refines_list_witness:
  "let m = mat4_create ref_platform; f = (\<lambda>x. mat4_translate ref_platform x [Fin 1, Fin 2, Fin 3]);
       cs = [New m, Push 0, Pop, Push 1, Overwrite 1 f, Push 1, Overwrite 1 f, Pop, Pop] in
    mapResult (\<lambda>(held, st, h). (map (content h) held, rev (view_stack (st, h))))
      (object_client ref_platform cs ([], [], \<lparr>content = (\<lambda>_. []), next_address = 0\<rparr>)) =
    Inr ([m, f (f m), f m, m], [])"
proof -
  let ?cs = "\<lambda>m f. [New m, Push 0, Pop, Push 1, Overwrite 1 f, Push 1, Overwrite 1 f, Pop, Pop]"
  have c: "client (#) list_pop (?cs m f) ([], []) = Inr ([m, f (f m), f m, m], [])" for m :: mat and f
    by (simp add: js_nth_def)
  have good: "list_all (good_call affine_ok) (?cs (mat4_create ref_platform)
      (\<lambda>x. mat4_translate ref_platform x [Fin 1, Fin 2, Fin 3]))"
    by (simp add: refp.create_ok refp.translate_ok)
  from stack_refines_list [OF refp.gl_matrix_axioms good] show ?thesis
    unfolding Let_def c by (rule conjunct1)
qed

end
