(* ===== verification/Timer.thy ===== *)
theory Timer
  imports WebGLStart
begin

text \<open>
  The two clocks: \<open>Timer\<close> (src/szenegraph/timer.ts), which turns the milliseconds since its last
  use into days of the solar system, and \<open>Framerate\<close> (src/szenegraph/framerate.ts), a singleton
  that measures the time between two animation frames.  \<open>Date.now()\<close> is a stream of readings that
  each call advances, so that two calls in a row may return different values, as they do.
\<close>

section \<open>Date.now\<close>

record clock =
  reading :: "nat \<Rightarrow> int"
  asked :: nat

definition date_now :: "clock \<Rightarrow> number \<times> clock" where
  "date_now c = (Fin (of_int (reading c (asked c))), c\<lparr>asked := Suc (asked c)\<rparr>)"

section \<open>Timer\<close>

record timer =
  days_per_sec :: number
  lastDate :: number

definition new_timer :: "number \<Rightarrow> clock \<Rightarrow> timer \<times> clock" where
  "new_timer n c = (case date_now c of (t, c') \<Rightarrow> (\<lparr>days_per_sec = n, lastDate = t\<rparr>, c'))"

definition daysPassed :: "timer \<Rightarrow> clock \<Rightarrow> number \<times> timer \<times> clock" where
  "daysPassed this c =
     (if lastDate this = 0 then
        (case date_now c of (t, c') \<Rightarrow> (0, this\<lparr>lastDate := t\<rparr>, c'))
      else
        (case date_now c of (t, c1) \<Rightarrow>
         let diff = days_per_sec this * ((t - lastDate this) / 1000)
         in case date_now c1 of (t', c2) \<Rightarrow> (diff, this\<lparr>lastDate := t'\<rparr>, c2)))"

text \<open>The days of \<open>n\<close> frames in a row.\<close>

fun days_of_frames :: "nat \<Rightarrow> timer \<Rightarrow> clock \<Rightarrow> number list \<times> timer \<times> clock" where
  "days_of_frames 0 this c = ([], this, c)"
| "days_of_frames (Suc n) this c =
     (case daysPassed this c of (d, this1, c1) \<Rightarrow>
      case days_of_frames n this1 c1 of (ds, this2, c2) \<Rightarrow> (d # ds, this2, c2))"

text \<open>The milliseconds that pass between the two readings of one call.\<close>

definition gap :: "clock \<Rightarrow> nat \<Rightarrow> int" where
  "gap c k = reading c (asked c + 2 * k + 1) - reading c (asked c + 2 * k)"

lemma days_of_frames_sum:
  assumes "days_per_sec this = Fin s" and "lastDate this = Fin (of_int t)" and "t \<noteq> 0"
    and "\<And>i. reading c i \<noteq> 0"
    and "days_of_frames n this c = (ds, this', c')"
  shows "sum_list ds = Fin (s * (real_of_int ((if n = 0 then t else reading c (asked c + 2 * n - 1)) - t -
      (\<Sum>k<n. gap c k)) / 1000)) \<and> length ds = n"
  using assms
proof (induction n arbitrary: this t c ds)
  case 0
  then show ?case by (simp add: zero_number_def)
next
  case (Suc n)
  let ?r = "reading c" and ?a = "asked c"
  let ?this1 = "this\<lparr>lastDate := Fin (of_int (?r (Suc ?a)))\<rparr>"
  let ?c1 = "c\<lparr>asked := Suc (Suc ?a)\<rparr>"
  have d: "daysPassed this c = (Fin (s * (real_of_int (?r ?a - t) / 1000)), ?this1, ?c1)"
    using Suc.prems(1-4) by (simp add: daysPassed_def date_now_def num_simps)
  obtain ds' where ds': "days_of_frames n ?this1 ?c1 = (ds', this', c')"
    and ds: "ds = Fin (s * (real_of_int (?r ?a - t) / 1000)) # ds'"
    using Suc.prems(5) d by (auto split: prod.splits)
  have "sum_list ds' = Fin (s * (real_of_int ((if n = 0 then ?r (Suc ?a) else
        reading ?c1 (asked ?c1 + 2 * n - 1)) - ?r (Suc ?a) - (\<Sum>k<n. gap ?c1 k)) / 1000)) \<and> length ds' = n"
    by (rule Suc.IH [OF _ _ _ _ ds']) (use Suc.prems(1,4) in simp_all)
  moreover have "(\<Sum>k<Suc n. gap c k) = gap c 0 + (\<Sum>k<n. gap ?c1 k)"
    by (simp add: sum.lessThan_Suc_shift gap_def del: sum.lessThan_Suc)
  moreover have "gap c 0 = ?r (Suc ?a) - ?r ?a" by (simp add: gap_def)
  ultimately show ?case
    by (simp add: ds num_simps del: sum.lessThan_Suc) (simp add: algebra_simps)
qed

lemma days_of_frames_asked:
  assumes "lastDate this \<noteq> 0" and "\<And>i. reading c i \<noteq> 0" and "days_of_frames n this c = (ds, this', c')"
  shows "asked c' = asked c + 2 * n"
  using assms
proof (induction n arbitrary: this c ds)
  case (Suc n)
  obtain d this1 c1 ds' where d: "daysPassed this c = (d, this1, c1)"
    and ds': "days_of_frames n this1 c1 = (ds', this', c')"
    using Suc.prems(3) by (auto split: prod.splits)
  from d Suc.prems(1,2) have "lastDate this1 \<noteq> 0" "reading c1 = reading c" "asked c1 = asked c + 2"
    by (auto simp: daysPassed_def date_now_def zero_number_def split: if_splits)
  with Suc.IH [OF _ _ ds'] Suc.prems(2) show ?case by simp
qed simp

text \<open>Readings for an example: 40 ms, then 58 ms between two calls, each taking 1 ms.\<close>

definition ref_readings :: "nat \<Rightarrow> int" where
  "ref_readings i = (if i = 0 then 1000 else if i = 1 then 1040 else if i = 2 then 1041
     else if i = 3 then 1099 else 1100)"

section \<open>Framerate\<close>

text \<open>The static fields of the class and the number of callbacks the browser still has to call.\<close>

record framerate =
  ftime :: number
  last_frame_time :: number
  fr_instance :: "unit option"
  frame_requests :: nat

definition framerate_init :: framerate where
  "framerate_init = \<lparr>ftime = NaN, last_frame_time = NaN, fr_instance = None, frame_requests = 0\<rparr>"

definition framerate_start :: "number \<Rightarrow> framerate \<Rightarrow> framerate" where
  "framerate_start time F =
     (let F1 = F\<lparr>ftime := (time - last_frame_time F) / 1000\<rparr>;
          F2 = F1\<lparr>last_frame_time := time\<rparr>
      in F2\<lparr>frame_requests := Suc (frame_requests F2)\<rparr>)"

definition new_framerate :: "framerate \<Rightarrow> framerate" where
  "new_framerate F = framerate_start 0 (F\<lparr>last_frame_time := 0\<rparr>)"

definition framerate_getInstance :: "framerate \<Rightarrow> (unit \<times> framerate) result" where
  "framerate_getInstance F = (case fr_instance F of
     Some i \<Rightarrow> Inr (i, F)
   | None \<Rightarrow> Inr ((), (new_framerate F)\<lparr>fr_instance := Some ()\<rparr>))"

interpretation framerate: lazy_singleton framerate_getInstance fr_instance
  by unfold_locales (auto simp: framerate_getInstance_def split: option.splits)

text \<open>The browser takes one pending request and calls \<open>start\<close> with the time of the frame.\<close>

definition animation_frame :: "number \<Rightarrow> framerate \<Rightarrow> framerate" where
  "animation_frame time F =
     (if frame_requests F = 0 then F
      else framerate_start time (F\<lparr>frame_requests := frame_requests F - 1\<rparr>))"

fun animation_frames :: "number list \<Rightarrow> framerate \<Rightarrow> number list \<times> framerate" where
  "animation_frames [] F = ([], F)"
| "animation_frames (t # ts) F =
     (let F1 = animation_frame t F;
          (fs, F2) = animation_frames ts F1
      in (ftime F1 # fs, F2))"

lemma animation_frames_sum:
  assumes "frame_requests F = 1" and "last_frame_time F = Fin a"
    and "animation_frames (map Fin ts) F = (fs, F')"
  shows "sum_list fs = Fin ((last (a # ts) - a) / 1000) \<and> length fs = length ts \<and>
    frame_requests F' = 1 \<and> fr_instance F' = fr_instance F"
  using assms
proof (induction ts arbitrary: F a fs)
  case Nil
  then show ?case by (simp add: zero_number_def)
next
  case (Cons t ts)
  let ?F1 = "F\<lparr>frame_requests := 1, ftime := Fin ((t - a) / 1000), last_frame_time := Fin t\<rparr>"
  have F1: "animation_frame (Fin t) F = ?F1"
    using Cons.prems(1,2) by (simp add: animation_frame_def framerate_start_def num_simps)
  obtain fs' where fs': "animation_frames (map Fin ts) ?F1 = (fs', F')" and fs: "fs = Fin ((t - a) / 1000) # fs'"
    using Cons.prems(3) by (auto simp: F1 Let_def split: prod.splits)
  have ih: "sum_list fs' = Fin ((last (t # ts) - t) / 1000) \<and> length fs' = length ts \<and>
      frame_requests F' = 1 \<and> fr_instance F' = fr_instance ?F1"
    by (rule Cons.IH [OF _ _ fs']) simp_all
  have "(t - a) / 1000 + (last (t # ts) - t) / 1000 = (last (t # ts) - a) / 1000"
    by (simp add: diff_divide_distrib)
  with ih show ?case by (simp add: fs)
qed

lemma framerate_first:
  assumes "fr_instance F = None" and "framerate_getInstance F = Inr (i, F')"
  shows "frame_requests F' = Suc (frame_requests F)" and "last_frame_time F' = Fin 0" and "ftime F' = Fin 0"
  using assms by (auto simp: framerate_getInstance_def new_framerate_def framerate_start_def num_simps)

section \<open>Properties\<close>

text \<open>C24: the days of any number of frames add up to the speed times the seconds between the creation
  of the timer and its last reading, less the milliseconds between the two \<open>Date.now()\<close> of each
  call: the solar system is late by exactly those gaps and by nothing else.\<close>

theorem timer_total:
  assumes "\<And>i. reading c i \<noteq> 0" and "new_timer (Fin s) c = (this, c0)"
    and "days_of_frames n this c0 = (ds, this', c')"
  shows "length ds = n \<and> asked c' = asked c + 1 + 2 * n \<and>
    sum_list ds = Fin (s * real_of_int (reading c (asked c' - 1) - reading c (asked c) -
      (\<Sum>k<n. gap c0 k)) / 1000)"
proof -
  have c0: "c0 = c\<lparr>asked := Suc (asked c)\<rparr>"
    and th: "days_per_sec this = Fin s" "lastDate this = Fin (of_int (reading c (asked c)))"
    using assms(2) by (auto simp: new_timer_def date_now_def)
  have c': "asked c' = asked c0 + 2 * n"
    by (rule days_of_frames_asked [OF _ _ assms(3)]) (use assms(1) c0 th in \<open>simp_all add: zero_number_def\<close>)
  show ?thesis
    using days_of_frames_sum [OF th _ _ assms(3)] assms(1) c0 c' by auto
qed

theorem timer_total_witness:
  "length [Fin (3 * (40 / 1000)), Fin (3 * (58 / 1000))] = 2 \<and> asked \<lparr>reading = ref_readings, asked = 5\<rparr> =
      asked \<lparr>reading = ref_readings, asked = 0\<rparr> + 1 + 2 * 2 \<and>
    sum_list [Fin (3 * (40 / 1000)), Fin (3 * (58 / 1000))] =
      Fin (3 * real_of_int (ref_readings 4 - ref_readings 0 -
        (\<Sum>k<2. gap \<lparr>reading = ref_readings, asked = 1\<rparr> k)) / 1000)"
  using timer_total [of "\<lparr>reading = ref_readings, asked = 0\<rparr>" 3 "\<lparr>days_per_sec = Fin 3, lastDate = Fin 1000\<rparr>"
      "\<lparr>reading = ref_readings, asked = 1\<rparr>" 2 "[Fin (3 * (40 / 1000)), Fin (3 * (58 / 1000))]"
      "\<lparr>days_per_sec = Fin 3, lastDate = Fin 1100\<rparr>" "\<lparr>reading = ref_readings, asked = 5\<rparr>"]
  by (simp add: ref_readings_def new_timer_def date_now_def daysPassed_def num_simps numeral_2_eq_2)

text \<open>C28: \<open>Framerate\<close> keeps exactly one callback pending, whatever the frames, and the frame times
  it reports add up to the time of the last frame in seconds.\<close>

theorem framerate_total:
  assumes "fr_instance F = None" and "frame_requests F = 0"
    and "framerate_getInstance F = Inr (i, F0)" and "animation_frames (map Fin ts) F0 = (fs, F')"
  shows "frame_requests F' = 1 \<and> length fs = length ts \<and>
    sum_list fs = Fin (last (0 # ts) / 1000) \<and> framerate_getInstance F' = Inr (i, F')"
proof -
  note f = framerate_first [OF assms(1,3)]
  have "fr_instance F0 = Some i" using assms(3) by (rule framerate.get_stores)
  then show ?thesis
    using animation_frames_sum [OF _ f(2) assms(4)] f(1) assms(2) framerate.get_stored [of F' i] by simp
qed

theorem framerate_total_witness:
  "frame_requests \<lparr>ftime = Fin (17 / 1000), last_frame_time = Fin 33, fr_instance = Some (), frame_requests = 1\<rparr> = 1 \<and>
    length [Fin (16 / 1000), Fin (17 / 1000)] = length [16 :: real, 33] \<and>
    sum_list [Fin (16 / 1000), Fin (17 / 1000)] = Fin (last (0 # [16, 33]) / 1000) \<and>
    framerate_getInstance
      \<lparr>ftime = Fin (17 / 1000), last_frame_time = Fin 33, fr_instance = Some (), frame_requests = 1\<rparr> =
    Inr ((), \<lparr>ftime = Fin (17 / 1000), last_frame_time = Fin 33, fr_instance = Some (), frame_requests = 1\<rparr>)"
  by (rule framerate_total [of framerate_init _
        "\<lparr>ftime = Fin 0, last_frame_time = Fin 0, fr_instance = Some (), frame_requests = 1\<rparr>"])
    (simp_all add: framerate_init_def framerate_getInstance_def new_framerate_def framerate_start_def
      animation_frame_def num_simps)

end
