(* ===== verification/Motion.thy ===== *)
theory Motion
  imports MatrixStack Timer
begin

text \<open>
  The moving nodes: \<open>Orbit\<close> (src/szenegraph/orbit.ts) and \<open>Planet\<close> (src/szenegraph/planet.ts).  Both
  keep their motion in the matrix they inherit from \<open>SGNode\<close>, so the operations take and return
  that matrix; \<open>draw\<close> advances it by the share of a full turn that the days make of the period.
\<close>

section \<open>Orbit\<close>

record orbit =
  o_radius :: number
  o_tiltRad :: number
  circulation :: number

definition new_orbit :: "'a glm_scheme \<Rightarrow> number \<Rightarrow> number \<Rightarrow> number \<Rightarrow> orbit \<times> mat" where
  "new_orbit P radius tilt circulationPeriod =
     (let this = \<lparr>o_radius = radius, o_tiltRad = tilt * (js_PI / 180), circulation = circulationPeriod\<rparr>;
          trafo = mat4_rotateZ P (mat4_create P) (o_tiltRad this)
      in (this, mat4_translate P trafo (vec3_fromValues P (o_radius this) 0 0)))"

definition orbit_draw :: "'a glm_scheme \<Rightarrow> orbit \<Rightarrow> number \<Rightarrow> mat \<Rightarrow> mat" where
  "orbit_draw P this days trafo =
     (if circulation this = 0 then trafo
      else
        let part = days / circulation this;
            rotation = part * 2 * js_PI;
            t1 = mat4_translate P trafo (vec3_fromValues P (- o_radius this) 0 0);
            t2 = mat4_rotateY P t1 rotation
        in mat4_translate P t2 (vec3_fromValues P (o_radius this) 0 0))"

section \<open>Planet\<close>

record planet =
  p_tiltRad :: number
  rotationPeriod :: number

definition new_planet_body :: "'a glm_scheme \<Rightarrow> number \<Rightarrow> number \<Rightarrow> planet \<times> mat" where
  "new_planet_body P tilt period =
     (let this = \<lparr>p_tiltRad = tilt * js_PI / 180, rotationPeriod = period\<rparr>
      in (this, mat4_rotateZ P (mat4_create P) (p_tiltRad this)))"

definition planet_draw :: "'a glm_scheme \<Rightarrow> planet \<Rightarrow> number \<Rightarrow> mat \<Rightarrow> mat" where
  "planet_draw P this days trafo =
     (let part = days / rotationPeriod this;
          rotation = part * 2 * js_PI
      in mat4_rotateY P trafo rotation)"

section \<open>Where they are after some days\<close>

text \<open>The reference: the angle is the sum of all days, taken as a share of the period.\<close>

definition turn :: "real \<Rightarrow> real \<Rightarrow> real" where
  "turn period days = days / period * 2 * pi"

definition orbit_at :: "'a glm_scheme \<Rightarrow> real \<Rightarrow> real \<Rightarrow> real \<Rightarrow> mat" where
  "orbit_at P radius tilt angle =
     mat4_translate P (mat4_rotateY P (mat4_rotateZ P (mat4_create P) (Fin (tilt * (pi / 180)))) (Fin angle))
       [Fin radius, Fin 0, Fin 0]"

definition planet_at :: "'a glm_scheme \<Rightarrow> real \<Rightarrow> real \<Rightarrow> mat" where
  "planet_at P tilt angle =
     mat4_rotateY P (mat4_rotateZ P (mat4_create P) (Fin (tilt * pi / 180))) (Fin angle)"

definition orbit_days :: "'a glm_scheme \<Rightarrow> orbit \<Rightarrow> number list \<Rightarrow> mat \<Rightarrow> mat" where
  "orbit_days P this ds trafo = foldl (\<lambda>m d. orbit_draw P this d m) trafo ds"

definition planet_days :: "'a glm_scheme \<Rightarrow> planet \<Rightarrow> number list \<Rightarrow> mat \<Rightarrow> mat" where
  "planet_days P this ds trafo = foldl (\<lambda>m d. planet_draw P this d m) trafo ds"

lemma turn_add: "turn p (a + b) = turn p a + turn p b"
  by (simp add: turn_def add_divide_distrib distrib_right)

lemma turn_0 [simp]: "turn p 0 = 0"
  by (simp add: turn_def)

lemma turn_full: "p \<noteq> 0 \<Longrightarrow> turn p (real n * p) = real n * (2 * pi)"
  by (simp add: turn_def)

context gl_matrix
begin

lemma new_orbit_at:
  "new_orbit P (Fin r) (Fin tilt) c =
    (\<lparr>o_radius = Fin r, o_tiltRad = Fin (tilt * (pi / 180)), circulation = c\<rparr>, orbit_at P r tilt 0)"
  by (simp add: new_orbit_def orbit_at_def Let_def num_simps vec3_values rotateY_0 rotateZ_ok create_ok)

lemma new_planet_at:
  "new_planet_body P (Fin tilt) c =
    (\<lparr>p_tiltRad = Fin (tilt * pi / 180), rotationPeriod = c\<rparr>, planet_at P tilt 0)"
  by (simp add: new_planet_body_def planet_at_def Let_def num_simps rotateY_0 rotateZ_ok create_ok)

lemma orbit_at_ok: "ok (orbit_at P r tilt a)"
  by (simp add: orbit_at_def translate_ok rotateY_ok rotateZ_ok create_ok)

lemma planet_at_ok: "ok (planet_at P tilt a)"
  by (simp add: planet_at_def rotateY_ok rotateZ_ok create_ok)

lemma orbit_draw_ok:
  assumes "ok m" and "o_radius this = Fin r" and "circulation this = Fin c"
  shows "ok (orbit_draw P this (Fin d) m)"
  using assms by (simp add: orbit_draw_def Let_def num_simps vec3_values translate_ok rotateY_ok)

lemma planet_draw_ok:
  assumes "ok m" and "rotationPeriod this = Fin c" and "c \<noteq> 0"
  shows "ok (planet_draw P this (Fin d) m)"
  using assms by (simp add: planet_draw_def Let_def num_simps rotateY_ok)

lemma orbit_draw_at:
  assumes "o_radius this = Fin r" and "circulation this = Fin c" and "c \<noteq> 0"
  shows "orbit_draw P this (Fin d) (orbit_at P r tilt a) = orbit_at P r tilt (a + turn c d)"
  using assms
  by (simp add: orbit_draw_def orbit_at_def Let_def num_simps vec3_values translate_x_cancel rotateY_ok
      rotateZ_ok create_ok rotateY_add turn_def)

lemma planet_draw_at:
  assumes "rotationPeriod this = Fin c" and "c \<noteq> 0"
  shows "planet_draw P this (Fin d) (planet_at P tilt a) = planet_at P tilt (a + turn c d)"
  using assms
  by (simp add: planet_draw_def planet_at_def Let_def num_simps rotateY_add rotateZ_ok create_ok turn_def)

lemma orbit_days_at:
  assumes "o_radius this = Fin r" and "circulation this = Fin c" and "c \<noteq> 0"
  shows "orbit_days P this (map Fin ds) (orbit_at P r tilt a) = orbit_at P r tilt (a + turn c (sum_list ds))"
proof (induction ds arbitrary: a)
  case (Cons d ds)
  then show ?case
    using assms by (simp add: orbit_days_def orbit_draw_at turn_add add.assoc)
qed (simp add: orbit_days_def)

lemma planet_days_at:
  assumes "rotationPeriod this = Fin c" and "c \<noteq> 0"
  shows "planet_days P this (map Fin ds) (planet_at P tilt a) = planet_at P tilt (a + turn c (sum_list ds))"
proof (induction ds arbitrary: a)
  case (Cons d ds)
  then show ?case
    using assms by (simp add: planet_days_def planet_draw_at turn_add add.assoc)
qed (simp add: planet_days_def)

lemma orbit_days_still:
  "circulation this = 0 \<Longrightarrow> orbit_days P this ds m = m"
  by (induction ds) (simp_all add: orbit_days_def orbit_draw_def)

lemma orbit_at_turns: "orbit_at P r tilt (real n * (2 * pi)) = orbit_at P r tilt 0"
  by (simp add: orbit_at_def rotateY_turns rotateY_0 rotateZ_ok create_ok)

lemma planet_at_turns: "planet_at P tilt (real n * (2 * pi)) = planet_at P tilt 0"
  by (simp add: planet_at_def rotateY_turns rotateY_0 rotateZ_ok create_ok)

end

text \<open>C15: whatever the frames in between, a planet's path around the sun depends on the total of
  the days alone: after the days \<open>ds\<close> an orbit with period \<open>c\<close> stands at the angle
  \<open>2 pi sum(ds) / c\<close>, at its radius, in its tilted plane.  A whole number of periods brings it back
  to where it started, and an orbit with period 0 (the sun's) never moves.\<close>

theorem orbit_position:
  assumes "gl_matrix P ok"
  shows "case new_orbit P (Fin r) (Fin tilt) (Fin c) of (this, trafo) \<Rightarrow>
      (c \<noteq> 0 \<longrightarrow> orbit_days P this (map Fin ds) trafo = orbit_at P r tilt (turn c (sum_list ds))) \<and>
      (c = 0 \<or> sum_list ds = real n * c \<longrightarrow> orbit_days P this (map Fin ds) trafo = trafo)"
  using gl_matrix.orbit_days_at [OF assms, of _ r c ds tilt 0] gl_matrix.orbit_days_still [OF assms]
  by (cases "c = 0") (auto simp: gl_matrix.new_orbit_at [OF assms] turn_full gl_matrix.orbit_at_turns [OF assms]
      zero_number_def)

theorem orbit_position_witness:
  "case new_orbit ref_platform (Fin 80) (Fin 0) (Fin 365) of (this, trafo) \<Rightarrow>
      ((365::real) \<noteq> 0 \<longrightarrow> orbit_days ref_platform this (map Fin [100, 265]) trafo =
        orbit_at ref_platform 80 0 (turn 365 (sum_list [100, 265]))) \<and>
      ((365::real) = 0 \<or> sum_list [100, 265] = real 1 * 365 \<longrightarrow>
        orbit_days ref_platform this (map Fin [100, 265]) trafo = trafo)"
  by (rule orbit_position [OF refp.gl_matrix_axioms])

text \<open>C25: a planet's spin depends on the total of the days alone, too, and every whole number of
  rotation periods brings it back.\<close>

theorem planet_spin:
  assumes "gl_matrix P ok" and "c \<noteq> 0"
  shows "case new_planet_body P (Fin tilt) (Fin c) of (this, trafo) \<Rightarrow>
      planet_days P this (map Fin ds) trafo = planet_at P tilt (turn c (sum_list ds)) \<and>
      (sum_list ds = real n * c \<longrightarrow> planet_days P this (map Fin ds) trafo = trafo)"
  using gl_matrix.planet_days_at [OF assms(1), of _ c ds tilt 0] assms(2)
  by (simp add: gl_matrix.new_planet_at [OF assms(1)] turn_full gl_matrix.planet_at_turns [OF assms(1)])

theorem planet_spin_witness:
  "case new_planet_body ref_platform (Fin 23.45) (Fin 1) of (this, trafo) \<Rightarrow>
      planet_days ref_platform this (map Fin [0.5, 0.5, 1]) trafo =
        planet_at ref_platform 23.45 (turn 1 (sum_list [0.5, 0.5, 1])) \<and>
      (sum_list [0.5, 0.5, 1] = real 2 * 1 \<longrightarrow>
        planet_days ref_platform this (map Fin [0.5, 0.5, 1]) trafo = trafo)"
  by (rule planet_spin [OF refp.gl_matrix_axioms]) simp

end
