(* ===== verification/Camera.thy ===== *)
theory Camera
  imports Motion
begin

text \<open>
  \<open>Camera\<close> (src/szenegraph/camera.ts): the matrix it moves and its keyboard control.
\<close>

section \<open>Camera\<close>

record camera =
  fovRadian :: number
  cam_projection :: "mat option"   \<comment> \<open>\<open>projectionMatrix\<close>, unset until the first \<open>draw\<close>\<close>
  cameraPosition :: vec
  cameraMatrix :: mat
  cam_x :: number
  cam_y :: number
  cam_z :: number
  cam_px :: number
  cam_pz :: number

definition new_camera :: "'a glm_scheme \<Rightarrow> camera" where
  "new_camera P =
     (let position = vec3_fromValues P 0 0 100
      in \<lparr>fovRadian = js_PI / 2, cam_projection = None, cameraPosition = position,
          cameraMatrix = mat4_translate P (mat4_create P) position,
          cam_x = 0, cam_y = 0, cam_z = 0, cam_px = 0, cam_pz = 0\<rparr>)"

text \<open>The matrix part of \<open>draw\<close>: the motion of one frame.\<close>

definition camera_move :: "'a glm_scheme \<Rightarrow> camera \<Rightarrow> mat" where
  "camera_move P this =
     (let m1 = mat4_translate P (cameraMatrix this) (vec3_fromValues P (cam_px this) 0 (cam_pz this));
          m2 = mat4_rotateX P m1 (cam_x this);
          m3 = mat4_rotateY P m2 (cam_y this)
      in mat4_rotateZ P m3 (cam_z this))"

text \<open>An uninvertible camera matrix makes \<open>mat4.invert\<close> return null, which \<open>mat4.mul\<close> then reads.\<close>

definition camera_draw ::
    "'a platform_scheme \<Rightarrow> camera \<Rightarrow> 'b page_scheme \<Rightarrow> (camera \<times> 'b page_scheme) result" where
  "camera_draw P this w =
     andThen (getInstance P w) (\<lambda>(webglStart, w1).
       let aspect = Fin (real (canvas_width webglStart)) / Fin (real (canvas_height webglStart));
           projection = mat4_perspective P (js_rem (fovRadian this) js_PI) aspect 1 1000;
           moved = camera_move P this
       in andThen (deref (mat4_invert P moved)) (\<lambda>viewMatrix.
            let projection' = mat4_mul P projection viewMatrix
            in Inr (this\<lparr>cameraMatrix := moved, cam_projection := Some projection'\<rparr>,
                    on_gl (setUniform (pMatrixUniform webglStart) (UMat projection')) w1)))"

definition camera_rotate :: "string \<Rightarrow> int \<Rightarrow> camera \<Rightarrow> camera" where
  "camera_rotate code status this =
     (if status = 1 then
        let this1 =
          (if code = ''ArrowDown'' then this\<lparr>cam_pz := 10\<rparr>
           else if code = ''ArrowUp'' then this\<lparr>cam_pz := - 10\<rparr>
           else if code = ''ArrowLeft'' then this\<lparr>cam_px := - 10\<rparr>
           else if code = ''ArrowRight'' then this\<lparr>cam_px := 10\<rparr>
           else this)
        in
          (if code = ''w'' then this1\<lparr>cam_x := - Fin 0.05\<rparr>
           else if code = ''a'' then this1\<lparr>cam_y := Fin 0.05\<rparr>
           else if code = ''s'' then this1\<lparr>cam_x := Fin 0.05\<rparr>
           else if code = ''d'' then this1\<lparr>cam_y := - Fin 0.05\<rparr>
           else if code = ''q'' then this1\<lparr>cam_z := Fin 0.05\<rparr>
           else if code = ''e'' then this1\<lparr>cam_z := - Fin 0.05\<rparr>
           else this1)
      else this\<lparr>cam_px := 0, cam_pz := 0, cam_y := 0, cam_x := 0, cam_z := 0\<rparr>)"

text \<open>The listeners: \<open>keydown\<close> calls \<open>rotate(key, 1)\<close>, \<open>keyup\<close> calls \<open>rotate(key, 0)\<close>.\<close>

datatype key_event = KeyDown string | KeyUp string

fun camera_key :: "key_event \<Rightarrow> camera \<Rightarrow> camera" where
  "camera_key (KeyDown k) this = camera_rotate k 1 this"
| "camera_key (KeyUp k) this = camera_rotate k 0 this"

definition camera_keys :: "key_event list \<Rightarrow> camera \<Rightarrow> camera" where
  "camera_keys es this = foldl (\<lambda>c e. camera_key e c) this es"

section \<open>What the keys mean\<close>

text \<open>
  The reference: five independent axes.  A key that belongs to an axis sets it, any other key
  leaves it, and releasing any key at all resets every axis.
\<close>

fun axis_after :: "(string \<Rightarrow> number option) \<Rightarrow> key_event list \<Rightarrow> number \<Rightarrow> number" where
  "axis_after keys [] v = v"
| "axis_after keys (KeyDown k # es) v =
     axis_after keys es (case keys k of Some u \<Rightarrow> u | None \<Rightarrow> v)"
| "axis_after keys (KeyUp k # es) v = axis_after keys es 0"

definition x_keys :: "string \<Rightarrow> number option" where
  "x_keys = [''w'' \<mapsto> Fin (- 0.05), ''s'' \<mapsto> Fin 0.05]"

definition y_keys :: "string \<Rightarrow> number option" where
  "y_keys = [''a'' \<mapsto> Fin 0.05, ''d'' \<mapsto> Fin (- 0.05)]"

definition z_keys :: "string \<Rightarrow> number option" where
  "z_keys = [''q'' \<mapsto> Fin 0.05, ''e'' \<mapsto> Fin (- 0.05)]"

definition px_keys :: "string \<Rightarrow> number option" where
  "px_keys = [''ArrowLeft'' \<mapsto> - 10, ''ArrowRight'' \<mapsto> 10]"

definition pz_keys :: "string \<Rightarrow> number option" where
  "pz_keys = [''ArrowDown'' \<mapsto> 10, ''ArrowUp'' \<mapsto> - 10]"

lemmas axis_keys = x_keys_def y_keys_def z_keys_def px_keys_def pz_keys_def

lemma camera_rotate_down:
  "camera_rotate k 1 this = this
     \<lparr>cam_x := (case x_keys k of Some u \<Rightarrow> u | None \<Rightarrow> cam_x this),
      cam_y := (case y_keys k of Some u \<Rightarrow> u | None \<Rightarrow> cam_y this),
      cam_z := (case z_keys k of Some u \<Rightarrow> u | None \<Rightarrow> cam_z this),
      cam_px := (case px_keys k of Some u \<Rightarrow> u | None \<Rightarrow> cam_px this),
      cam_pz := (case pz_keys k of Some u \<Rightarrow> u | None \<Rightarrow> cam_pz this)\<rparr>"
  by (simp add: camera_rotate_def axis_keys)

lemma camera_keys_axes:
  "camera_keys es this = this
     \<lparr>cam_x := axis_after x_keys es (cam_x this), cam_y := axis_after y_keys es (cam_y this),
      cam_z := axis_after z_keys es (cam_z this), cam_px := axis_after px_keys es (cam_px this),
      cam_pz := axis_after pz_keys es (cam_pz this)\<rparr>"
proof (induction es arbitrary: this)
  case Nil
  then show ?case by (simp add: camera_keys_def)
next
  case (Cons e es)
  have "camera_keys (e # es) this = camera_keys es (camera_key e this)"
    by (simp add: camera_keys_def)
  with Cons.IH [of "camera_key e this"] show ?case
    by (cases e) (simp_all add: camera_rotate_down, simp add: camera_rotate_def)
qed

lemma axis_after_release: "axis_after keys (es @ [KeyUp k]) v = 0"
proof (induction es arbitrary: v)
  case (Cons e es)
  then show ?case by (cases e) simp_all
qed simp

text \<open>C20: the keyboard drives five independent axes; each is where the last of its own keys since the
  last release of any key has put it, and releasing one key stops every motion even while another
  key is still held down.\<close>

theorem keyboard_axes:
  shows "camera_keys es this = this
     \<lparr>cam_x := axis_after x_keys es (cam_x this), cam_y := axis_after y_keys es (cam_y this),
      cam_z := axis_after z_keys es (cam_z this), cam_px := axis_after px_keys es (cam_px this),
      cam_pz := axis_after pz_keys es (cam_pz this)\<rparr> \<and>
    camera_keys (es @ [KeyUp k]) this =
      this\<lparr>cam_x := 0, cam_y := 0, cam_z := 0, cam_px := 0, cam_pz := 0\<rparr>"
  by (simp only: camera_keys_axes axis_after_release)

section \<open>Motion of the camera\<close>

fun camera_moves :: "'a glm_scheme \<Rightarrow> nat \<Rightarrow> camera \<Rightarrow> camera" where
  "camera_moves P 0 this = this"
| "camera_moves P (Suc n) this = camera_moves P n (this\<lparr>cameraMatrix := camera_move P this\<rparr>)"

text \<open>A camera all of whose control values are finite and whose matrix is good.\<close>

definition camera_good :: "(mat \<Rightarrow> bool) \<Rightarrow> camera \<Rightarrow> bool" where
  "camera_good ok this \<longleftrightarrow> ok (cameraMatrix this) \<and>
     list_all finite_number [cam_x this, cam_y this, cam_z this, cam_px this, cam_pz this]"

lemma camera_key_fields:
  "cameraMatrix (camera_key e this) = cameraMatrix this"
  "fovRadian (camera_key e this) = fovRadian this"
  by (cases e; simp add: camera_rotate_def Let_def)+

lemma camera_key_good: "camera_good ok this \<Longrightarrow> camera_good ok (camera_key e this)"
  by (cases e) (auto simp: camera_good_def camera_rotate_def Let_def num_simps)

lemma moves_camera_fields:
  "cam_x (camera_moves P n this) = cam_x this \<and> cam_y (camera_moves P n this) = cam_y this \<and>
   cam_z (camera_moves P n this) = cam_z this \<and> cam_px (camera_moves P n this) = cam_px this \<and>
   cam_pz (camera_moves P n this) = cam_pz this"
  by (induction n arbitrary: this) simp_all

context gl_matrix
begin

lemma camera_move_ok: "camera_good ok this \<Longrightarrow> ok (camera_move P this)"
  by (auto simp: camera_good_def camera_move_def finite_number_iff Let_def vec3_values zero_number_def
      intro!: translate_ok rotateX_ok rotateY_ok rotateZ_ok)

lemma new_camera_good: "camera_good ok (new_camera P)"
  by (simp add: camera_good_def new_camera_def Let_def vec3_values num_simps translate_ok create_ok)

lemma camera_pan:
  assumes "ok (cameraMatrix this)" and "cam_x this = 0" and "cam_y this = 0" and "cam_z this = 0"
    and "cam_px this = Fin p" and "cam_pz this = Fin q"
  shows "cameraMatrix (camera_moves P n this) =
    mat4_translate P (cameraMatrix this) [Fin (real n * p), Fin 0, Fin (real n * q)]"
  using assms
proof (induction n arbitrary: this)
  case 0
  then show ?case by (simp add: translate_0)
next
  case (Suc n)
  let ?m = "mat4_translate P (cameraMatrix this) [Fin p, Fin 0, Fin q]"
  have m: "camera_move P this = ?m"
    using Suc.prems
    by (simp add: camera_move_def Let_def vec3_values num_simps translate_ok rotateX_0 rotateY_0 rotateZ_0)
  have "cameraMatrix (camera_moves P n (this\<lparr>cameraMatrix := ?m\<rparr>)) =
      mat4_translate P ?m [Fin (real n * p), Fin 0, Fin (real n * q)]"
    using Suc.IH [of "this\<lparr>cameraMatrix := ?m\<rparr>"] Suc.prems by (simp add: translate_ok)
  with Suc.prems m show ?case by (simp add: translate_add algebra_simps)
qed

text \<open>A motion that only turns about one axis.\<close>

lemma camera_turn:
  assumes "\<And>m. ok m \<Longrightarrow> camera_move P (this\<lparr>cameraMatrix := m\<rparr>) = rot m (Fin a)"
    and "\<And>m b. ok m \<Longrightarrow> ok (rot m (Fin b))"
    and "\<And>m b c. ok m \<Longrightarrow> rot (rot m (Fin b)) (Fin c) = rot m (Fin (b + c))"
    and "\<And>m. ok m \<Longrightarrow> rot m (Fin 0) = m"
    and "ok (cameraMatrix this)"
  shows "cameraMatrix (camera_moves P n this) = rot (cameraMatrix this) (Fin (real n * a))"
  using assms
proof (induction n arbitrary: this)
  case 0
  then show ?case by simp
next
  case (Suc n)
  let ?m = "rot (cameraMatrix this) (Fin a)"
  have m: "camera_move P this = ?m" using Suc.prems(1) [OF Suc.prems(5)] by simp
  have "cameraMatrix (camera_moves P n (this\<lparr>cameraMatrix := ?m\<rparr>)) = rot ?m (Fin (real n * a))"
    using Suc.IH [of "this\<lparr>cameraMatrix := ?m\<rparr>"] Suc.prems by simp
  with Suc.prems m show ?case by (simp add: algebra_simps)
qed

end

text \<open>A key held for some frames and then released.\<close>

definition hold :: "'a glm_scheme \<Rightarrow> string \<Rightarrow> nat \<Rightarrow> camera \<Rightarrow> camera" where
  "hold P k n this = camera_key (KeyUp k) (camera_moves P n (camera_key (KeyDown k) this))"

lemma hold_matrix: "cameraMatrix (hold P k n this) = cameraMatrix (camera_moves P n (camera_rotate k 1 this))"
  by (simp add: hold_def camera_rotate_def)

definition camera_at_rest :: "camera \<Rightarrow> bool" where
  "camera_at_rest this \<longleftrightarrow> list_all (\<lambda>v. v = 0) [cam_x this, cam_y this, cam_z this, cam_px this, cam_pz this]"

text \<open>The keys of opposite directions.\<close>

definition opposite_keys :: "(string \<times> string) list" where
  "opposite_keys = [(''ArrowRight'', ''ArrowLeft''), (''ArrowDown'', ''ArrowUp''), (''s'', ''w''), (''a'', ''d''),
     (''q'', ''e'')]"

lemma hold_at_rest: "camera_at_rest (hold P k n this)"
  by (simp add: hold_def camera_at_rest_def camera_rotate_def)

context gl_matrix
begin

lemma hold_pan:
  assumes "ok (cameraMatrix this)" and "camera_at_rest this"
    and "x_keys k = None" and "y_keys k = None" and "z_keys k = None"
    and "case_option 0 id (px_keys k) = Fin p" and "case_option 0 id (pz_keys k) = Fin q"
  shows "cameraMatrix (hold P k n this) =
    mat4_translate P (cameraMatrix this) [Fin (real n * p), Fin 0, Fin (real n * q)]"
  unfolding hold_matrix camera_rotate_down
  by (subst camera_pan [where p = p and q = q])
    (use assms in \<open>auto simp: camera_at_rest_def split: option.splits\<close>)

lemma hold_turn:
  assumes "ok (cameraMatrix this)" and "camera_at_rest this" and "px_keys k = None" and "pz_keys k = None"
  shows "x_keys k = Some (Fin a) \<Longrightarrow> y_keys k = None \<Longrightarrow> z_keys k = None \<Longrightarrow>
      cameraMatrix (hold P k n this) = mat4_rotateX P (cameraMatrix this) (Fin (real n * a))"
    and "x_keys k = None \<Longrightarrow> y_keys k = Some (Fin a) \<Longrightarrow> z_keys k = None \<Longrightarrow>
      cameraMatrix (hold P k n this) = mat4_rotateY P (cameraMatrix this) (Fin (real n * a))"
    and "x_keys k = None \<Longrightarrow> y_keys k = None \<Longrightarrow> z_keys k = Some (Fin a) \<Longrightarrow>
      cameraMatrix (hold P k n this) = mat4_rotateZ P (cameraMatrix this) (Fin (real n * a))"
proof -
  let ?k = "camera_rotate k 1 this"
  have km: "cameraMatrix ?k = cameraMatrix this" by (simp add: camera_rotate_down)
  then have ok: "ok (cameraMatrix ?k)" using assms(1) by simp
  note move = camera_move_def camera_rotate_down camera_at_rest_def Let_def vec3_values zero_number_def
  show "cameraMatrix (hold P k n this) = mat4_rotateX P (cameraMatrix this) (Fin (real n * a))"
    if "x_keys k = Some (Fin a)" "y_keys k = None" "z_keys k = None"
  proof -
    have "camera_move P (?k\<lparr>cameraMatrix := m\<rparr>) = mat4_rotateX P m (Fin a)" if "ok m" for m
      using that \<open>x_keys k = Some (Fin a)\<close> \<open>y_keys k = None\<close> \<open>z_keys k = None\<close> assms by (simp add: move translate_0 rotateX_ok rotateY_0 rotateZ_0)
    from camera_turn [of ?k "mat4_rotateX P", OF this rotateX_ok rotateX_add rotateX_0 ok] km show ?thesis
      by (simp add: hold_matrix)
  qed
  show "cameraMatrix (hold P k n this) = mat4_rotateY P (cameraMatrix this) (Fin (real n * a))"
    if "x_keys k = None" "y_keys k = Some (Fin a)" "z_keys k = None"
  proof -
    have "camera_move P (?k\<lparr>cameraMatrix := m\<rparr>) = mat4_rotateY P m (Fin a)" if "ok m" for m
      using that \<open>x_keys k = None\<close> \<open>y_keys k = Some (Fin a)\<close> \<open>z_keys k = None\<close> assms by (simp add: move translate_0 rotateX_0 rotateY_ok rotateZ_0)
    from camera_turn [of ?k "mat4_rotateY P", OF this rotateY_ok rotateY_add rotateY_0 ok] km show ?thesis
      by (simp add: hold_matrix)
  qed
  show "cameraMatrix (hold P k n this) = mat4_rotateZ P (cameraMatrix this) (Fin (real n * a))"
    if "x_keys k = None" "y_keys k = None" "z_keys k = Some (Fin a)"
  proof -
    have "camera_move P (?k\<lparr>cameraMatrix := m\<rparr>) = mat4_rotateZ P m (Fin a)" if "ok m" for m
      using that \<open>x_keys k = None\<close> \<open>y_keys k = None\<close> \<open>z_keys k = Some (Fin a)\<close> assms by (simp add: move translate_0 rotateX_0 rotateY_0 rotateZ_ok)
    from camera_turn [of ?k "mat4_rotateZ P", OF this rotateZ_ok rotateZ_add rotateZ_0 ok] km show ?thesis
      by (simp add: hold_matrix)
  qed
qed

text \<open>What each of the ten keys does to a resting camera when it is held for \<open>n\<close> frames.\<close>

lemma hold_arrows:
  assumes "ok (cameraMatrix this)" and "camera_at_rest this"
  shows "cameraMatrix (hold P ''ArrowRight'' n this) =
      mat4_translate P (cameraMatrix this) [Fin (real n * 10), Fin 0, Fin 0]"
    and "cameraMatrix (hold P ''ArrowLeft'' n this) =
      mat4_translate P (cameraMatrix this) [Fin (- (real n * 10)), Fin 0, Fin 0]"
    and "cameraMatrix (hold P ''ArrowDown'' n this) =
      mat4_translate P (cameraMatrix this) [Fin 0, Fin 0, Fin (real n * 10)]"
    and "cameraMatrix (hold P ''ArrowUp'' n this) =
      mat4_translate P (cameraMatrix this) [Fin 0, Fin 0, Fin (- (real n * 10))]"
  using hold_pan [OF assms, of "''ArrowRight''" 10 0 n] hold_pan [OF assms, of "''ArrowLeft''" "- 10" 0 n]
    hold_pan [OF assms, of "''ArrowDown''" 0 10 n] hold_pan [OF assms, of "''ArrowUp''" 0 "- 10" n]
  by (simp_all add: axis_keys num_simps)

lemma hold_letters:
  assumes "ok (cameraMatrix this)" and "camera_at_rest this"
  shows "cameraMatrix (hold P ''s'' n this) = mat4_rotateX P (cameraMatrix this) (Fin (real n * 0.05))"
    and "cameraMatrix (hold P ''w'' n this) = mat4_rotateX P (cameraMatrix this) (Fin (- (real n * 0.05)))"
    and "cameraMatrix (hold P ''a'' n this) = mat4_rotateY P (cameraMatrix this) (Fin (real n * 0.05))"
    and "cameraMatrix (hold P ''d'' n this) = mat4_rotateY P (cameraMatrix this) (Fin (- (real n * 0.05)))"
    and "cameraMatrix (hold P ''q'' n this) = mat4_rotateZ P (cameraMatrix this) (Fin (real n * 0.05))"
    and "cameraMatrix (hold P ''e'' n this) = mat4_rotateZ P (cameraMatrix this) (Fin (- (real n * 0.05)))"
  using hold_turn(1) [OF assms, of "''s''" "0.05" n] hold_turn(1) [OF assms, of "''w''" "- 0.05" n]
    hold_turn(2) [OF assms, of "''a''" "0.05" n] hold_turn(2) [OF assms, of "''d''" "- 0.05" n]
    hold_turn(3) [OF assms, of "''q''" "0.05" n] hold_turn(3) [OF assms, of "''e''" "- 0.05" n]
  by (simp_all add: axis_keys)

lemma hold_there_and_back:
  assumes "ok (cameraMatrix this)" and "camera_at_rest this" and "(k, k') \<in> set opposite_keys"
  shows "cameraMatrix (hold P k' n (hold P k n this)) = cameraMatrix this"
    and "cameraMatrix (hold P k n (hold P k' n this)) = cameraMatrix this"
  using assms
  by (auto simp: opposite_keys_def hold_arrows hold_letters hold_at_rest translate_ok rotateX_ok rotateY_ok
      rotateZ_ok translate_add rotateX_add rotateY_add rotateZ_add translate_0 rotateX_0 rotateY_0 rotateZ_0)

lemma camera_rests:
  assumes "ok (cameraMatrix this)" and "camera_at_rest this"
  shows "cameraMatrix (camera_moves P n this) = cameraMatrix this"
  using camera_pan [OF assms(1), of 0 0 n] assms by (simp add: camera_at_rest_def zero_number_def translate_0)

end

text \<open>A frame of the camera: the matrix moves and the projection is uploaded.\<close>

lemma camera_draw_frame:
  fixes P :: "'z platform_scheme" and w :: "'b page_scheme"
  assumes "gl_matrix P ok" and "page_ready P ws w" and "camera_good ok this"
  shows "\<exists>view. mat4_invert P (camera_move P this) = Some view \<and>
    (let proj = mat4_mul P (mat4_perspective P (js_rem (fovRadian this) js_PI)
         (Fin (real (canvas_width ws)) / Fin (real (canvas_height ws))) 1 1000) view
     in camera_draw P this w =
       Inr (this\<lparr>cameraMatrix := camera_move P this, cam_projection := Some proj\<rparr>,
            on_gl (setUniform (Some ''uProjectionMatrix'') (UMat proj)) w))"
proof -
  obtain view where v: "mat4_invert P (camera_move P this) = Some view"
    using gl_matrix.invert_some [OF assms(1) gl_matrix.camera_move_ok [OF assms(1,3)]] by blast
  have "pMatrixUniform ws = Some ''uProjectionMatrix''"
    using assms(2) by (simp add: page_ready_def gl_ready_def)
  with v show ?thesis
    by (simp add: camera_draw_def page_ready_getInstance [OF assms(2)] Let_def)
qed

context gl_matrix_nan
begin

lemma camera_move_lost: "lost (cameraMatrix this) \<Longrightarrow> lost (camera_move P this)"
  by (simp add: camera_move_def Let_def translate_lost rotateX_lost rotateY_lost rotateZ_lost)

end

text \<open>A camera whose matrix is lost: its next frame raises, before anything is uploaded.\<close>

lemma camera_draw_lost:
  fixes P :: "'z platform_scheme" and w :: "'b page_scheme"
  assumes "gl_matrix_nan P ok lost" and "lost (cameraMatrix this)" and "page_ready P ws w"
  shows "camera_draw P this w = Inl TypeError"
proof -
  have "mat4_invert P (camera_move P this) = None"
    using assms(1,2) by (simp add: gl_matrix_nan.camera_move_lost gl_matrix_nan.invert_lost)
  then show ?thesis by (simp add: camera_draw_def page_ready_getInstance [OF assms(3)] Let_def)
qed

text \<open>C23: the key of a direction held for \<open>n\<close> frames and then the key of the opposite direction held as
  long bring a resting camera back, for each of the five directions and from either of its ends:
  right pans by ten units per frame, down moves back by ten, \<open>s\<close>, \<open>a\<close> and \<open>q\<close> turn by 0.05 about the
  three axes, their opposites undo it.  A camera at rest does not drift.\<close>

theorem camera_there_and_back:
  assumes "gl_matrix P ok" and "ok (cameraMatrix this)" and "camera_at_rest this"
    and "(k, k') \<in> set [(''ArrowRight'', ''ArrowLeft''), (''ArrowDown'', ''ArrowUp''), (''s'', ''w''), (''a'', ''d''), (''q'', ''e'')]"
  shows "cameraMatrix (hold P k' n (hold P k n this)) = cameraMatrix this \<and>
    cameraMatrix (hold P k n (hold P k' n this)) = cameraMatrix this \<and>
    cameraMatrix (hold P ''ArrowRight'' n this) =
      mat4_translate P (cameraMatrix this) [Fin (real n * 10), Fin 0, Fin 0] \<and>
    cameraMatrix (hold P ''ArrowDown'' n this) =
      mat4_translate P (cameraMatrix this) [Fin 0, Fin 0, Fin (real n * 10)] \<and>
    cameraMatrix (hold P ''s'' n this) = mat4_rotateX P (cameraMatrix this) (Fin (real n * 0.05)) \<and>
    cameraMatrix (hold P ''a'' n this) = mat4_rotateY P (cameraMatrix this) (Fin (real n * 0.05)) \<and>
    cameraMatrix (hold P ''q'' n this) = mat4_rotateZ P (cameraMatrix this) (Fin (real n * 0.05)) \<and>
    cameraMatrix (camera_moves P n this) = cameraMatrix this"
  using gl_matrix.hold_there_and_back [OF assms(1-3) assms(4) [folded opposite_keys_def]]
    gl_matrix.hold_arrows(1,3) [OF assms(1-3)] gl_matrix.hold_letters(1,3,5) [OF assms(1-3)]
    gl_matrix.camera_rests [OF assms(1-3)] by simp

theorem camera_there_and_back_witness:
  "let this = new_camera ref_platform; n = 30 in
    cameraMatrix (hold ref_platform ''w'' n (hold ref_platform ''s'' n this)) = cameraMatrix this \<and>
    cameraMatrix (hold ref_platform ''q'' n this) = mat4_rotateZ ref_platform (cameraMatrix this) (Fin (real n * 0.05)) \<and>
    cameraMatrix (camera_moves ref_platform n this) = cameraMatrix this"
proof -
  have ok_start: "affine_ok (cameraMatrix (new_camera ref_platform))"
    using refp.new_camera_good by (simp add: camera_good_def)
  have rest: "camera_at_rest (new_camera ref_platform)" by (simp add: new_camera_def camera_at_rest_def Let_def)
  from camera_there_and_back [OF refp.gl_matrix_axioms ok_start rest, of "''s''" "''w''" 30] show ?thesis
    by (simp add: Let_def)
qed

end
