(* ===== verification/GameController.thy ===== *)
theory GameController
  imports Camera
begin

text \<open>
  \<open>GameController\<close> (src/keyboard/gamecontroller.ts): the two gamepad events, the buttons and the
  sticks.  The browser's array \<open>navigator.getGamepads()\<close> is an argument; the camera is changed
  through its matrix, which the class fetches, overwrites in place and stores back.
\<close>

section \<open>The class\<close>

datatype button = ButtonObject bool number | ButtonNumber number

record gamepad =
  gp_index :: nat
  gp_buttons :: "button list"
  gp_axes :: "number list"

record gp =
  gp_connected :: bool
  gp_controller :: "gamepad option"

text \<open>\<open>registerEvents\<close>: \<open>connected\<close> is undefined at that time, which counts as false.\<close>

definition pad_at :: "gamepad option list \<Rightarrow> nat \<Rightarrow> gamepad option" where
  "pad_at pads i = (case js_nth pads i of Some (Some g) \<Rightarrow> Some g | _ \<Rightarrow> None)"

definition registerEvents :: "gamepad option list \<Rightarrow> gp" where
  "registerEvents pads = \<lparr>gp_connected = False, gp_controller = pad_at pads 0\<rparr>"

definition connecthandler :: "gamepad option list \<Rightarrow> gamepad \<Rightarrow> gp \<Rightarrow> gp" where
  "connecthandler pads gamepad g =
     g\<lparr>gp_controller := pad_at pads (gp_index gamepad), gp_connected := True\<rparr>"

definition disconnecthandler :: "gamepad \<Rightarrow> gp \<Rightarrow> gp result" where
  "disconnecthandler gamepad g =
     andThen (deref (gp_controller g)) (\<lambda>controller.
       if gp_index controller = gp_index gamepad
       then Inr (g\<lparr>gp_connected := False, gp_controller := None\<rparr>)
       else Inr g)"

definition isConnected :: "gp \<Rightarrow> bool" where
  "isConnected g = gp_connected g"

definition buttonAction :: "'a glm_scheme \<Rightarrow> nat \<Rightarrow> mat \<Rightarrow> mat" where
  "buttonAction P buttonidx camera =
     (let camera1 = (if buttonidx = 5 then mat4_rotateZ P camera (- Fin 0.1) else camera)
      in if buttonidx = 4 then mat4_rotateZ P camera1 (Fin 0.1) else camera1)"

definition axesAction :: "'a glm_scheme \<Rightarrow> number list \<Rightarrow> mat \<Rightarrow> mat" where
  "axesAction P axes camera =
     (let m1 = mat4_translate P camera (vec3_fromValues P (js_at axes 0 * 10) 0 (js_at axes 1 * 10));
          m2 = mat4_rotateY P m1 (- js_at axes 3 / 10)
      in mat4_rotateX P m2 (- js_at axes 4 / 10))"

fun pressed :: "button \<Rightarrow> bool" where
  "pressed (ButtonObject p v) = p"
| "pressed (ButtonNumber v) = False"

text \<open>\<open>buttons.forEach\<close> from the button with number \<open>i\<close> on.\<close>

fun buttonActions :: "'a glm_scheme \<Rightarrow> nat \<Rightarrow> button list \<Rightarrow> mat \<Rightarrow> mat" where
  "buttonActions P i [] camera = camera"
| "buttonActions P i (b # bs) camera =
     buttonActions P (Suc i) bs (if pressed b then buttonAction P i camera else camera)"

definition updateStatus :: "'a glm_scheme \<Rightarrow> gp \<Rightarrow> mat \<Rightarrow> mat result" where
  "updateStatus P g camera =
     (if \<not> isConnected g then Inr camera
      else andThen (deref (gp_controller g)) (\<lambda>controller.
        let camera1 = buttonActions P 0 (gp_buttons controller) camera
        in Inr (axesAction P (gp_axes controller) camera1)))"

section \<open>The events as a state machine\<close>

text \<open>
  The browser fires \<open>gamepadconnected\<close> for a pad that is in its array, \<open>gamepaddisconnected\<close> for any
  pad, and updates the pad object the class holds.  A handler that raises leaves the state alone.
\<close>

inductive pad_step :: "gp \<Rightarrow> gp \<Rightarrow> bool" where
  connected: "pad_at pads (gp_index pad) = Some pad \<Longrightarrow> pad_step g (connecthandler pads pad g)"
| disconnected: "disconnecthandler pad g = Inr g' \<Longrightarrow> pad_step g g'"
| raised: "disconnecthandler pad g = Inl e \<Longrightarrow> pad_step g g"
| updated: "gp_controller g = Some pad \<Longrightarrow> gp_index pad' = gp_index pad \<Longrightarrow>
    pad_step g (g\<lparr>gp_controller := Some pad'\<rparr>)"

inductive_cases pad_stepE: "pad_step g g'"

inductive pad_reachable :: "gp \<Rightarrow> bool" where
  start: "pad_reachable (registerEvents pads)"
| step: "pad_reachable g \<Longrightarrow> pad_step g g' \<Longrightarrow> pad_reachable g'"

definition pad_inv :: "gp \<Rightarrow> bool" where
  "pad_inv g \<longleftrightarrow> (gp_connected g \<longrightarrow> gp_controller g \<noteq> None)"

lemma disconnecthandler_Inr:
  "disconnecthandler pad g = Inr g' \<Longrightarrow> g' = g \<or> g' = g\<lparr>gp_connected := False, gp_controller := None\<rparr>"
  by (auto simp: disconnecthandler_def andThen_eq_Inr split: if_splits)

lemma pad_step_inv: "pad_step g g' \<Longrightarrow> pad_inv g \<Longrightarrow> pad_inv g'"
  by (erule pad_stepE) (auto simp: pad_inv_def connecthandler_def dest: disconnecthandler_Inr)

lemma pad_reachable_inv: "pad_reachable g \<Longrightarrow> pad_inv g"
proof (induction rule: pad_reachable.induct)
  case (start pads)
  show ?case by (simp add: pad_inv_def registerEvents_def)
next
  case (step g g')
  then show ?case by (blast intro: pad_step_inv)
qed

text \<open>
  A pad with the axes the class reads, 0, 1, 3 and 4: it has five axes at least, and their values are
  finite.  A pad in the standard layout has four axes only.
\<close>

definition pad_good :: "gamepad \<Rightarrow> bool" where
  "pad_good pad \<longleftrightarrow> 5 \<le> length (gp_axes pad) \<and> list_all finite_number (gp_axes pad)"

lemma pad_good_axis: "pad_good pad \<Longrightarrow> i \<le> 4 \<Longrightarrow> \<exists>x. js_at (gp_axes pad) i = Fin x"
  by (simp add: pad_good_def js_at_def list_all_length finite_number_iff)

context gl_matrix
begin

lemma buttonAction_ok: "ok m \<Longrightarrow> ok (buttonAction P i m)"
  by (simp add: buttonAction_def Let_def rotateZ_ok num_simps)

lemma buttonActions_ok: "ok m \<Longrightarrow> ok (buttonActions P i bs m)"
  by (induction bs arbitrary: i m) (simp_all add: buttonAction_ok)

lemma axesAction_ok:
  assumes "ok m" and "pad_good pad"
  shows "ok (axesAction P (gp_axes pad) m)"
proof -
  obtain a b c d where ax: "js_at (gp_axes pad) 0 = Fin a" "js_at (gp_axes pad) 1 = Fin b"
      "js_at (gp_axes pad) 3 = Fin c" "js_at (gp_axes pad) 4 = Fin d"
    using pad_good_axis [OF assms(2), of 0] pad_good_axis [OF assms(2), of 1]
      pad_good_axis [OF assms(2), of 3] pad_good_axis [OF assms(2), of 4] by auto
  show ?thesis
    unfolding axesAction_def ax
    by (simp add: Let_def num_simps vec3_values translate_ok rotateY_ok rotateX_ok assms(1))
qed

lemma updateStatus_returns: "pad_inv g \<Longrightarrow> \<exists>m'. updateStatus P g m = Inr m'"
  by (auto simp: updateStatus_def isConnected_def pad_inv_def Let_def)

lemma updateStatus_good:
  assumes "pad_inv g" and "ok m" and "gp_connected g \<Longrightarrow> pad_good (the (gp_controller g))"
  shows "\<exists>m'. updateStatus P g m = Inr m' \<and> ok m'"
  using assms
  by (auto simp: updateStatus_def isConnected_def pad_inv_def Let_def axesAction_ok buttonActions_ok)

end

context gl_matrix_nan
begin

lemma axesAction_lost: "length axes \<le> 4 \<Longrightarrow> lost (axesAction P axes m)"
  by (simp add: axesAction_def Let_def js_at_out rotateX_nan)

lemma updateStatus_lost:
  assumes "gp_connected g" and "gp_controller g = Some pad" and "length (gp_axes pad) \<le> 4"
  shows "\<exists>m'. updateStatus P g m = Inr m' \<and> lost m'"
  using assms by (simp add: updateStatus_def isConnected_def Let_def axesAction_lost)

end

text \<open>C19: after any sequence of gamepad events \<open>updateStatus\<close> finds the controller it reads, so it
  returns, and when the pad that is connected has at least five axes, all with finite values, it keeps
  the camera's matrix finite and invertible.  A pad with fewer axes does not: see Application.\<close>

theorem gamepad_update_safe:
  assumes "gl_matrix P ok" and "pad_reachable g" and "ok m"
  shows "\<exists>m'. updateStatus P g m = Inr m' \<and>
    ((gp_connected g \<longrightarrow> pad_good (the (gp_controller g))) \<longrightarrow> ok m')"
proof (cases "gp_connected g \<longrightarrow> pad_good (the (gp_controller g))")
  case True
  with gl_matrix.updateStatus_good [OF assms(1) pad_reachable_inv [OF assms(2)] assms(3)] show ?thesis by blast
next
  case False
  with gl_matrix.updateStatus_returns [OF assms(1) pad_reachable_inv [OF assms(2)]] show ?thesis by blast
qed

definition ref_pad :: gamepad where
  "ref_pad = \<lparr>gp_index = 0, gp_buttons = [ButtonObject False 0, ButtonNumber 1, ButtonObject True 1],
     gp_axes = [0, Fin 0.5, 0, 1, 0, 0]\<rparr>"

lemma ref_pad_good: "pad_good ref_pad"
  by (simp add: pad_good_def ref_pad_def num_simps)

theorem gamepad_update_safe_witness:
  "\<exists>m'. updateStatus ref_platform (connecthandler [Some ref_pad] ref_pad (registerEvents [None]))
      (mat4_create ref_platform) = Inr m' \<and> affine_ok m'"
proof -
  let ?g = "connecthandler [Some ref_pad] ref_pad (registerEvents [None])"
  have p: "pad_at [Some ref_pad] (gp_index ref_pad) = Some ref_pad" by (simp add: pad_at_def ref_pad_def)
  then have "pad_step (registerEvents [None]) ?g" by (rule connected)
  with pad_reachable.start have "pad_reachable ?g" by (rule pad_reachable.step)
  from gamepad_update_safe [OF refp.gl_matrix_axioms this refp.create_ok] show ?thesis
    using p ref_pad_good by (auto simp: connecthandler_def)
qed

text \<open>C38: with two pads the handlers go wrong: the pad connected last is the one that is kept, and when
  it is disconnected first, the event for the other one dereferences the deleted controller.\<close>

theorem gamepad_two_pads:
  assumes "gp_index a \<noteq> gp_index b" and "pad_at pads (gp_index a) = Some a"
    and "pad_at pads (gp_index b) = Some b"
  shows "\<exists>g. disconnecthandler b (connecthandler pads b (connecthandler pads a g0)) = Inr g \<and>
    pad_step\<^sup>*\<^sup>* g0 g \<and> \<not> isConnected g \<and> disconnecthandler a g = Inl TypeError"
proof -
  let ?g2 = "connecthandler pads b (connecthandler pads a g0)"
  let ?g = "?g2\<lparr>gp_connected := False, gp_controller := None\<rparr>"
  have d: "disconnecthandler b ?g2 = Inr ?g"
    using assms(3) by (simp add: disconnecthandler_def connecthandler_def)
  have "pad_step g0 (connecthandler pads a g0)" "pad_step (connecthandler pads a g0) ?g2" "pad_step ?g2 ?g"
    using assms(2,3) d by (auto intro: pad_step.intros)
  then have "pad_step\<^sup>*\<^sup>* g0 ?g" by (meson rtranclp.rtrancl_into_rtrancl rtranclp.rtrancl_refl)
  with d show ?thesis
    by (auto simp: isConnected_def disconnecthandler_def)
qed

theorem gamepad_two_pads_witness:
  "\<exists>g. disconnecthandler (ref_pad\<lparr>gp_index := 1\<rparr>)
      (connecthandler [Some ref_pad, Some (ref_pad\<lparr>gp_index := 1\<rparr>)] (ref_pad\<lparr>gp_index := 1\<rparr>)
        (connecthandler [Some ref_pad, Some (ref_pad\<lparr>gp_index := 1\<rparr>)] ref_pad (registerEvents []))) = Inr g \<and>
    pad_step\<^sup>*\<^sup>* (registerEvents []) g \<and> \<not> isConnected g \<and> disconnecthandler ref_pad g = Inl TypeError"
  by (rule gamepad_two_pads) (simp_all add: ref_pad_def pad_at_def)

end
