(* ===== verification/Lighting.thy ===== *)
theory Lighting
  imports RefPlatform
begin

text \<open>
  The nodes that only set state for the shaders: \<open>Light\<close> and \<open>Material\<close> (src/materiallights) and
  \<open>Texture\<close> (src/texture/texture.ts), whose image arrives later, in an event of its own.
\<close>

section \<open>Light\<close>

record light =
  l_position :: vec
  l_worldposition :: vec
  l_ambient :: vec
  l_diffuse :: vec
  l_specular :: vec
  isDirectionalLight :: bool
  lightPosition :: "string option"
  lightAmbient :: "string option"
  lightDiffuse :: "string option"
  lightSpecular :: "string option"

definition uniform_location ::
    "'a platform_scheme \<Rightarrow> webgl_start \<Rightarrow> string \<Rightarrow> 'b page_scheme \<Rightarrow> string option \<times> 'b page_scheme" where
  "uniform_location P ws name w =
     (case getUniformLocation P (shaderProgram ws) name (gl w) of (loc, s) \<Rightarrow> (loc, w\<lparr>gl := s\<rparr>))"

definition new_light ::
    "'a platform_scheme \<Rightarrow> vec \<Rightarrow> vec \<Rightarrow> vec \<Rightarrow> vec \<Rightarrow> 'b page_scheme \<Rightarrow> (light \<times> 'b page_scheme) result" where
  "new_light P position ambient diffuse specular w =
     (let pos = vec4_set P (js_at position 0) (js_at position 1) (js_at position 2) (js_at position 3);
          world = vec4_clone P pos;
          directional = (js_at pos 3 = 0);
          pos1 = (if directional then pos[3 := 1] else pos)
      in andThen (getInstance P w) (\<lambda>(startGL, w1).
        let (lp, w2) = uniform_location P startGL ''uLightPosition'' w1;
            (la, w3) = uniform_location P startGL ''uLightAmbient'' w2;
            (ld, w4) = uniform_location P startGL ''uLightDiffuse'' w3;
            (ls, w5) = uniform_location P startGL ''uLightSpecular'' w4
        in Inr (\<lparr>l_position = pos1, l_worldposition = world, l_ambient = ambient, l_diffuse = diffuse,
              l_specular = specular, isDirectionalLight = directional, lightPosition = lp,
              lightAmbient = la, lightDiffuse = ld, lightSpecular = ls\<rparr>, w5)))"

definition updatePosition :: "'a glm_scheme \<Rightarrow> mat \<Rightarrow> light \<Rightarrow> light" where
  "updatePosition P mvMatrix this =
     (let world = mat4_mul_cast P mvMatrix (l_position this)
      in this\<lparr>l_worldposition := (if isDirectionalLight this then world[3 := 0] else world)\<rparr>)"

definition light_draw :: "'a platform_scheme \<Rightarrow> light \<Rightarrow> 'b page_scheme \<Rightarrow> 'b page_scheme result" where
  "light_draw P this w =
     andThen (getInstance P w) (\<lambda>(_, w1). Inr (on_gl (\<lambda>s0.
       let s1 = setUniform (lightPosition this) (UVec (l_worldposition this)) s0;
           s2 = setUniform (lightAmbient this) (UVec (l_ambient this)) s1;
           s3 = setUniform (lightDiffuse this) (UVec (l_diffuse this)) s2
       in setUniform (lightSpecular this) (UVec (l_specular this)) s3) w1))"

section \<open>Material\<close>

record material =
  m_emission :: vec
  m_ambient :: vec
  m_diffuse :: vec
  m_specular :: vec
  m_shininess :: number
  materialEmission :: "string option"
  materialAmbient :: "string option"
  materialDiffuse :: "string option"
  materialSpecular :: "string option"
  materialShininess :: "string option"

definition new_material ::
    "'a platform_scheme \<Rightarrow> vec \<Rightarrow> vec \<Rightarrow> vec \<Rightarrow> vec \<Rightarrow> number \<Rightarrow> 'b page_scheme \<Rightarrow>
     (material \<times> 'b page_scheme) result" where
  "new_material P emission ambient diffuse specular shininess w =
     andThen (getInstance P w) (\<lambda>(startGL, w1).
       let (me, w2) = uniform_location P startGL ''uMaterialEmission'' w1;
           (ma, w3) = uniform_location P startGL ''uMaterialAmbient'' w2;
           (md, w4) = uniform_location P startGL ''uMaterialDiffuse'' w3;
           (ms, w5) = uniform_location P startGL ''uMaterialSpecular'' w4;
           (mh, w6) = uniform_location P startGL ''uMaterialShininess'' w5
       in Inr (\<lparr>m_emission = emission, m_ambient = ambient, m_diffuse = diffuse, m_specular = specular,
             m_shininess = shininess, materialEmission = me, materialAmbient = ma, materialDiffuse = md,
             materialSpecular = ms, materialShininess = mh\<rparr>, w6))"

definition material_draw :: "'a platform_scheme \<Rightarrow> material \<Rightarrow> 'b page_scheme \<Rightarrow> 'b page_scheme result" where
  "material_draw P this w =
     andThen (getInstance P w) (\<lambda>(_, w1). Inr (on_gl (\<lambda>s0.
       let s1 = setUniform (materialEmission this) (UVec (m_emission this)) s0;
           s2 = setUniform (materialAmbient this) (UVec (m_ambient this)) s1;
           s3 = setUniform (materialDiffuse this) (UVec (m_diffuse this)) s2;
           s4 = setUniform (materialSpecular this) (UVec (m_specular this)) s3
       in setUniform (materialShininess this) (UFloat (m_shininess this)) s4) w1))"

section \<open>Texture\<close>

record texture_node =
  tx_texture :: handle
  tx_src :: string

definition new_texture ::
    "'a platform_scheme \<Rightarrow> string \<Rightarrow> 'b page_scheme \<Rightarrow> (texture_node \<times> 'b page_scheme) result" where
  "new_texture P src w =
     andThen (getInstance P w) (\<lambda>(_, w1).
       case new_on_gl createTexture w1 of
         (t, w2) \<Rightarrow> Inr (\<lparr>tx_texture = t, tx_src = src\<rparr>, w2))"

text \<open>\<open>loadTexture\<close>, which the \<open>onload\<close> handler calls with an image of the given width and height.\<close>

definition loadTexture ::
    "'a platform_scheme \<Rightarrow> nat \<times> nat \<Rightarrow> handle \<Rightarrow> 'b page_scheme \<Rightarrow> 'b page_scheme result" where
  "loadTexture P img t w =
     andThen (getInstance P w) (\<lambda>(_, w1). Inr (on_gl (\<lambda>s0.
       let s1 = bindTexture (Some t) s0;
           s2 = onTexture (\<lambda>x. x\<lparr>tex_mag := LINEAR\<rparr>) s1;
           s3 = onTexture (\<lambda>x. x\<lparr>tex_min := NEAREST\<rparr>) s2;
           s4 = onTexture (\<lambda>x. x\<lparr>tex_wrap_s := CLAMP_TO_EDGE\<rparr>) s3;
           s5 = onTexture (\<lambda>x. x\<lparr>tex_wrap_t := CLAMP_TO_EDGE\<rparr>) s4;
           s6 = onTexture (\<lambda>x. x\<lparr>tex_image := Some img\<rparr>) s5
       in bindTexture None s6) w1))"

definition texture_onload ::
    "'a platform_scheme \<Rightarrow> nat \<times> nat \<Rightarrow> texture_node \<Rightarrow> 'b page_scheme \<Rightarrow> 'b page_scheme result" where
  "texture_onload P img this w = loadTexture P img (tx_texture this) w"

definition texture_draw :: "'a platform_scheme \<Rightarrow> texture_node \<Rightarrow> 'b page_scheme \<Rightarrow> 'b page_scheme result" where
  "texture_draw P this w =
     andThen (getInstance P w) (\<lambda>(webgl, w1). Inr (on_gl (\<lambda>s0.
       let s1 = activeTexture 0 s0;
           s2 = bindTexture (Some (tx_texture this)) s1;
           (loc, s3) = getUniformLocation P (shaderProgram webgl) ''uSampler'' s2
       in setUniform loc (UInt 0) s3) w1))"

section \<open>What the draws set\<close>

text \<open>Several uploads in a row, to locations that exist.\<close>

definition upload :: "(string \<times> uval) list \<Rightarrow> gl_state \<Rightarrow> gl_state" where
  "upload us s = s\<lparr>uniforms := foldl (\<lambda>f (x, v). f(x \<mapsto> v)) (uniforms s) us,
     trace := trace s @ map (\<lambda>(x, v). Uniform x v) us\<rparr>"

lemma setUniform_upload:
  "current_program s \<noteq> None \<Longrightarrow> setUniform (Some x) v s = upload [(x, v)] s"
  by (auto simp: setUniform_def upload_def)

lemma upload_upload: "upload vs (upload us s) = upload (us @ vs) s"
  by (simp add: upload_def)

lemma upload_frame [simp]:
  "pipeline (upload us s) = pipeline s" "buffers (upload us s) = buffers s" "fresh (upload us s) = fresh s"
  "gl_errors (upload us s) = gl_errors s" "textures (upload us s) = textures s"
  "bound_texture (upload us s) = bound_texture s" "active_unit (upload us s) = active_unit s"
  "current_program (upload us s) = current_program s"
  "trace (upload us s) = trace s @ map (\<lambda>(x, v). Uniform x v) us"
  "programs (upload us s) = programs s"
  by (simp_all add: upload_def pipeline_def)

lemma gl_ext_upload: "gl_ext s (upload us s)"
  by (simp add: gl_ext_def)

lemma page_ready_program: "page_ready P ws w \<Longrightarrow> current_program (gl w) \<noteq> None"
  by (simp add: page_ready_def gl_ready_def)

lemma page_ready_location:
  "page_ready P ws w \<Longrightarrow> x \<in> set used_uniforms \<Longrightarrow> uniform_location P ws x w = (Some x, w)"
  by (simp add: uniform_location_def getUniformLocation_def page_ready_def gl_ready_def platform_ok_def
      list_all_iff)

definition light_good :: "light \<Rightarrow> bool" where
  "light_good this \<longleftrightarrow> lightPosition this = Some ''uLightPosition'' \<and> lightAmbient this = Some ''uLightAmbient'' \<and>
     lightDiffuse this = Some ''uLightDiffuse'' \<and> lightSpecular this = Some ''uLightSpecular''"

definition light_uniforms :: "light \<Rightarrow> (string \<times> uval) list" where
  "light_uniforms this = [(''uLightPosition'', UVec (l_worldposition this)),
     (''uLightAmbient'', UVec (l_ambient this)), (''uLightDiffuse'', UVec (l_diffuse this)),
     (''uLightSpecular'', UVec (l_specular this))]"

lemma light_draw_uploads:
  assumes "page_ready P ws w" and "light_good this"
  shows "light_draw P this w = Inr (w\<lparr>gl := upload (light_uniforms this) (gl w)\<rparr>)"
  using page_ready_program [OF assms(1)] assms(2)
  by (simp add: light_draw_def page_ready_getInstance [OF assms(1)] on_gl_def Let_def light_good_def
      setUniform_upload upload_upload light_uniforms_def)

lemma new_light_good:
  assumes "page_ready P ws w"
  shows "\<exists>this. new_light P p a d s w = Inr (this, w) \<and> light_good this \<and> l_ambient this = a \<and>
    l_diffuse this = d \<and> l_specular this = s"
  by (simp add: new_light_def page_ready_getInstance [OF assms] Let_def light_good_def
      page_ready_location [OF assms] used_uniforms_def)

definition material_good :: "material \<Rightarrow> bool" where
  "material_good this \<longleftrightarrow> materialEmission this = Some ''uMaterialEmission'' \<and>
     materialAmbient this = Some ''uMaterialAmbient'' \<and> materialDiffuse this = Some ''uMaterialDiffuse'' \<and>
     materialSpecular this = Some ''uMaterialSpecular'' \<and> materialShininess this = Some ''uMaterialShininess''"

definition material_uniforms :: "material \<Rightarrow> (string \<times> uval) list" where
  "material_uniforms this = [(''uMaterialEmission'', UVec (m_emission this)),
     (''uMaterialAmbient'', UVec (m_ambient this)), (''uMaterialDiffuse'', UVec (m_diffuse this)),
     (''uMaterialSpecular'', UVec (m_specular this)), (''uMaterialShininess'', UFloat (m_shininess this))]"

lemma material_draw_uploads:
  assumes "page_ready P ws w" and "material_good this"
  shows "material_draw P this w = Inr (w\<lparr>gl := upload (material_uniforms this) (gl w)\<rparr>)"
  using page_ready_program [OF assms(1)] assms(2)
  by (simp add: material_draw_def page_ready_getInstance [OF assms(1)] on_gl_def Let_def material_good_def
      setUniform_upload upload_upload material_uniforms_def)

lemma new_material_good:
  assumes "page_ready P ws w"
  shows "\<exists>this. new_material P e a d s sh w = Inr (this, w) \<and> material_good this \<and> m_emission this = e \<and>
    m_ambient this = a \<and> m_diffuse this = d \<and> m_specular this = s \<and> m_shininess this = sh"
  by (simp add: new_material_def page_ready_getInstance [OF assms] material_good_def
      page_ready_location [OF assms] used_uniforms_def)

section \<open>Textures\<close>

lemma texture_calls [simp]:
  "gl_errors (bindTexture t s) = gl_errors s" "gl_errors (activeTexture u s) = gl_errors s"
  "trace (bindTexture t s) = trace s" "trace (activeTexture u s) = trace s"
  "fresh (bindTexture t s) = fresh s" "fresh (activeTexture u s) = fresh s"
  "textures (bindTexture t s) = textures s" "textures (activeTexture u s) = textures s"
  "uniforms (bindTexture t s) = uniforms s" "uniforms (activeTexture u s) = uniforms s"
  "active_unit (bindTexture t s) = active_unit s" "active_unit (activeTexture u s) = u"
  "bound_texture (bindTexture t s) = (bound_texture s)(active_unit s := t)"
  "bound_texture (activeTexture u s) = bound_texture s"
  "current_program (bindTexture t s) = current_program s"
  "current_program (activeTexture u s) = current_program s"
  "programs (bindTexture t s) = programs s" "programs (activeTexture u s) = programs s"
  by (simp_all add: bindTexture_def activeTexture_def)

lemma onTexture_bound:
  assumes "bound_texture s (active_unit s) = Some h" and "textures s h = Some t"
  shows "onTexture f s = s\<lparr>textures := (textures s)(h \<mapsto> f t)\<rparr>"
  using assms by (simp add: onTexture_def)

lemma loadTexture_loads:
  assumes "page_ready P ws w" and "textures (gl w) h = Some t"
  shows "loadTexture P (x, y) h w = Inr (w\<lparr>gl := (gl w)
     \<lparr>textures := (textures (gl w))(h \<mapsto> \<lparr>tex_image = Some (x, y), tex_mag = LINEAR, tex_min = NEAREST,
        tex_wrap_s = CLAMP_TO_EDGE, tex_wrap_t = CLAMP_TO_EDGE\<rparr>),
      bound_texture := (bound_texture (gl w))(active_unit (gl w) := None)\<rparr>\<rparr>)"
  using assms(2)
  by (cases t) (simp add: loadTexture_def page_ready_getInstance [OF assms(1)] on_gl_def Let_def
      onTexture_bound [where h = h] bindTexture_def)

definition texture_good :: "texture_node \<Rightarrow> gl_state \<Rightarrow> bool" where
  "texture_good this s \<longleftrightarrow> textures s (tx_texture this) \<noteq> None"

text \<open>The sampler reads unit 0, where the texture is bound.\<close>

definition texture_bound :: "texture_node \<Rightarrow> gl_state \<Rightarrow> gl_state" where
  "texture_bound this s = upload [(''uSampler'', UInt 0)]
     (s\<lparr>active_unit := 0, bound_texture := (bound_texture s)(0 \<mapsto> tx_texture this)\<rparr>)"

lemma texture_draw_binds:
  assumes "page_ready P ws w"
  shows "texture_draw P this w = Inr (w\<lparr>gl := texture_bound this (gl w)\<rparr>)"
proof -
  let ?s = "(gl w)\<lparr>active_unit := 0, bound_texture := (bound_texture (gl w))(0 \<mapsto> tx_texture this)\<rparr>"
  have "getUniformLocation P (shaderProgram ws) ''uSampler'' ?s = (Some ''uSampler'', ?s)"
    using assms by (simp add: getUniformLocation_def page_ready_def gl_ready_def platform_ok_def
        used_uniforms_def is_linked_def)
  then show ?thesis
    using page_ready_program [OF assms]
    by (simp add: texture_draw_def page_ready_getInstance [OF assms] on_gl_def Let_def texture_bound_def
        activeTexture_def bindTexture_def setUniform_upload)
qed

lemma new_texture_good:
  assumes "page_ready P ws w"
  shows "\<exists>this w'. new_texture P src w = Inr (this, w') \<and> page_grows w w' \<and> texture_good this (gl w') \<and>
    tx_src this = src \<and> fresh (gl w') = fresh (gl w) + 1 \<and> gl_errors (gl w') = gl_errors (gl w) \<and>
    trace (gl w') = trace (gl w) \<and> (\<forall>h. textures (gl w) h \<noteq> None \<longrightarrow> textures (gl w') h \<noteq> None)"
proof -
  have "gl_ext (gl w) (snd (createTexture (gl w)))"
    by (simp add: gl_ext_def createTexture_def pipeline_def)
  then show ?thesis
    using page_grows_gl
    by (auto simp: new_texture_def page_ready_getInstance [OF assms] new_on_gl_def case_prod_beta
        texture_good_def createTexture_def)
qed

section \<open>Properties\<close>

text \<open>C27: an image of any size makes its texture complete (so that it does not sample as black),
  touches no other texture and leaves the unit unbound; the next \<open>draw\<close> of the node binds the texture
  to unit 0 and points the sampler there, whatever unit was active before.\<close>

theorem texture_any_size:
  assumes "page_ready P ws w" and "texture_good this (gl w)" and "0 < width" and "0 < height"
  shows "\<exists>w1 w2 t. texture_onload P (width, height) this w = Inr w1 \<and> texture_draw P this w1 = Inr w2 \<and>
    textures (gl w2) (tx_texture this) = Some t \<and> tex_complete t \<and> tex_image t = Some (width, height) \<and>
    (\<forall>h. h \<noteq> tx_texture this \<longrightarrow> textures (gl w2) h = textures (gl w) h) \<and>
    bound_texture (gl w1) (active_unit (gl w1)) = None \<and>
    bound_texture (gl w2) 0 = Some (tx_texture this) \<and> uniforms (gl w2) ''uSampler'' = Some (UInt 0) \<and>
    gl_errors (gl w2) = gl_errors (gl w) \<and> page_ready P ws w2"
proof -
  let ?h = "tx_texture this"
  let ?t = "\<lparr>tex_image = Some (width, height), tex_mag = LINEAR, tex_min = NEAREST,
        tex_wrap_s = CLAMP_TO_EDGE, tex_wrap_t = CLAMP_TO_EDGE\<rparr>"
  let ?w1 = "w\<lparr>gl := (gl w)\<lparr>textures := (textures (gl w))(?h \<mapsto> ?t),
      bound_texture := (bound_texture (gl w))(active_unit (gl w) := None)\<rparr>\<rparr>"
  obtain t where "textures (gl w) ?h = Some t" using assms(2) by (auto simp: texture_good_def)
  then have l: "texture_onload P (width, height) this w = Inr ?w1"
    by (simp add: texture_onload_def loadTexture_loads [OF assms(1)])
  have "gl_ext (gl w) (gl ?w1)" by (simp add: gl_ext_def pipeline_def)
  then have r1: "page_ready P ws ?w1"
    using page_ready_ext [OF assms(1)] by simp
  have d: "texture_draw P this ?w1 = Inr (?w1\<lparr>gl := texture_bound this (gl ?w1)\<rparr>)"
    by (rule texture_draw_binds [OF r1])
  have "gl_ext (gl ?w1) (texture_bound this (gl ?w1))"
    by (simp add: gl_ext_def texture_bound_def pipeline_def upload_def)
  then have "page_ready P ws (?w1\<lparr>gl := texture_bound this (gl ?w1)\<rparr>)"
    by (rule page_ready_ext [OF r1])
  moreover have "tex_complete ?t" using assms(3,4) by (simp add: tex_complete_def)
  ultimately show ?thesis
    by (intro exI [of _ ?w1] exI [of _ "?w1\<lparr>gl := texture_bound this (gl ?w1)\<rparr>"] exI [of _ ?t])
      (simp add: l d texture_bound_def, simp add: upload_def)
qed

theorem texture_any_size_witness:
  "\<exists>this w w1 w2 t. new_texture ref_platform ''earth.jpg'' ref_page = Inr (this, w) \<and>
    texture_onload ref_platform (1000, 500) this w = Inr w1 \<and> texture_draw ref_platform this w1 = Inr w2 \<and>
    textures (gl w2) (tx_texture this) = Some t \<and> tex_complete t"
proof -
  obtain this w where n: "new_texture ref_platform ''earth.jpg'' ref_page = Inr (this, w)"
      "page_grows ref_page w" "texture_good this (gl w)"
    using new_texture_good [OF ref_page_ready] by blast
  have "page_ready ref_platform ref_ws w" using n(2) ref_page_ready by (rule page_grows_ready)
  from texture_any_size [OF this n(3), of 1000 500] n(1) show ?thesis by auto
qed

text \<open>The product of a matrix, columns first, and a vector.\<close>

definition matrix_times :: "mat \<Rightarrow> vec \<Rightarrow> vec" where
  "matrix_times m v = map (\<lambda>i. js_at m i * js_at v 0 + js_at m (4 + i) * js_at v 1 +
     js_at m (8 + i) * js_at v 2 + js_at m (12 + i) * js_at v 3) [0, 1, 2, 3]"

text \<open>C26: a light's position is transformed by the matrix of its node with the full matrix product; a
  light given with fourth component 0 is directional and is uploaded with fourth component 0
  whatever the matrix, every other light with the product's.\<close>

theorem light_position:
  fixes P :: "'z platform_scheme" and w :: "'b page_scheme"
  assumes "gl_matrix P ok" and "page_ready P ws w" and "ok m"
  shows "\<exists>this w'. new_light P [p, q, r, s] a d sp w = Inr (this, w) \<and>
    light_draw P (updatePosition P m this) w = Inr w' \<and>
    uniforms (gl w') ''uLightPosition'' = Some (UVec
      (if s = 0 then (matrix_times m [p, q, r, 1])[3 := 0] else matrix_times m [p, q, r, s])) \<and>
    uniforms (gl w') ''uLightAmbient'' = Some (UVec a) \<and> uniforms (gl w') ''uLightDiffuse'' = Some (UVec d) \<and>
    uniforms (gl w') ''uLightSpecular'' = Some (UVec sp)"
proof -
  note cast = gl_matrix.mul_cast_eq [OF assms(1,3)] and set = gl_matrix.vec4_set_values [OF assms(1)]
  obtain this where n: "new_light P [p, q, r, s] a d sp w = Inr (this, w)" "light_good this"
      "l_ambient this = a" "l_diffuse this = d" "l_specular this = sp"
    using new_light_good [OF assms(2)] by blast
  have this: "isDirectionalLight this \<longleftrightarrow> s = 0" "l_position this = [p, q, r, if s = 0 then 1 else s]"
    using n(1) by (auto simp: new_light_def page_ready_getInstance [OF assms(2)] Let_def set numeral_3_eq_3
        page_ready_location [OF assms(2)] used_uniforms_def)
  then have "l_worldposition (updatePosition P m this) =
      (if s = 0 then (matrix_times m [p, q, r, 1])[3 := 0] else matrix_times m [p, q, r, s])"
    by (simp add: updatePosition_def Let_def cast matrix_times_def)
  moreover have "light_good (updatePosition P m this)"
    using n(2) by (simp add: light_good_def updatePosition_def Let_def)
  ultimately show ?thesis
    using n light_draw_uploads [OF assms(2), of "updatePosition P m this"]
    by (simp add: upload_def light_uniforms_def, simp add: updatePosition_def Let_def)
qed

theorem light_position_witness:
  "\<exists>this w'. new_light ref_platform [0, 0, 0, 1] [1, 1, 1, 1] [1, 1, 1, 1] [1, 1, 1, 1] ref_page = Inr (this, ref_page) \<and>
    light_draw ref_platform (updatePosition ref_platform (mat4_create ref_platform) this) ref_page = Inr w' \<and>
    uniforms (gl w') ''uLightPosition'' = Some (UVec [0, 0, 0, 1])"
  using light_position [OF refp.gl_matrix_axioms ref_page_ready refp.create_ok, of 0 0 0 1
      "[1, 1, 1, 1]" "[1, 1, 1, 1]" "[1, 1, 1, 1]"]
  by (auto simp: ref_platform_calls ref_glm_def ref_identity_def num_simps matrix_times_def)

end
