(* ===== verification/SGNode.thy ===== *)
theory SGNode
  imports GameController Lighting
begin

text \<open>
  The nodes of the scene graph (src/szenegraph/sgnode.ts and its subclasses).  A node is an object
  with a list of children and a matrix; the classes differ in their further fields and in \<open>draw\<close>,
  so a node carries a \<open>body\<close> with one constructor per class.  The objects live in a list, the
  references between them are positions in it: nodes are shared (several planets have the same
  material as a child) and changed in place.
\<close>

section \<open>The store\<close>

datatype body =
    PlainBody
  | ComponentBody string
  | CameraBody camera
  | OrbitBody orbit
  | PlanetBody planet
  | MaterialBody material
  | LightBody light
  | TextureBody texture_node
  | SphereBody sphere
  | CubeBody cube_node
  | PolygonBody polygon

record sgnode =
  children :: "nat list"
  trafo :: mat
  body :: body

record world = page +
  nodes :: "sgnode list"

definition world_init :: world where
  "world_init = page.extend page_init (world.fields [])"

definition node_at :: "nat \<Rightarrow> world \<Rightarrow> sgnode result" where
  "node_at i w = deref (js_nth (nodes w) i)"

text \<open>The constructor of \<open>SGNode\<close>, with the body and the matrix the constructor of the class leaves.\<close>

definition new_sgnode :: "body \<Rightarrow> mat \<Rightarrow> world \<Rightarrow> nat \<times> world" where
  "new_sgnode b m w = (length (nodes w), w\<lparr>nodes := nodes w @ [\<lparr>children = [], trafo = m, body = b\<rparr>]\<rparr>)"

definition update_node :: "nat \<Rightarrow> (sgnode \<Rightarrow> sgnode) \<Rightarrow> world \<Rightarrow> world" where
  "update_node i f w = w\<lparr>nodes := (nodes w)[i := f (nodes w ! i)]\<rparr>"

definition getChildren :: "sgnode \<Rightarrow> nat list" where
  "getChildren nd = children nd"

definition getTrafo :: "sgnode \<Rightarrow> mat" where
  "getTrafo nd = trafo nd"

definition addChild :: "nat \<Rightarrow> nat \<Rightarrow> world \<Rightarrow> world" where
  "addChild i c w = update_node i (\<lambda>nd. nd\<lparr>children := children nd @ [c]\<rparr>) w"

definition setMaterial :: "nat \<Rightarrow> nat \<Rightarrow> world \<Rightarrow> world" where
  "setMaterial planet mat w = addChild planet mat w"

section \<open>The constructors of the classes\<close>

definition new_component_node :: "'a glm_scheme \<Rightarrow> string \<Rightarrow> world \<Rightarrow> nat \<times> world" where
  "new_component_node P name w = new_sgnode (ComponentBody name) (mat4_create P) w"

definition new_camera_node :: "'a glm_scheme \<Rightarrow> world \<Rightarrow> nat \<times> world" where
  "new_camera_node P w = new_sgnode (CameraBody (new_camera P)) (mat4_create P) w"

definition new_orbit_node :: "'a glm_scheme \<Rightarrow> number \<Rightarrow> number \<Rightarrow> number \<Rightarrow> world \<Rightarrow> nat \<times> world" where
  "new_orbit_node P radius tilt period w =
     (case new_orbit P radius tilt period of (orb, m) \<Rightarrow> new_sgnode (OrbitBody orb) m w)"

definition new_texture_node :: "'a platform_scheme \<Rightarrow> string \<Rightarrow> world \<Rightarrow> (nat \<times> world) result" where
  "new_texture_node P src w =
     andThen (new_texture P src w) (\<lambda>(t, w1). Inr (new_sgnode (TextureBody t) (mat4_create P) w1))"

definition new_material_node ::
    "'a platform_scheme \<Rightarrow> vec \<Rightarrow> vec \<Rightarrow> vec \<Rightarrow> vec \<Rightarrow> number \<Rightarrow> world \<Rightarrow> (nat \<times> world) result" where
  "new_material_node P e a d s sh w =
     andThen (new_material P e a d s sh w) (\<lambda>(m, w1). Inr (new_sgnode (MaterialBody m) (mat4_create P) w1))"

definition new_light_node ::
    "'a platform_scheme \<Rightarrow> vec \<Rightarrow> vec \<Rightarrow> vec \<Rightarrow> vec \<Rightarrow> world \<Rightarrow> (nat \<times> world) result" where
  "new_light_node P p a d s w =
     andThen (new_light P p a d s w) (\<lambda>(l, w1). Inr (new_sgnode (LightBody l) (mat4_create P) w1))"

definition new_sphere_node :: "'a platform_scheme \<Rightarrow> number \<Rightarrow> world \<Rightarrow> (nat \<times> world) result" where
  "new_sphere_node P radius w =
     andThen (new_sphere P radius w) (\<lambda>(sp, w1). Inr (new_sgnode (SphereBody sp) (mat4_create P) w1))"

definition new_cube_body_node ::
    "'a platform_scheme \<Rightarrow> number \<Rightarrow> number \<Rightarrow> number \<Rightarrow> world \<Rightarrow> (nat \<times> world) result" where
  "new_cube_body_node P h wd dp w =
     andThen (new_cube_node P h wd dp w) (\<lambda>(c, w1). Inr (new_sgnode (CubeBody c) (mat4_create P) w1))"

definition new_planet_node ::
    "'a platform_scheme \<Rightarrow> number \<Rightarrow> number \<Rightarrow> nat \<Rightarrow> string \<Rightarrow> world \<Rightarrow> (nat \<times> world) result" where
  "new_planet_node P tilt period mat tex w =
     (case new_planet_body P tilt period of (pl, m) \<Rightarrow>
      case new_sgnode (PlanetBody pl) m w of (this, w1) \<Rightarrow>
        andThen (new_texture_node P tex (addChild this mat w1)) (\<lambda>(t, w2).
          Inr (this, addChild this t w2)))"

section \<open>Drawing one node\<close>

text \<open>\<open>component_draw\<close> is the string that \<open>Component.draw\<close> returns; the traversal drops it.\<close>

definition component_draw :: "string \<Rightarrow> string" where
  "component_draw name = name @ '',''"

definition node_draw :: "'a platform_scheme \<Rightarrow> nat \<Rightarrow> number \<Rightarrow> world \<Rightarrow> world result" where
  "node_draw P i days w =
     andThen (node_at i w) (\<lambda>nd. case body nd of
       PlainBody \<Rightarrow> Inr w
     | ComponentBody name \<Rightarrow> Inr w
     | CameraBody c \<Rightarrow>
         andThen (camera_draw P c w) (\<lambda>(c', w1). Inr (update_node i (\<lambda>nd. nd\<lparr>body := CameraBody c'\<rparr>) w1))
     | OrbitBody orb \<Rightarrow> Inr (update_node i (\<lambda>nd. nd\<lparr>trafo := orbit_draw P orb days (trafo nd)\<rparr>) w)
     | PlanetBody pl \<Rightarrow> Inr (update_node i (\<lambda>nd. nd\<lparr>trafo := planet_draw P pl days (trafo nd)\<rparr>) w)
     | MaterialBody m \<Rightarrow> material_draw P m w
     | LightBody l \<Rightarrow> light_draw P l w
     | TextureBody t \<Rightarrow> texture_draw P t w
     | SphereBody sp \<Rightarrow> sphere_draw P sp w
     | CubeBody c \<Rightarrow>
         andThen (cube_draw P c w) (\<lambda>(c', w1). Inr (update_node i (\<lambda>nd. nd\<lparr>body := CubeBody c'\<rparr>) w1))
     | PolygonBody pg \<Rightarrow> Inr (on_gl (polygon_draw pg) w))"

end
