(* ===== verification/Scenegraph.thy ===== *)
theory Scenegraph
  imports SGNode
begin

text \<open>
  The traversal (src/szenegraph/scenegraph.ts).  \<open>drawTraversal\<close> is recursive in the code; its fuel
  is the depth of the call stack, and running out of it is the RangeError a JavaScript engine
  raises.  Against it stands \<open>visit\<close>, which has no stack: each node inherits the product of the
  matrices above it as an argument.  The invariant \<open>world_good\<close> collects what the constructors of
  all nodes establish; every step keeps it, no step in it raises or causes a WebGL error.
\<close>

section \<open>The class\<close>

record scenegraph =
  sg_root :: nat
  trafoStack :: matrix_stack
  sg_days :: number

definition new_scenegraph :: "'a glm_scheme \<Rightarrow> nat \<Rightarrow> world \<Rightarrow> scenegraph result" where
  "new_scenegraph P rootNode w =
     andThen (node_at rootNode w) (\<lambda>nd.
       Inr \<lparr>sg_root = rootNode, trafoStack = stack_push P (getTrafo nd) new_matrix_stack, sg_days = NaN\<rparr>)"

text \<open>
  One node, once its matrix is known: the two matrices are uploaded (null for the normal matrix of
  a singular one is refused by the type of \<open>uniformMatrix3fv\<close>), a light learns its position, and the
  node draws itself.
\<close>

definition place_node ::
    "'a platform_scheme \<Rightarrow> webgl_start \<Rightarrow> number \<Rightarrow> nat \<Rightarrow> mat \<Rightarrow> world \<Rightarrow> world result" where
  "place_node P webglStart days node m w =
     andThen (deref (mat3_normalFromMat4 P m)) (\<lambda>normal.
       let w1 = on_gl (setUniform (mMatrixUniform webglStart) (UMat m)) w;
           w2 = on_gl (setUniform (nMatrixUniform webglStart) (UMat normal)) w1
       in andThen (node_at node w2) (\<lambda>nd.
            let w3 = (case body nd of
                 LightBody l \<Rightarrow> update_node node (\<lambda>nd. nd\<lparr>body := LightBody (updatePosition P m l)\<rparr>) w2
               | _ \<Rightarrow> w2)
            in node_draw P node days w3))"

primrec drawTraversal ::
    "nat \<Rightarrow> 'a platform_scheme \<Rightarrow> number \<Rightarrow> nat \<Rightarrow> matrix_stack \<times> world \<Rightarrow> (matrix_stack \<times> world) result" where
  "drawTraversal 0 P days node = (\<lambda>_. Inl RangeError)"
| "drawTraversal (Suc n) P days node = (\<lambda>(st0, w0).
     andThen (getInstance P w0) (\<lambda>(webglStart, w1).
     andThen (stack_pop P st0) (\<lambda>(inherited, st1).
       let st2 = stack_push P inherited st1
       in andThen (node_at node w1) (\<lambda>nd.
            let m = mat4_mul P inherited (getTrafo nd);
                st3 = stack_push P m st2
            in andThen (place_node P webglStart days node m w1) (\<lambda>w2.
               andThen (node_at node w2) (\<lambda>nd'.
               andThen (each (drawTraversal n P days) (getChildren nd') (st3, w2)) (\<lambda>(st4, w3).
               andThen (stack_pop P st4) (\<lambda>(_, st5). Inr (st5, w3)))))))))"

definition scene_draw ::
    "nat \<Rightarrow> 'a platform_scheme \<Rightarrow> number \<Rightarrow> scenegraph \<times> world \<Rightarrow> (scenegraph \<times> world) result" where
  "scene_draw n P days = (\<lambda>(this, w).
     andThen (drawTraversal n P days (sg_root this) (trafoStack this, w)) (\<lambda>(st, w').
       Inr (this\<lparr>sg_days := days, trafoStack := st\<rparr>, w')))"

section \<open>The traversal on matrix objects\<close>

text \<open>
  In the code \<open>trafo\<close> is one object: it is popped, pushed again, overwritten by \<open>mat4.mul\<close> and pushed
  a second time.  \<open>object_traversal\<close> is \<open>drawTraversal\<close> over a store of matrix objects with exactly
  these steps; because \<open>push\<close> clones, it does what \<open>drawTraversal\<close> does.
\<close>

primrec object_traversal :: "nat \<Rightarrow> 'a platform_scheme \<Rightarrow> number \<Rightarrow> nat \<Rightarrow> (nat list \<times> mat_store) \<times> world \<Rightarrow>
    ((nat list \<times> mat_store) \<times> world) result" where
  "object_traversal 0 P days node = (\<lambda>_. Inl RangeError)"
| "object_traversal (Suc n) P days node = (\<lambda>(st0, w0).
     andThen (getInstance P w0) (\<lambda>(webglStart, w1).
     andThen (object_pop P st0) (\<lambda>(trafo, st1).
       let st2 = object_push P trafo st1
       in andThen (node_at node w1) (\<lambda>nd.
            let st3 = (fst st2, overwrite trafo (\<lambda>m. mat4_mul P m (getTrafo nd)) (snd st2));
                st4 = object_push P trafo st3
            in andThen (place_node P webglStart days node (content (snd st4) trafo) w1) (\<lambda>w2.
               andThen (node_at node w2) (\<lambda>nd'.
               andThen (each (object_traversal n P days) (getChildren nd') (st4, w2)) (\<lambda>(st5, w3).
               andThen (object_pop P st5) (\<lambda>(_, st6). Inr (st6, w3)))))))))"

definition view_world :: "(nat list \<times> mat_store) \<times> world \<Rightarrow> matrix_stack \<times> world" where
  "view_world x = (view_stack (fst x), snd x)"

lemma view_stack_Nil [simp]: "view_stack (st, h) = [] \<longleftrightarrow> st = []"
  by (simp add: view_stack_def)

text \<open>The two steps between the pops: push, overwrite, push.\<close>

lemma push_overwrite_push:
  assumes "apart [a] (st, h)" and "object_push P a (st, h) = (st2, h2)"
  shows "apart [a] (object_push P a (st2, overwrite a f h2))"
    and "content (snd (object_push P a (st2, overwrite a f h2))) a = f (content h a)"
    and "view_stack (object_push P a (st2, overwrite a f h2)) =
      stack_push P (f (content h a)) (stack_push P (content h a) (view_stack (st, h)))"
proof -
  note p = apart_push [OF assms(1), of a P, unfolded assms(2)]
  have 1: "apart [a] (st2, h2)" "content h2 a = content h a"
    "view_stack (st2, h2) = stack_push P (content h a) (view_stack (st, h))"
    using p by simp_all
  note o = apart_overwrite [OF 1(1), of 0 f]
  have 2: "apart [a] (st2, overwrite a f h2)" "content (overwrite a f h2) a = f (content h a)"
    "view_stack (st2, overwrite a f h2) = view_stack (st2, h2)"
    using o 1(2) by (simp_all add: view_stack_def)
  note q = apart_push [OF 2(1), of a P]
  show "apart [a] (object_push P a (st2, overwrite a f h2))"
    and "content (snd (object_push P a (st2, overwrite a f h2))) a = f (content h a)"
    and "view_stack (object_push P a (st2, overwrite a f h2)) =
      stack_push P (f (content h a)) (stack_push P (content h a) (view_stack (st, h)))"
    using q 1 2 by simp_all
qed

lemma apart_fewer: "apart held st \<Longrightarrow> apart [] st"
  by (auto simp: apart_def)

text \<open>A result on objects, seen as one on matrices.\<close>

definition seen_as :: "(matrix_stack \<times> world) result \<Rightarrow> ((nat list \<times> mat_store) \<times> world) result \<Rightarrow> bool" where
  "seen_as r r' \<longleftrightarrow> r = mapResult view_world r' \<and> (\<forall>y. r' = Inr y \<longrightarrow> apart [] (fst y))"

lemma seen_as_Inl: "seen_as (Inl e) (Inl e)"
  by (simp add: seen_as_def)

lemma seen_as_Inr: "apart [] (fst y) \<Longrightarrow> seen_as (Inr (view_world y)) (Inr y)"
  by (simp add: seen_as_def)

lemma seen_as_same: "(\<And>y. r = Inr y \<Longrightarrow> seen_as (f y) (g y)) \<Longrightarrow> seen_as (andThen r f) (andThen r g)"
  by (cases r) (simp_all add: seen_as_Inl)

lemma seen_as_andThen:
  assumes "seen_as r r'" and "\<And>y. apart [] (fst y) \<Longrightarrow> seen_as (f (view_world y)) (g y)"
  shows "seen_as (andThen r f) (andThen r' g)"
proof (cases r')
  case (Inr y)
  with assms(1) assms(2) [of y] show ?thesis by (simp add: seen_as_def)
qed (use assms(1) in \<open>simp add: seen_as_def\<close>)

lemma seen_as_each:
  assumes "apart [] (fst y)" and "\<And>x y. apart [] (fst y) \<Longrightarrow> seen_as (f x (view_world y)) (g x y)"
  shows "seen_as (each f xs (view_world y)) (each g xs y)"
  using assms(1)
proof (induction xs arbitrary: y)
  case Nil
  then show ?case by (simp add: seen_as_Inr)
next
  case (Cons x xs)
  then show ?case by (simp add: seen_as_andThen assms(2))
qed

lemma seen_as_pop:
  assumes "apart [] (st, h)" and "\<And>a st' h'. apart [a] (st', h') \<Longrightarrow> seen_as (f (content h' a, view_stack (st', h'))) (g (a, st', h'))"
  shows "seen_as (andThen (stack_pop P (view_stack (st, h))) f) (andThen (object_pop P (st, h)) g)"
proof (cases "st = []")
  case True
  then show ?thesis by (simp add: object_pop_def stack_pop_def seen_as_Inl)
next
  case False
  obtain a st' h' where "object_pop P (st, h) = Inr (a, st', h')" "apart [a] (st', h')"
      "stack_pop P (view_stack (st, h)) = Inr (content h' a, view_stack (st', h'))"
    using apart_pop [OF assms(1) False] by (metis append_Nil)
  with assms(2) show ?thesis by simp
qed

lemma object_traversal_seen:
  assumes "apart [] (fst x)"
  shows "seen_as (drawTraversal n P days node (view_world x)) (object_traversal n P days node x)"
  using assms
proof (induction n arbitrary: node x)
  case 0
  show ?case by (simp add: seen_as_Inl)
next
  case (Suc n)
  obtain st h w0 where x: "x = ((st, h), w0)" by (metis prod.collapse)
  with Suc.prems have ap: "apart [] (st, h)" by simp
  have last: "seen_as (andThen (stack_pop P (view_stack st5)) (\<lambda>(_, st6). Inr (st6, w3)))
      (andThen (object_pop P st5) (\<lambda>(_, st6). Inr (st6, w3)))" if "apart [] st5" for st5 and w3 :: world
  proof -
    obtain s5 h5 where st5: "st5 = (s5, h5)" by (cases st5)
    have "seen_as (Inr (view_stack (s6, h6), w3)) (Inr ((s6, h6), w3))" if "apart [b] (s6, h6)" for b s6 h6
      using seen_as_Inr [of "((s6, h6), w3)"] apart_fewer [OF that] by (simp add: view_world_def)
    with that show ?thesis unfolding st5 by (intro seen_as_pop) simp_all
  qed
  have children: "seen_as (andThen (each (drawTraversal n P days) cs (view_stack st4, w2))
        (\<lambda>(st5, w3). andThen (stack_pop P st5) (\<lambda>(_, st6). Inr (st6, w3))))
      (andThen (each (object_traversal n P days) cs (st4, w2))
        (\<lambda>(st5, w3). andThen (object_pop P st5) (\<lambda>(_, st6). Inr (st6, w3))))" if "apart [] st4" for st4 cs w2
  proof (rule seen_as_andThen)
    show "seen_as (each (drawTraversal n P days) cs (view_stack st4, w2)) (each (object_traversal n P days) cs (st4, w2))"
      using seen_as_each [of "(st4, w2)" "drawTraversal n P days" "object_traversal n P days" cs] Suc.IH that
      by (simp add: view_world_def)
  qed (use last in \<open>auto simp: view_world_def\<close>)
  show ?case
    unfolding x view_world_def drawTraversal.simps object_traversal.simps prod.case fst_conv snd_conv
  proof (intro seen_as_same, clarify, intro seen_as_pop [OF ap], clarify)
    fix ws w1 a st1 h1
    assume pop: "apart [a] (st1, h1)"
    obtain st2 h2 where push: "object_push P a (st1, h1) = (st2, h2)" by (cases "object_push P a (st1, h1)")
    note both = push_overwrite_push [OF pop push]
    have stacks: "stack_push P (mat4_mul P (content h1 a) t) (stack_push P (content h1 a) (view_stack (st1, h1))) =
        view_stack (object_push P a (st2, overwrite a (\<lambda>m. mat4_mul P m t) h2))" for t
      using both(3) [of "\<lambda>m. mat4_mul P m t"] by simp
    show "seen_as
      (let st2 = stack_push P (content h1 a) (view_stack (st1, h1))
       in andThen (node_at node w1) (\<lambda>nd.
            let m = mat4_mul P (content h1 a) (getTrafo nd); st3 = stack_push P m st2
            in andThen (place_node P ws days node m w1) (\<lambda>w2.
               andThen (node_at node w2) (\<lambda>nd'.
               andThen (each (drawTraversal n P days) (getChildren nd') (st3, w2)) (\<lambda>(st4, w3).
               andThen (stack_pop P st4) (\<lambda>(_, st5). Inr (st5, w3)))))))
      (let st2 = object_push P a (st1, h1)
       in andThen (node_at node w1) (\<lambda>nd.
            let st3 = (fst st2, overwrite a (\<lambda>m. mat4_mul P m (getTrafo nd)) (snd st2));
                st4 = object_push P a st3
            in andThen (place_node P ws days node (content (snd st4) a) w1) (\<lambda>w2.
               andThen (node_at node w2) (\<lambda>nd'.
               andThen (each (object_traversal n P days) (getChildren nd') (st4, w2)) (\<lambda>(st5, w3).
               andThen (object_pop P st5) (\<lambda>(_, st6). Inr (st6, w3)))))))"
      unfolding Let_def push fst_conv snd_conv both(2) stacks
      by (intro seen_as_same children apart_fewer [OF both(1)])
  qed
qed

text \<open>
  The traversal on matrix objects does to the world, to the stack and with the errors what
  \<open>drawTraversal\<close> does.
\<close>

lemma object_traversal_values:
  assumes "apart [] (fst x)"
  shows "mapResult view_world (object_traversal n P days node x) = drawTraversal n P days node (view_world x)"
  using object_traversal_seen [OF assms, of n P days node] by (simp add: seen_as_def)

section \<open>The traversal without a stack\<close>

primrec visit :: "nat \<Rightarrow> 'a platform_scheme \<Rightarrow> webgl_start \<Rightarrow> number \<Rightarrow> mat \<Rightarrow> nat \<Rightarrow> world \<Rightarrow> world result" where
  "visit 0 P ws days inherited node = (\<lambda>_. Inl RangeError)"
| "visit (Suc n) P ws days inherited node = (\<lambda>w.
     andThen (node_at node w) (\<lambda>nd.
       let m = mat4_mul P inherited (trafo nd)
       in andThen (place_node P ws days node m w) (\<lambda>w1.
            each (visit n P ws days m) (children nd) w1)))"

section \<open>The invariant of the nodes\<close>

fun body_good :: "(mat \<Rightarrow> bool) \<Rightarrow> webgl_start \<Rightarrow> gl_state \<Rightarrow> body \<Rightarrow> bool" where
  "body_good ok ws s PlainBody = True"
| "body_good ok ws s (ComponentBody name) = True"
| "body_good ok ws s (CameraBody c) = camera_good ok c"
| "body_good ok ws s (OrbitBody orb) = (finite_number (o_radius orb) \<and> finite_number (circulation orb))"
| "body_good ok ws s (PlanetBody pl) = (finite_number (rotationPeriod pl) \<and> rotationPeriod pl \<noteq> 0)"
| "body_good ok ws s (MaterialBody m) = material_good m"
| "body_good ok ws s (LightBody l) = light_good l"
| "body_good ok ws s (TextureBody t) = texture_good t s"
| "body_good ok ws s (SphereBody sp) = sphere_good ws sp s"
| "body_good ok ws s (CubeBody c) = cube_good ws c s"
| "body_good ok ws s (PolygonBody pg) = False"

definition node_good :: "(mat \<Rightarrow> bool) \<Rightarrow> webgl_start \<Rightarrow> world \<Rightarrow> sgnode \<Rightarrow> bool" where
  "node_good ok ws w nd \<longleftrightarrow> ok (trafo nd) \<and> body_good ok ws (gl w) (body nd) \<and>
     list_all (\<lambda>c. c < length (nodes w)) (children nd)"

definition world_good :: "'a platform_scheme \<Rightarrow> (mat \<Rightarrow> bool) \<Rightarrow> webgl_start \<Rightarrow> world \<Rightarrow> bool" where
  "world_good P ok ws w \<longleftrightarrow> page_ready P ws w \<and> list_all (node_good ok ws w) (nodes w)"

text \<open>What every step of a frame leaves alone.\<close>

definition world_step :: "world \<Rightarrow> world \<Rightarrow> bool" where
  "world_step w w' \<longleftrightarrow> gl_ext (gl w) (gl w') \<and>
     (\<forall>h. textures (gl w) h \<noteq> None \<longrightarrow> textures (gl w') h \<noteq> None) \<and>
     gl_errors (gl w') = gl_errors (gl w) \<and> webgl_instance w' = webgl_instance w \<and>
     alerts w' = alerts w \<and> map children (nodes w') = map children (nodes w)"

lemma world_step_refl [simp, intro]: "world_step w w"
  by (simp add: world_step_def)

lemma world_step_trans [trans]: "world_step w v \<Longrightarrow> world_step v u \<Longrightarrow> world_step w u"
  unfolding world_step_def using gl_ext_trans by metis

lemma world_step_length: "world_step w w' \<Longrightarrow> length (nodes w') = length (nodes w)"
  unfolding world_step_def using map_eq_imp_length_eq by metis

lemma world_step_children:
  "world_step w w' \<Longrightarrow> i < length (nodes w) \<Longrightarrow> children (nodes w' ! i) = children (nodes w ! i)"
proof -
  assume step: "world_step w w'" and i: "i < length (nodes w)"
  then have "map children (nodes w') ! i = map children (nodes w) ! i" by (simp add: world_step_def)
  with i world_step_length [OF step] show ?thesis by simp
qed

lemma body_good_step: "world_step w w' \<Longrightarrow> body_good ok ws (gl w) b \<Longrightarrow> body_good ok ws (gl w') b"
proof -
  assume step: "world_step w w'" and good: "body_good ok ws (gl w) b"
  have ext: "gl_ext (gl w) (gl w')" using step by (simp add: world_step_def)
  show ?thesis
  proof (cases b)
    case (TextureBody t)
    with step good show ?thesis by (simp add: world_step_def texture_good_def)
  next
    case (CubeBody c)
    with good square_good_ext [OF ext] show ?thesis by (auto simp: cube_good_def list_all_iff)
  next
    case (SphereBody sp)
    with good sphere_good_ext [OF ext] show ?thesis by simp
  qed (use good in simp_all)
qed

lemma node_good_step: "world_step w w' \<Longrightarrow> node_good ok ws w nd \<Longrightarrow> node_good ok ws w' nd"
  by (simp add: node_good_def body_good_step world_step_length)

lemma world_good_node: "world_good P ok ws w \<Longrightarrow> i < length (nodes w) \<Longrightarrow> node_good ok ws w (nodes w ! i)"
  by (simp add: world_good_def list_all_length)

lemma node_at_simp: "i < length (nodes w) \<Longrightarrow> node_at i w = Inr (nodes w ! i)"
  by (simp add: node_at_def js_nth_def)

lemma world_step_gl:
  assumes "gl_ext (gl w) s" and "\<And>h. textures (gl w) h \<noteq> None \<Longrightarrow> textures s h \<noteq> None"
    and "gl_errors s = gl_errors (gl w)"
  shows "world_step w (w\<lparr>gl := s\<rparr>)"
  using assms by (simp add: world_step_def)

lemma world_good_gl:
  assumes "world_good P ok ws w" and "world_step w (w\<lparr>gl := s\<rparr>)"
  shows "world_good P ok ws (w\<lparr>gl := s\<rparr>)"
proof -
  have "gl_ext (gl w) s" using assms(2) by (simp add: world_step_def)
  then show ?thesis
    using assms node_good_step [OF assms(2)] page_ready_ext by (auto simp: world_good_def list_all_iff)
qed

lemma update_node_simps [simp]:
  "gl (update_node i f w) = gl w"
  "length (nodes (update_node i f w)) = length (nodes w)"
  "webgl_instance (update_node i f w) = webgl_instance w"
  "alerts (update_node i f w) = alerts w"
  by (simp_all add: update_node_def)

lemma nodes_update_node:
  "i < length (nodes w) \<Longrightarrow> nodes (update_node i f w) ! k = (if k = i then f (nodes w ! i) else nodes w ! k)"
  by (simp add: update_node_def)

lemma world_step_node:
  assumes "children (f (nodes w ! i)) = children (nodes w ! i)"
  shows "world_step w (update_node i f w)"
proof -
  have "map children (nodes (update_node i f w)) = map children (nodes w)"
  proof (cases "i < length (nodes w)")
    case True
    with assms show ?thesis by (simp add: update_node_def map_update) (metis length_map list_update_id nth_map)
  next
    case False
    then show ?thesis by (simp add: update_node_def not_less list_update_beyond)
  qed
  then show ?thesis by (simp add: world_step_def)
qed

lemma world_good_update:
  assumes "world_good P ok ws w" and "i < length (nodes w)"
    and "children (f (nodes w ! i)) = children (nodes w ! i)" and "node_good ok ws w (f (nodes w ! i))"
  shows "world_good P ok ws (update_node i f w)"
proof -
  have "page_ready P ws (update_node i f w)"
    using assms(1) by (simp add: world_good_def page_ready_def)
  moreover have "node_good ok ws (update_node i f w) (nodes (update_node i f w) ! k)" if "k < length (nodes w)" for k
    using that assms world_good_node [OF assms(1) that] node_good_step [OF world_step_node, of f w i ok ws]
    by (simp add: nodes_update_node)
  ultimately show ?thesis by (simp add: world_good_def list_all_length)
qed

end
