(* ===== verification/FrameStep.thy ===== *)
theory FrameStep
  imports Scenegraph
begin

text \<open>
  One node drawn: every class of node keeps the invariant of the world, raises nothing and causes no
  WebGL error; only orbits and planets change their matrix, and nothing changes what a node shows.
\<close>

section \<open>One step of a frame\<close>

text \<open>The part of a body that decides how its node moves, and the matrix after one \<open>draw\<close>.\<close>

fun motion :: "body \<Rightarrow> (orbit + planet) option" where
  "motion (OrbitBody orb) = Some (Inl orb)"
| "motion (PlanetBody pl) = Some (Inr pl)"
| "motion _ = None"

definition advance :: "'a glm_scheme \<Rightarrow> number \<Rightarrow> sgnode \<Rightarrow> mat" where
  "advance P days nd = (case motion (body nd) of
     None \<Rightarrow> trafo nd
   | Some (Inl orb) \<Rightarrow> orbit_draw P orb days (trafo nd)
   | Some (Inr pl) \<Rightarrow> planet_draw P pl days (trafo nd))"

text \<open>The part that decides what the node shows: everything a frame does not change.\<close>

datatype looks =
    Shows_Material material
  | Shows_Light vec vec vec vec bool
  | Shows_Texture texture_node
  | Shows_Sphere sphere
  | Shows_Cube "triangle list list"
  | Shows_Camera
  | Shows_Name string
  | Shows_Polygon polygon
  | Shows_Nothing

fun appearance :: "body \<Rightarrow> looks" where
  "appearance (MaterialBody m) = Shows_Material m"
| "appearance (LightBody l) =
     Shows_Light (l_position l) (l_ambient l) (l_diffuse l) (l_specular l) (isDirectionalLight l)"
| "appearance (TextureBody t) = Shows_Texture t"
| "appearance (SphereBody sp) = Shows_Sphere sp"
| "appearance (CubeBody c) = Shows_Cube (map triangles (squares c))"
| "appearance (CameraBody c) = Shows_Camera"
| "appearance (ComponentBody name) = Shows_Name name"
| "appearance (PolygonBody pg) = Shows_Polygon pg"
| "appearance _ = Shows_Nothing"

definition static :: "body \<Rightarrow> (orbit + planet) option \<times> looks" where
  "static b = (motion b, appearance b)"

lemma static_motion: "static b = static b' \<Longrightarrow> motion b = motion b'"
  by (simp add: static_def)

lemma static_simps [simp]:
  "static (CameraBody c) = (None, Shows_Camera)"
  "static (LightBody (updatePosition P m l)) = static (LightBody l)"
  "static (CubeBody k) = (None, Shows_Cube (map triangles (squares k)))"
  by (simp_all add: static_def updatePosition_def Let_def)

definition frame_step ::
    "'a platform_scheme \<Rightarrow> (mat \<Rightarrow> bool) \<Rightarrow> webgl_start \<Rightarrow> number \<Rightarrow> nat \<Rightarrow> world \<Rightarrow> world \<Rightarrow> bool" where
  "frame_step P ok ws days i w w' \<longleftrightarrow> world_good P ok ws w' \<and> world_step w w' \<and>
     map (\<lambda>nd. static (body nd)) (nodes w') = map (\<lambda>nd. static (body nd)) (nodes w) \<and>
     map trafo (nodes w') = (map trafo (nodes w))[i := advance P days (nodes w ! i)]"

lemma frame_step_gl:
  assumes "world_good P ok ws w" and "i < length (nodes w)" and "motion (body (nodes w ! i)) = None"
    and "gl_ext (gl w) s" and "\<And>h. textures (gl w) h \<noteq> None \<Longrightarrow> textures s h \<noteq> None"
    and "gl_errors s = gl_errors (gl w)"
  shows "frame_step P ok ws days i w (w\<lparr>gl := s\<rparr>)"
proof -
  have "(map trafo (nodes w))[i := trafo (nodes w ! i)] = map trafo (nodes w)"
    using assms(2) by (metis list_update_id nth_map)
  with world_step_gl [OF assms(4,5,6)] world_good_gl [OF assms(1)] assms(3) show ?thesis
    by (simp add: frame_step_def advance_def)
qed

lemma page_grows_nodes: "page_grows w w' \<Longrightarrow> nodes w' = nodes w"
proof -
  assume "page_grows w w'"
  then have "w' = w\<lparr>gl := gl w'\<rparr>" unfolding page_grows_def by (rule conjunct2)
  then have "nodes w' = nodes (w\<lparr>gl := gl w'\<rparr>)" by (rule arg_cong)
  then show ?thesis by simp
qed

lemma frame_step_grows:
  assumes "world_good P ok ws w" and "i < length (nodes w)" and "motion (body (nodes w ! i)) = None"
    and "page_grows w w'" and "textures (gl w') = textures (gl w)" and "gl_errors (gl w') = gl_errors (gl w)"
  shows "frame_step P ok ws days i w w'"
proof -
  have "gl_ext (gl w) (gl w')" and w': "w' = w\<lparr>gl := gl w'\<rparr>" using assms(4) by (simp_all add: page_grows_def)
  then show ?thesis using frame_step_gl [OF assms(1-3), of "gl w'"] assms(5,6) by simp
qed

lemma frame_step_node:
  assumes "world_good P ok ws w" and "i < length (nodes w)" and "node_good ok ws w (f (nodes w ! i))"
    and "children (f (nodes w ! i)) = children (nodes w ! i)"
    and "static (body (f (nodes w ! i))) = static (body (nodes w ! i))"
    and "trafo (f (nodes w ! i)) = advance P days (nodes w ! i)"
  shows "frame_step P ok ws days i w (update_node i f w)"
proof -
  have "(map (\<lambda>nd. static (body nd)) (nodes w))[i := static (body (nodes w ! i))] =
      map (\<lambda>nd. static (body nd)) (nodes w)"
    using list_update_id [of "map (\<lambda>nd. static (body nd)) (nodes w)" i] assms(2) by simp
  with world_good_update [where f = f and i = i, OF assms(1,2,4,3)] world_step_node [where f = f and w = w and i = i, OF assms(4)]
    assms(5,6) show ?thesis
    by (simp add: frame_step_def update_node_def map_update)
qed

text \<open>A step that changes the context alone, followed by one that changes the node.\<close>

lemma frame_step_then:
  assumes "frame_step P ok ws days i w v" and "frame_step P ok ws days i v u"
    and "i < length (nodes w)" and "motion (body (nodes w ! i)) = None"
  shows "frame_step P ok ws days i w u"
proof -
  have len: "length (nodes v) = length (nodes w)"
    using assms(1) world_step_length by (auto simp: frame_step_def)
  have "map (\<lambda>nd. static (body nd)) (nodes v) ! i = static (body (nodes w ! i))"
    using assms(1,3) by (simp add: frame_step_def)
  then have "static (body (nodes v ! i)) = static (body (nodes w ! i))" using assms(3) len by simp
  then have "motion (body (nodes v ! i)) = None" using assms(4) by (simp add: static_def)
  then have a: "advance P days (nodes v ! i) = map trafo (nodes v) ! i" using assms(3) len by (simp add: advance_def)
  have b: "advance P days (nodes w ! i) = map trafo (nodes w) ! i" using assms(3,4) by (simp add: advance_def)
  have "map trafo (nodes u) = (map trafo (nodes w))[i := advance P days (nodes w ! i)]"
    using assms(1,2) unfolding frame_step_def a b by simp
  moreover have "world_step w u" using assms(1,2) world_step_trans by (auto simp: frame_step_def)
  ultimately show ?thesis using assms(1,2) by (simp add: frame_step_def)
qed

lemma node_draw_step:
  fixes P :: "'z platform_scheme"
  assumes gl: "gl_matrix P ok" and good: "world_good P ok ws w" and i: "i < length (nodes w)"
  shows "\<exists>w'. node_draw P i (Fin d) w = Inr w' \<and> frame_step P ok ws (Fin d) i w w'"
proof -
  let ?nd = "nodes w ! i"
  have r: "page_ready P ws w" using good by (simp add: world_good_def)
  have nd: "node_good ok ws w ?nd" using good i by (rule world_good_node)
  have same: "frame_step P ok ws (Fin d) i w w" if "motion (body ?nd) = None"
    using frame_step_gl [OF good i that, of "gl w"] by simp
  note at = node_at_simp [OF i]
  show ?thesis
  proof (cases "body ?nd")
    case PlainBody
    with same show ?thesis by (simp add: node_draw_def at)
  next
    case (ComponentBody name)
    with same show ?thesis by (simp add: node_draw_def at)
  next
    case (CameraBody c)
    with nd have cg: "camera_good ok c" by (simp add: node_good_def)
    let ?c = "\<lambda>proj. c\<lparr>cameraMatrix := camera_move P c, cam_projection := Some proj\<rparr>"
    from camera_draw_frame [OF gl r cg] obtain proj where
      "camera_draw P c w = Inr (?c proj, on_gl (setUniform (Some ''uProjectionMatrix'') (UMat proj)) w)"
      by (auto simp: Let_def)
    then have draw: "camera_draw P c w = Inr (?c proj, w\<lparr>gl := upload [(''uProjectionMatrix'', UMat proj)] (gl w)\<rparr>)"
      using page_ready_program [OF r] by (simp add: on_gl_def setUniform_upload)
    let ?w1 = "w\<lparr>gl := upload [(''uProjectionMatrix'', UMat proj)] (gl w)\<rparr>"
    have s1: "frame_step P ok ws (Fin d) i w ?w1"
      using CameraBody by (intro frame_step_gl [OF good i]) (simp_all add: gl_ext_upload)
    have "camera_good ok (?c proj)"
      using gl_matrix.camera_move_ok [OF gl cg] cg by (simp add: camera_good_def)
    then have "frame_step P ok ws (Fin d) i ?w1 (update_node i (\<lambda>nd. nd\<lparr>body := CameraBody (?c proj)\<rparr>) ?w1)"
      using s1 CameraBody nd i
      by (intro frame_step_node) (simp_all add: frame_step_def node_good_def advance_def)
    from frame_step_then [OF s1 this i] CameraBody draw show ?thesis by (simp add: node_draw_def at)
  next
    case (OrbitBody orb)
    then obtain r c where "o_radius orb = Fin r" "circulation orb = Fin c"
      using nd by (auto simp: node_good_def finite_number_iff)
    then have "ok (orbit_draw P orb (Fin d) (trafo ?nd))"
      using nd gl_matrix.orbit_draw_ok [OF gl] by (simp add: node_good_def)
    with nd OrbitBody show ?thesis
      by (auto simp: node_draw_def at node_good_def advance_def intro!: frame_step_node [OF good i])
  next
    case (PlanetBody pl)
    then obtain c where "rotationPeriod pl = Fin c" "c \<noteq> 0"
      using nd by (auto simp: node_good_def finite_number_iff zero_number_def)
    then have "ok (planet_draw P pl (Fin d) (trafo ?nd))"
      using nd gl_matrix.planet_draw_ok [OF gl] by (simp add: node_good_def)
    with nd PlanetBody show ?thesis
      by (auto simp: node_draw_def at node_good_def advance_def intro!: frame_step_node [OF good i])
  next
    case (MaterialBody m)
    with nd material_draw_uploads [OF r, of m] frame_step_gl [OF good i, of "upload (material_uniforms m) (gl w)"]
    show ?thesis by (simp add: node_draw_def at node_good_def gl_ext_upload)
  next
    case (LightBody l)
    with nd light_draw_uploads [OF r, of l] frame_step_gl [OF good i, of "upload (light_uniforms l) (gl w)"]
    show ?thesis by (simp add: node_draw_def at node_good_def gl_ext_upload)
  next
    case (TextureBody t)
    have "gl_ext (gl w) (texture_bound t (gl w))"
      by (simp add: gl_ext_def texture_bound_def pipeline_def upload_def)
    moreover have "textures (texture_bound t (gl w)) = textures (gl w)"
      "gl_errors (texture_bound t (gl w)) = gl_errors (gl w)"
      by (simp_all add: texture_bound_def)
    ultimately show ?thesis
      using TextureBody texture_draw_binds [OF r, of t] frame_step_gl [OF good i, of "texture_bound t (gl w)"]
      by (simp add: node_draw_def at)
  next
    case (SphereBody sp)
    then have "sphere_good ws sp (gl w)" using nd by (simp add: node_good_def)
    from sphere_draw_draws [OF r this] obtain w' where d: "sphere_draw P sp w = Inr w'" "page_grows w w'"
        "gl_errors (gl w') = gl_errors (gl w)" "scene_state (gl w') = scene_state (gl w)"
      by blast
    then have "textures (gl w') = textures (gl w)" by (simp add: scene_state_def)
    then have "frame_step P ok ws (Fin d) i w w'"
      using SphereBody by (intro frame_step_grows [OF good i _ d(2) _ d(3)]) simp_all
    with d(1) SphereBody show ?thesis by (simp add: node_draw_def at)
  next
    case (CubeBody c)
    then have cg: "cube_good ws c (gl w)" using nd by (simp add: node_good_def)
    from cube_draw_draws [OF r cg] obtain c' w1 where d: "cube_draw P c w = Inr (c', w1)"
        "map triangles (squares c') = map triangles (squares c)" "page_grows w w1"
        "gl_errors (gl w1) = gl_errors (gl w)" "scene_state (gl w1) = scene_state (gl w)"
      by blast
    then have "textures (gl w1) = textures (gl w)" by (simp add: scene_state_def)
    then have s1: "frame_step P ok ws (Fin d) i w w1"
      using CubeBody by (intro frame_step_grows [OF good i _ d(3) _ d(4)]) simp_all
    have nodes: "nodes w1 = nodes w" using d(3) by (rule page_grows_nodes)
    have "cube_good ws c (gl w1)"
      using s1 cg CubeBody body_good_step [of w w1 ok ws "CubeBody c"] by (simp add: frame_step_def)
    then have "cube_good ws c' (gl w1)"
      using triangles_good [OF d(2)] map_eq_imp_length_eq [OF d(2)] by (simp add: cube_good_def)
    then have "frame_step P ok ws (Fin d) i w1 (update_node i (\<lambda>nd. nd\<lparr>body := CubeBody c'\<rparr>) w1)"
      using s1 CubeBody nd i nodes
      by (intro frame_step_node) (simp_all add: frame_step_def node_good_def advance_def d(2))
    from frame_step_then [OF s1 this i] CubeBody d(1) show ?thesis by (simp add: node_draw_def at)
  next
    case (PolygonBody pg)
    with nd show ?thesis by (simp add: node_good_def)
  qed
qed

definition quiet_step ::
    "'a platform_scheme \<Rightarrow> (mat \<Rightarrow> bool) \<Rightarrow> webgl_start \<Rightarrow> world \<Rightarrow> world \<Rightarrow> bool" where
  "quiet_step P ok ws w w' \<longleftrightarrow> world_good P ok ws w' \<and> world_step w w' \<and>
     map (\<lambda>nd. static (body nd)) (nodes w') = map (\<lambda>nd. static (body nd)) (nodes w) \<and>
     map trafo (nodes w') = map trafo (nodes w)"

lemma quiet_step_trans: "quiet_step P ok ws w v \<Longrightarrow> quiet_step P ok ws v u \<Longrightarrow> quiet_step P ok ws w u"
  unfolding quiet_step_def using world_step_trans by metis

lemma map_nth_eq: "map f xs = map g ys \<Longrightarrow> i < length xs \<Longrightarrow> f (xs ! i) = g (ys ! i)"
  by (metis length_map nth_map)

lemma advance_cong:
  "motion (body nd) = motion (body nd') \<Longrightarrow> trafo nd = trafo nd' \<Longrightarrow> advance P days nd = advance P days nd'"
  by (auto simp: advance_def split: option.split sum.split)

lemma frame_step_after_quiet:
  assumes "quiet_step P ok ws w v" and "frame_step P ok ws days i v u" and "i < length (nodes w)"
  shows "frame_step P ok ws days i w u"
proof -
  have mo: "map (\<lambda>nd. static (body nd)) (nodes v) = map (\<lambda>nd. static (body nd)) (nodes w)"
    and tr: "map trafo (nodes v) = map trafo (nodes w)" using assms(1) by (simp_all add: quiet_step_def)
  have "i < length (nodes v)" using assms(1,3) world_step_length [of w v] by (simp add: quiet_step_def)
  then have "advance P days (nodes v ! i) = advance P days (nodes w ! i)"
    using static_motion [OF map_nth_eq [OF mo, of i]] map_nth_eq [OF tr, of i] by (intro advance_cong) simp_all
  moreover have "world_step w u"
    using assms(1,2) world_step_trans unfolding quiet_step_def frame_step_def by blast
  ultimately show ?thesis using assms(2) mo tr by (simp add: frame_step_def)
qed

text \<open>What a light becomes when its matrix is known.\<close>

definition lit :: "'a glm_scheme \<Rightarrow> mat \<Rightarrow> nat \<Rightarrow> world \<Rightarrow> world" where
  "lit P m i w = (case body (nodes w ! i) of
     LightBody l \<Rightarrow> update_node i (\<lambda>nd. nd\<lparr>body := LightBody (updatePosition P m l)\<rparr>) w
   | _ \<Rightarrow> w)"

abbreviation matrix_uploads :: "mat \<Rightarrow> mat \<Rightarrow> (string \<times> uval) list" where
  "matrix_uploads m normal \<equiv> [(''uModelViewMatrix'', UMat m), (''uNormalMatrix'', UMat normal)]"

lemma place_node_eq:
  assumes "page_ready P ws w" and "i < length (nodes w)" and "mat3_normalFromMat4 P m = Some normal"
  shows "place_node P ws days i m w =
    node_draw P i days (lit P m i (w\<lparr>gl := upload (matrix_uploads m normal) (gl w)\<rparr>))"
proof -
  have locs: "mMatrixUniform ws = Some ''uModelViewMatrix''" "nMatrixUniform ws = Some ''uNormalMatrix''"
    using assms(1) by (simp_all add: page_ready_def gl_ready_def)
  have "nodes (w\<lparr>gl := s\<rparr>) = nodes w" for s by simp
  then show ?thesis
    using page_ready_program [OF assms(1)] assms(2,3) locs
    by (simp add: place_node_def Let_def on_gl_def setUniform_upload upload_upload node_at_simp lit_def
        split: body.split)
qed

lemma quiet_step_gl:
  assumes "world_good P ok ws w" and "world_step w (w\<lparr>gl := s\<rparr>)"
  shows "quiet_step P ok ws w (w\<lparr>gl := s\<rparr>)"
  using assms world_good_gl by (simp add: quiet_step_def)

lemma quiet_step_lit:
  assumes "world_good P ok ws w" and "i < length (nodes w)"
  shows "quiet_step P ok ws w (lit P m i w)"
proof (cases "body (nodes w ! i)")
  case (LightBody l)
  let ?f = "\<lambda>nd. nd\<lparr>body := LightBody (updatePosition P m l)\<rparr>"
  have "light_good (updatePosition P m l)" 
    using world_good_node [OF assms] LightBody
    by (simp add: node_good_def light_good_def updatePosition_def Let_def)
  then have nd: "node_good ok ws w (?f (nodes w ! i))"
    using world_good_node [OF assms] LightBody by (simp add: node_good_def)
  have "frame_step P ok ws 0 i w (update_node i ?f w)"
    using nd LightBody by (intro frame_step_node [OF assms]) (simp_all add: advance_def)
  moreover have "(map trafo (nodes w))[i := advance P 0 (nodes w ! i)] = map trafo (nodes w)"
    using LightBody assms(2) by (simp add: advance_def) (metis list_update_id nth_map)
  ultimately show ?thesis using LightBody by (simp add: quiet_step_def frame_step_def lit_def)
qed (use assms in \<open>simp_all add: lit_def quiet_step_def\<close>)

lemma place_node_step:
  fixes P :: "'z platform_scheme"
  assumes gl: "gl_matrix P ok" and good: "world_good P ok ws w" and i: "i < length (nodes w)" and m: "ok m"
  shows "\<exists>w'. place_node P ws (Fin d) i m w = Inr w' \<and> frame_step P ok ws (Fin d) i w w'"
proof -
  have r: "page_ready P ws w" using good by (simp add: world_good_def)
  obtain normal where n: "mat3_normalFromMat4 P m = Some normal"
    using gl_matrix.normal_some [OF gl m] by blast
  let ?s = "upload (matrix_uploads m normal) (gl w)"
  have q1: "quiet_step P ok ws w (w\<lparr>gl := ?s\<rparr>)"
    using good by (rule quiet_step_gl) (rule world_step_gl; simp add: gl_ext_upload)
  then have good1: "world_good P ok ws (w\<lparr>gl := ?s\<rparr>)" by (simp add: quiet_step_def)
  let ?w2 = "lit P m i (w\<lparr>gl := ?s\<rparr>)"
  have q2: "quiet_step P ok ws w ?w2"
    using quiet_step_trans [OF q1 quiet_step_lit [OF good1]] i by simp
  then have good2: "world_good P ok ws ?w2" and len: "length (nodes ?w2) = length (nodes w)"
    using world_step_length [of w ?w2] by (simp_all add: quiet_step_def)
  with i have i2: "i < length (nodes ?w2)" by simp
  obtain w' where "node_draw P i (Fin d) ?w2 = Inr w'" "frame_step P ok ws (Fin d) i ?w2 w'"
    using node_draw_step [OF gl good2 i2] by blast
  with frame_step_after_quiet [OF q2 _ i] show ?thesis
    by (simp add: place_node_eq [OF r i n])
qed

end
