(* ===== verification/Traversal.thy ===== *)
theory Traversal
  imports FrameStep
begin

text \<open>
  The whole traversal: the stack machine of the code equals the recursion without a stack, which
  returns exactly when the graph has no cycle and the call stack is deep enough, and equals a
  single pass over the list of all nodes with their matrices.
\<close>

section \<open>The traversal\<close>

lemma visit_outcome:
  fixes P :: "'z platform_scheme"
  assumes gl: "gl_matrix P ok" and "world_good P ok ws w" and "i < length (nodes w)" and "ok m"
  shows "outcome (\<lambda>w'. world_good P ok ws w' \<and> world_step w w') (\<lambda>e. e = RangeError)
    (visit n P ws (Fin d) m i w)"
  using assms(2-4)
proof (induction n arbitrary: i m w)
  case 0
  then show ?case by simp
next
  case (Suc n)
  let ?nd = "nodes w ! i"
  let ?m = "mat4_mul P m (trafo ?nd)"
  have nd: "node_good ok ws w ?nd" using Suc.prems(1,2) by (rule world_good_node)
  then have m: "ok ?m" using gl_matrix.mul_ok [OF gl Suc.prems(3)] by (simp add: node_good_def)
  obtain w1 where w1: "place_node P ws (Fin d) i ?m w = Inr w1" "frame_step P ok ws (Fin d) i w w1"
    using place_node_step [OF gl Suc.prems(1,2) m] by blast
  have "outcome (\<lambda>v. world_good P ok ws v \<and> world_step w v) (\<lambda>e. e = RangeError)
      (each (visit n P ws (Fin d) ?m) (children ?nd) w1)"
  proof (rule each_outcome)
    show "world_good P ok ws w1 \<and> world_step w w1" using w1(2) by (simp add: frame_step_def)
  next
    fix c v
    assume c: "c \<in> set (children ?nd)" and v: "world_good P ok ws v \<and> world_step w v"
    then have "c < length (nodes v)"
      using nd world_step_length by (auto simp: node_good_def list_all_iff)
    from Suc.IH [OF _ this m] v
    show "outcome (\<lambda>v. world_good P ok ws v \<and> world_step w v) (\<lambda>e. e = RangeError)
        (visit n P ws (Fin d) ?m c v)"
      by (cases "visit n P ws (Fin d) ?m c v") (auto intro: world_step_trans)
  qed
  with w1 show ?case by (simp add: node_at_simp [OF Suc.prems(2)] Let_def)
qed

lemma drawTraversal_visit:
  fixes P :: "'z platform_scheme"
  assumes gl: "gl_matrix P ok" and "world_good P ok ws w" and "i < length (nodes w)" and "ok m"
  shows "drawTraversal n P (Fin d) i (st @ [m], w) =
    mapResult (\<lambda>w'. (st @ [m], w')) (visit n P ws (Fin d) m i w)"
  using assms(2-4)
proof (induction n arbitrary: i m w st)
  case 0
  then show ?case by simp
next
  case (Suc n)
  let ?nd = "nodes w ! i"
  let ?m = "mat4_mul P m (trafo ?nd)"
  have nd: "node_good ok ws w ?nd" using Suc.prems(1,2) by (rule world_good_node)
  then have m: "ok ?m" using gl_matrix.mul_ok [OF gl Suc.prems(3)] by (simp add: node_good_def)
  obtain w1 where w1: "place_node P ws (Fin d) i ?m w = Inr w1" "frame_step P ok ws (Fin d) i w w1"
    using place_node_step [OF gl Suc.prems(1,2) m] by blast
  then have step: "world_step w w1" and good1: "world_good P ok ws w1" by (simp_all add: frame_step_def)
  have ch: "children (nodes w1 ! i) = children ?nd" and i1: "i < length (nodes w1)"
    using world_step_children [OF step] world_step_length [OF step] Suc.prems(2) by simp_all
  have each: "each (drawTraversal n P (Fin d)) (children ?nd) ((st @ [m]) @ [?m], w1) =
      mapResult (\<lambda>w'. ((st @ [m]) @ [?m], w')) (each (visit n P ws (Fin d) ?m) (children ?nd) w1)"
  proof (rule each_simulates [where I = "\<lambda>v. world_good P ok ws v \<and> world_step w v"])
    show "world_good P ok ws w1 \<and> world_step w w1" using good1 step by simp
  next
    fix c v assume c: "c \<in> set (children ?nd)" and v: "world_good P ok ws v \<and> world_step w v"
    then have cv: "c < length (nodes v)" using nd world_step_length by (auto simp: node_good_def list_all_iff)
    show "drawTraversal n P (Fin d) c ((st @ [m]) @ [?m], v) =
        mapResult (\<lambda>w'. ((st @ [m]) @ [?m], w')) (visit n P ws (Fin d) ?m c v)"
      using Suc.IH [OF _ cv m] v by blast
    show "world_good P ok ws v' \<and> world_step w v'" if "visit n P ws (Fin d) ?m c v = Inr v'" for v'
      using visit_outcome [OF gl _ cv m, of ws n d] v that world_step_trans by auto
  qed
  have "page_ready P ws w" using Suc.prems(1) by (simp add: world_good_def)
  note get = page_ready_getInstance [OF this]
  have "stack_pop P (st @ [m]) = Inr (m, st)" and "stack_push P m st = st @ [m]"
    "stack_push P ?m (st @ [m]) = (st @ [m]) @ [?m]" "stack_pop P ((st @ [m]) @ [?m]) = Inr (?m, st @ [m])"
    using gl_matrix.stack_pop_simp [OF gl] gl_matrix.stack_push_simp [OF gl] Suc.prems(3) m
    by (simp_all del: append_assoc append.simps)
  note stack = this
  show ?case
    unfolding drawTraversal.simps visit.simps prod.case get andThen_simps stack Let_def
      node_at_simp [OF Suc.prems(2)] getTrafo_def getChildren_def w1(1) node_at_simp [OF i1] ch each
      andThen_mapResult mapResult_andThen
    by (cases "each (visit n P ws (Fin d) ?m) (children ?nd) w1") simp_all
qed

text \<open>A rank that decreases from every node to its children: the graph has no cycle.\<close>

definition ranked :: "(nat \<Rightarrow> nat) \<Rightarrow> world \<Rightarrow> bool" where
  "ranked rank w \<longleftrightarrow> (\<forall>i < length (nodes w). \<forall>c \<in> set (children (nodes w ! i)). rank c < rank i)"

lemma ranked_step: "world_step w w' \<Longrightarrow> ranked rank w \<Longrightarrow> ranked rank w'"
  by (simp add: ranked_def world_step_length world_step_children)

lemma visit_returns:
  fixes P :: "'z platform_scheme"
  assumes gl: "gl_matrix P ok" and "world_good P ok ws w" and "ranked rank w" and "i < length (nodes w)"
    and "ok m" and "rank i < n"
  shows "\<exists>w'. visit n P ws (Fin d) m i w = Inr w' \<and> world_good P ok ws w' \<and> world_step w w'"
  using assms(2-6)
proof (induction n arbitrary: i m w)
  case 0
  then show ?case by simp
next
  case (Suc n)
  let ?nd = "nodes w ! i"
  let ?m = "mat4_mul P m (trafo ?nd)"
  have nd: "node_good ok ws w ?nd" using Suc.prems(1,3) by (rule world_good_node)
  then have m: "ok ?m" using gl_matrix.mul_ok [OF gl Suc.prems(4)] by (simp add: node_good_def)
  obtain w1 where w1: "place_node P ws (Fin d) i ?m w = Inr w1" "frame_step P ok ws (Fin d) i w w1"
    using place_node_step [OF gl Suc.prems(1,3) m] by blast
  have "\<exists>w'. each (visit n P ws (Fin d) ?m) (children ?nd) w1 = Inr w' \<and>
      (world_good P ok ws w' \<and> world_step w w') \<and> True"
  proof (rule each_invariant)
    show "world_good P ok ws w1 \<and> world_step w w1" using w1(2) by (simp add: frame_step_def)
  next
    fix c v assume c: "c \<in> set (children ?nd)" and v: "world_good P ok ws v \<and> world_step w v"
    then have "c < length (nodes v)" using nd world_step_length by (auto simp: node_good_def list_all_iff)
    moreover have "rank c < n" using Suc.prems(2,3,5) c by (force simp: ranked_def)
    ultimately obtain v' where "visit n P ws (Fin d) ?m c v = Inr v'" "world_good P ok ws v'" "world_step v v'"
      using Suc.IH [OF _ ranked_step [OF _ Suc.prems(2)] _ m] v by blast
    then show "\<exists>v'. visit n P ws (Fin d) ?m c v = Inr v' \<and> (world_good P ok ws v' \<and> world_step w v') \<and> True"
      using v world_step_trans by blast
  qed simp_all
  with w1 show ?case by (simp add: node_at_simp [OF Suc.prems(3)] Let_def)
qed

text \<open>Nodes each of which has a child among them: no depth of the call stack is enough.\<close>

lemma visit_cyclic:
  fixes P :: "'z platform_scheme"
  assumes gl: "gl_matrix P ok" and "world_good P ok ws w" and "i \<in> S" and "ok m"
    and "\<And>k. k \<in> S \<Longrightarrow> k < length (nodes w) \<and> set (children (nodes w ! k)) \<inter> S \<noteq> {}"
  shows "visit n P ws (Fin d) m i w = Inl RangeError"
  using assms(2-5)
proof (induction n arbitrary: i m w)
  case 0
  then show ?case by simp
next
  case (Suc n)
  let ?nd = "nodes w ! i"
  let ?m = "mat4_mul P m (trafo ?nd)"
  have i: "i < length (nodes w)" using Suc.prems(2,4) by blast
  have nd: "node_good ok ws w ?nd" using Suc.prems(1) i by (rule world_good_node)
  then have m: "ok ?m" using gl_matrix.mul_ok [OF gl Suc.prems(3)] by (simp add: node_good_def)
  obtain w1 where w1: "place_node P ws (Fin d) i ?m w = Inr w1" "frame_step P ok ws (Fin d) i w w1"
    using place_node_step [OF gl Suc.prems(1) i m] by blast
  obtain c where c: "c \<in> set (children ?nd)" "c \<in> S" using Suc.prems(2,4) by blast
  then obtain cs cs' where split: "children ?nd = cs @ c # cs'" by (meson split_list)
  have "outcome (\<lambda>v. world_good P ok ws v \<and> world_step w v) (\<lambda>e. e = RangeError)
      (each (visit n P ws (Fin d) ?m) cs w1)"
  proof (rule each_outcome)
    show "world_good P ok ws w1 \<and> world_step w w1" using w1(2) by (simp add: frame_step_def)
  next
    fix k v assume k: "k \<in> set cs" and v: "world_good P ok ws v \<and> world_step w v"
    then have "k < length (nodes v)"
      using nd world_step_length split by (auto simp: node_good_def list_all_iff)
    from visit_outcome [OF gl _ this m, of ws n d] v
    show "outcome (\<lambda>v. world_good P ok ws v \<and> world_step w v) (\<lambda>e. e = RangeError)
        (visit n P ws (Fin d) ?m k v)"
      by (cases "visit n P ws (Fin d) ?m k v") (auto intro: world_step_trans)
  qed
  moreover have "visit n P ws (Fin d) ?m c v = Inl RangeError" if v: "world_good P ok ws v \<and> world_step w v" for v
  proof (rule Suc.IH [OF _ c(2) m])
    show "k < length (nodes v) \<and> set (children (nodes v ! k)) \<inter> S \<noteq> {}" if "k \<in> S" for k
      using Suc.prems(4) [OF that] v world_step_length [of w v] world_step_children [of w v k] by simp
  qed (use v in simp)
  ultimately have "each (visit n P ws (Fin d) ?m) (children ?nd) w1 = Inl RangeError"
    unfolding split each_append by (cases "each (visit n P ws (Fin d) ?m) cs w1") simp_all
  with w1 show ?case by (simp add: node_at_simp [OF i] Let_def)
qed

text \<open>
  The traversal as a list: the nodes in the order they are reached, each with the product of the
  matrices from the root down to it, as they are before the frame.  A node that is shared occurs
  several times.
\<close>

primrec descent :: "nat \<Rightarrow> world \<Rightarrow> nat \<Rightarrow> nat list" where
  "descent 0 w i = []"
| "descent (Suc n) w i = i # concat (map (descent n w) (children (nodes w ! i)))"

primrec render_list :: "nat \<Rightarrow> 'a glm_scheme \<Rightarrow> world \<Rightarrow> mat \<Rightarrow> nat \<Rightarrow> (nat \<times> mat) list" where
  "render_list 0 P w inherited i = []"
| "render_list (Suc n) P w inherited i =
     (let m = mat4_mul P inherited (trafo (nodes w ! i))
      in (i, m) # concat (map (render_list n P w m) (children (nodes w ! i))))"

definition place_all ::
    "'a platform_scheme \<Rightarrow> webgl_start \<Rightarrow> number \<Rightarrow> (nat \<times> mat) list \<Rightarrow> world \<Rightarrow> world result" where
  "place_all P ws days = each (\<lambda>(i, m). place_node P ws days i m)"

definition moves :: "world \<Rightarrow> nat \<Rightarrow> bool" where
  "moves w i \<longleftrightarrow> motion (body (nodes w ! i)) \<noteq> None"

text \<open>Every node that moves is reached once.\<close>

definition move_once :: "world \<Rightarrow> nat list \<Rightarrow> bool" where
  "move_once w is \<longleftrightarrow> distinct (filter (moves w) is)"

lemma map_fst_render_list: "map fst (render_list n P w m i) = descent n w i"
proof (induction n arbitrary: m i)
  case (Suc n)
  then show ?case by (simp add: Let_def map_concat comp_def)
qed simp

lemma descent_bound:
  assumes "world_good P ok ws w" and "i < length (nodes w)" and "k \<in> set (descent n w i)"
  shows "k < length (nodes w)"
  using assms(2,3)
proof (induction n arbitrary: i)
  case (Suc n)
  from world_good_node [OF assms(1) Suc.prems(1)]
  have "c < length (nodes w)" if "c \<in> set (children (nodes w ! i))" for c
    using that by (simp add: node_good_def list_all_iff)
  with Suc show ?case by auto
qed simp

lemma descent_step:
  assumes "world_step w v" and "world_good P ok ws w" and "i < length (nodes w)"
  shows "descent n v i = descent n w i"
  using assms(3)
proof (induction n arbitrary: i)
  case (Suc n)
  from world_good_node [OF assms(2) Suc.prems]
  have "c < length (nodes w)" if "c \<in> set (children (nodes w ! i))" for c
    using that by (simp add: node_good_def list_all_iff)
  with Suc.IH have "map (descent n v) (children (nodes w ! i)) = map (descent n w) (children (nodes w ! i))"
    by (intro map_cong refl) blast
  then show ?case by (simp add: world_step_children [OF assms(1) Suc.prems] cong: map_cong)
qed simp

lemma descent_rank:
  assumes "ranked rank w" and "world_good P ok ws w" and "i < length (nodes w)" and "k \<in> set (descent n w i)"
  shows "rank k \<le> rank i"
  using assms(3,4)
proof (induction n arbitrary: i)
  case (Suc n)
  from world_good_node [OF assms(2) Suc.prems(1)]
  have "c < length (nodes w) \<and> rank c < rank i" if "c \<in> set (children (nodes w ! i))" for c
    using that assms(1) Suc.prems(1) by (simp add: node_good_def list_all_iff ranked_def)
  with Suc show ?case by (auto dest: less_imp_le le_less_trans)
qed simp

lemma render_list_cong:
  assumes "world_step w v" and "world_good P ok ws w" and "i < length (nodes w)"
    and "\<And>k. k \<in> set (descent n w i) \<Longrightarrow> trafo (nodes v ! k) = trafo (nodes w ! k)"
  shows "render_list n Q v m i = render_list n Q w m i"
  using assms(3,4)
proof (induction n arbitrary: i m)
  case (Suc n)
  let ?m = "mat4_mul Q m (trafo (nodes w ! i))"
  have i: "trafo (nodes v ! i) = trafo (nodes w ! i)" using Suc.prems(2) by simp
  have "map (render_list n Q v ?m) (children (nodes w ! i)) = map (render_list n Q w ?m) (children (nodes w ! i))"
  proof (intro map_cong refl)
    fix c assume c: "c \<in> set (children (nodes w ! i))"
    with world_good_node [OF assms(2) Suc.prems(1)] have "c < length (nodes w)"
      by (simp add: node_good_def list_all_iff)
    then show "render_list n Q v ?m c = render_list n Q w ?m c"
      using c Suc.prems(2) by (intro Suc.IH) auto
  qed
  then show ?case by (simp add: Let_def i world_step_children [OF assms(1) Suc.prems(1)] cong: map_cong)
qed simp

lemma render_list_ok:
  assumes "gl_matrix Q ok" and "world_good P ok ws w" and "i < length (nodes w)" and "ok m"
    and "(k, mk) \<in> set (render_list n Q w m i)"
  shows "k < length (nodes w) \<and> ok mk"
  using assms(3-5)
proof (induction n arbitrary: i m)
  case (Suc n)
  note nd = world_good_node [OF assms(2) Suc.prems(1)]
  have "ok (mat4_mul Q m (trafo (nodes w ! i)))"
    using nd Suc.prems(2) gl_matrix.mul_ok [OF assms(1)] by (simp add: node_good_def)
  moreover have "c < length (nodes w)" if "c \<in> set (children (nodes w ! i))" for c
    using nd that by (simp add: node_good_def list_all_iff)
  ultimately show ?case using Suc by (auto simp: Let_def)
qed simp

text \<open>The list placed one after the other: what moves is advanced once for each occurrence.\<close>

definition same_static :: "world \<Rightarrow> world \<Rightarrow> bool" where
  "same_static w v \<longleftrightarrow> map (\<lambda>nd. static (body nd)) (nodes v) = map (\<lambda>nd. static (body nd)) (nodes w)"

lemma same_static_at: "same_static w v \<Longrightarrow> i < length (nodes w) \<Longrightarrow> moves v i = moves w i"
  unfolding same_static_def moves_def by (metis length_map nth_map static_motion)

lemma mem_fst: "k \<in> set (map fst xs) \<Longrightarrow> \<exists>y. (k, y) \<in> set xs"
  by (induction xs) auto

lemma place_all_step:
  fixes P :: "'z platform_scheme"
  assumes gl: "gl_matrix P ok" and "world_good P ok ws w"
    and "\<And>k m. (k, m) \<in> set items \<Longrightarrow> k < length (nodes w) \<and> ok m"
  shows "\<exists>v. place_all P ws (Fin d) items w = Inr v \<and> world_good P ok ws v \<and> world_step w v \<and> same_static w v \<and>
    (\<forall>k < length (nodes w). k \<notin> set (filter (moves w) (map fst items)) \<longrightarrow> trafo (nodes v ! k) = trafo (nodes w ! k)) \<and>
    (move_once w (map fst items) \<longrightarrow> (\<forall>k \<in> set (map fst items). moves w k \<longrightarrow>
       trafo (nodes v ! k) = advance P (Fin d) (nodes w ! k)))"
  using assms(2,3)
proof (induction items arbitrary: w)
  case Nil
  then show ?case by (simp add: place_all_def same_static_def)
next
  case (Cons item items)
  obtain i m where item: "item = (i, m)" by (cases item)
  then have i: "i < length (nodes w)" and m: "ok m" using Cons.prems(2) by auto
  obtain w1 where w1: "place_node P ws (Fin d) i m w = Inr w1" and f: "frame_step P ok ws (Fin d) i w w1"
    using place_node_step [OF gl Cons.prems(1) i m] by blast
  from f have good1: "world_good P ok ws w1" and step1: "world_step w w1" and mot1: "same_static w w1"
    by (simp_all add: frame_step_def same_static_def)
  have len: "length (nodes w1) = length (nodes w)" using step1 by (rule world_step_length)
  have tr: "trafo (nodes w1 ! k) = (if k = i then advance P (Fin d) (nodes w ! i) else trafo (nodes w ! k))"
    if "k < length (nodes w)" for k
  proof -
    have "map trafo (nodes w1) ! k = ((map trafo (nodes w))[i := advance P (Fin d) (nodes w ! i)]) ! k"
      using f by (simp add: frame_step_def)
    with that len i show ?thesis by (simp add: nth_list_update)
  qed
  have filt: "filter (moves w1) (map fst items) = filter (moves w) (map fst items)"
  proof (intro filter_cong refl)
    fix k assume "k \<in> set (map fst items)"
    then obtain m' where "(k, m') \<in> set (item # items)" using mem_fst by fastforce
    then have "k < length (nodes w)" using Cons.prems(2) by blast
    then show "moves w1 k = moves w k" by (rule same_static_at [OF mot1])
  qed
  have items_ok: "k < length (nodes w1) \<and> ok m'" if "(k, m') \<in> set items" for k m'
    using Cons.prems(2) that len by auto
  obtain v where v: "place_all P ws (Fin d) items w1 = Inr v" "world_good P ok ws v" "world_step w1 v"
      "same_static w1 v"
    and keep: "\<And>k. k < length (nodes w) \<Longrightarrow> k \<notin> set (filter (moves w) (map fst items)) \<Longrightarrow>
        trafo (nodes v ! k) = trafo (nodes w1 ! k)"
    and adv: "\<And>k. move_once w1 (map fst items) \<Longrightarrow> k \<in> set (map fst items) \<Longrightarrow> moves w1 k \<Longrightarrow>
        trafo (nodes v ! k) = advance P (Fin d) (nodes w1 ! k)"
    using Cons.IH [OF good1 items_ok, unfolded len filt] by blast
  have still: "trafo (nodes v ! k) = trafo (nodes w ! k)"
    if k: "k < length (nodes w)" and no: "k \<notin> set (filter (moves w) (map fst (item # items)))" for k
  proof -
    have "trafo (nodes w1 ! k) = trafo (nodes w ! k)"
      using tr [OF k] no by (auto simp: item moves_def advance_def split: if_splits)
    moreover have "k \<notin> set (filter (moves w) (map fst items))" using no by (auto split: if_splits)
    ultimately show ?thesis using keep [OF k] by simp
  qed
  have turned: "trafo (nodes v ! k) = advance P (Fin d) (nodes w ! k)"
    if once: "move_once w (map fst (item # items))" and k: "k \<in> set (map fst (item # items))" and mk: "moves w k" for k
  proof -
    obtain m' where "(k, m') \<in> set (item # items)" using mem_fst [OF k] by blast
    then have kl: "k < length (nodes w)" using Cons.prems(2) by blast
    show ?thesis
    proof (cases "k = i")
      case True
      with once mk have "k \<notin> set (filter (moves w) (map fst items))" by (simp add: move_once_def item)
      with keep [OF kl] tr [OF kl] True show ?thesis by simp
    next
      case False
      with once k filt have "move_once w1 (map fst items)" "k \<in> set (map fst items)"
        by (auto simp: move_once_def item split: if_splits)
      moreover have "moves w1 k" using mk same_static_at [OF mot1 kl] by simp
      ultimately have "trafo (nodes v ! k) = advance P (Fin d) (nodes w1 ! k)" by (rule adv)
      moreover have "motion (body (nodes w1 ! k)) = motion (body (nodes w ! k))"
        using mot1 kl len unfolding same_static_def by (metis length_map nth_map static_motion)
      ultimately show ?thesis using tr [OF kl] False advance_cong by metis
    qed
  qed
  have "place_all P ws (Fin d) (item # items) w = Inr v" using w1 v(1) by (simp add: place_all_def item)
  moreover have "same_static w v" using mot1 v(4) by (simp add: same_static_def)
  ultimately show ?case using v(2) world_step_trans [OF step1 v(3)] still turned by blast
qed

lemma place_all_append: "place_all P ws d (xs @ ys) w = andThen (place_all P ws d xs w) (place_all P ws d ys)"
  by (simp add: place_all_def each_append)

lemma move_once_append:
  "move_once w (xs @ ys) \<longleftrightarrow> move_once w xs \<and> move_once w ys \<and>
    set (filter (moves w) xs) \<inter> set (filter (moves w) ys) = {}"
  by (simp add: move_once_def)

lemma move_once_step:
  assumes "same_static w v" and "\<And>k. k \<in> set is \<Longrightarrow> k < length (nodes w)"
  shows "move_once v is = move_once w is"
proof -
  have "filter (moves v) is = filter (moves w) is"
    using same_static_at [OF assms(1)] assms(2) by (intro filter_cong refl) auto
  then show ?thesis by (simp add: move_once_def)
qed

lemma place_list_step:
  fixes P :: "'z platform_scheme"
  assumes "gl_matrix P ok" and "world_good P ok ws w"
    and "\<forall>(k, m) \<in> set items. k < length (nodes w) \<and> ok m"
  obtains v where "place_all P ws (Fin d) items w = Inr v" and "world_good P ok ws v" and "world_step w v"
    and "same_static w v"
    and "\<And>k. k < length (nodes w) \<Longrightarrow> k \<notin> set (filter (moves w) (map fst items)) \<Longrightarrow>
      trafo (nodes v ! k) = trafo (nodes w ! k)"
    and "\<And>k. move_once w (map fst items) \<Longrightarrow> k \<in> set (map fst items) \<Longrightarrow> moves w k \<Longrightarrow>
      trafo (nodes v ! k) = advance P (Fin d) (nodes w ! k)"
proof -
  have "k < length (nodes w) \<and> ok m" if "(k, m) \<in> set items" for k m
    using assms(3) that by auto
  from place_all_step [where items = items and d = d, OF assms(1,2) this] that show ?thesis by blast
qed

text \<open>The children of a node, given that the visit of each of them is its list.\<close>

lemma children_place_all:
  fixes P :: "'z platform_scheme"
  assumes gl: "gl_matrix P ok" and good: "world_good P ok ws w" and m: "ok m"
    and visits: "\<And>c v. c \<in> set cs \<Longrightarrow> world_good P ok ws v \<Longrightarrow> world_step w v \<Longrightarrow> same_static w v \<Longrightarrow>
        move_once v (descent n v c) \<Longrightarrow>
        visit n P ws (Fin d) m c v = place_all P ws (Fin d) (render_list n P v m c) v"
    and inside: "\<And>c. c \<in> set cs \<Longrightarrow> c < length (nodes w)"
    and v: "world_good P ok ws v" "world_step w v" "same_static w v"
    and once: "move_once w (concat (map (descent n w) cs))"
    and still: "\<And>k. k \<in> set (concat (map (descent n w) cs)) \<Longrightarrow> trafo (nodes v ! k) = trafo (nodes w ! k)"
  shows "each (visit n P ws (Fin d) m) cs v =
    place_all P ws (Fin d) (concat (map (render_list n P w m) cs)) v"
  using visits inside v once still
proof (induction cs arbitrary: v)
  case Nil
  then show ?case by (simp add: place_all_def)
next
  case (Cons c cs)
  have c: "c < length (nodes w)" using Cons.prems(2) by simp
  have bound: "k < length (nodes w)" if "k \<in> set (descent n w c)" for k
    using good c that by (rule descent_bound)
  have "move_once w (descent n w c)" using Cons.prems(6) by (simp add: move_once_append)
  then have "move_once v (descent n v c)"
    using move_once_step [OF Cons.prems(5) bound] descent_step [OF Cons.prems(4) good c] by simp
  then have "visit n P ws (Fin d) m c v = place_all P ws (Fin d) (render_list n P v m c) v"
    using Cons.prems(1,3-5) by simp
  moreover have "render_list n P v m c = render_list n P w m c"
    using Cons.prems(7) by (intro render_list_cong [OF Cons.prems(4) good c]) simp
  ultimately have visit: "visit n P ws (Fin d) m c v = place_all P ws (Fin d) (render_list n P w m c) v" by simp
  have items: "\<forall>(k, mk) \<in> set (render_list n P w m c). k < length (nodes v) \<and> ok mk"
    using render_list_ok [OF gl good c m] world_step_length [OF Cons.prems(4)] by auto
  obtain v' where v': "place_all P ws (Fin d) (render_list n P w m c) v = Inr v'" "world_good P ok ws v'"
      "world_step v v'" "same_static v v'"
    and keep: "\<And>k. k < length (nodes v) \<Longrightarrow> k \<notin> set (filter (moves v) (descent n w c)) \<Longrightarrow>
        trafo (nodes v' ! k) = trafo (nodes v ! k)"
    using place_list_step [where d = d, OF gl Cons.prems(3) items] unfolding map_fst_render_list by metis
  have "each (visit n P ws (Fin d) m) cs v' = place_all P ws (Fin d) (concat (map (render_list n P w m) cs)) v'"
  proof (rule Cons.IH)
    show "world_step w v'" using Cons.prems(4) v'(3) by (rule world_step_trans)
    show "same_static w v'" using Cons.prems(5) v'(4) by (simp add: same_static_def)
    show "move_once w (concat (map (descent n w) cs))" using Cons.prems(6) by (simp add: move_once_append)
  next
    fix k assume k: "k \<in> set (concat (map (descent n w) cs))"
    then have kl: "k < length (nodes w)" using Cons.prems(2) descent_bound [OF good] by auto
    have "set (filter (moves w) (descent n w c)) \<inter> set (filter (moves w) (concat (map (descent n w) cs))) = {}"
      using Cons.prems(6) by (simp only: move_once_append list.map concat.simps)
    with k have "k \<notin> set (filter (moves w) (descent n w c))" by auto
    then have "k \<notin> set (filter (moves v) (descent n w c))"
      using same_static_at [OF Cons.prems(5) kl] by simp
    then have "trafo (nodes v' ! k) = trafo (nodes v ! k)"
      using keep kl world_step_length [OF Cons.prems(4)] by simp
    then show "trafo (nodes v' ! k) = trafo (nodes w ! k)" using Cons.prems(7) k by simp
  qed (use Cons.prems(1,2) v'(2) in auto)
  then show ?case by (simp add: visit v'(1) place_all_append)
qed

lemma visit_place_all:
  fixes P :: "'z platform_scheme"
  assumes gl: "gl_matrix P ok" and "world_good P ok ws w" and "ranked rank w" and "i < length (nodes w)"
    and "ok m" and "rank i < n" and "move_once w (descent n w i)"
  shows "visit n P ws (Fin d) m i w = place_all P ws (Fin d) (render_list n P w m i) w"
  using assms(2-7)
proof (induction n arbitrary: i m w)
  case 0
  then show ?case by simp
next
  case (Suc n)
  let ?nd = "nodes w ! i"
  let ?m = "mat4_mul P m (trafo ?nd)"
  have nd: "node_good ok ws w ?nd" using Suc.prems(1,3) by (rule world_good_node)
  then have m: "ok ?m" using gl_matrix.mul_ok [OF gl Suc.prems(4)] by (simp add: node_good_def)
  obtain w1 where w1: "place_node P ws (Fin d) i ?m w = Inr w1" and f: "frame_step P ok ws (Fin d) i w w1"
    using place_node_step [OF gl Suc.prems(1,3) m] by blast
  have child: "c < length (nodes w) \<and> rank c < rank i" if "c \<in> set (children ?nd)" for c
    using that nd Suc.prems(2,3) by (simp add: node_good_def list_all_iff ranked_def)
  have "each (visit n P ws (Fin d) ?m) (children ?nd) w1 =
      place_all P ws (Fin d) (concat (map (render_list n P w ?m) (children ?nd))) w1"
  proof (rule children_place_all [OF gl Suc.prems(1) m])
    fix c v assume c: "c \<in> set (children ?nd)" and "world_good P ok ws v" "world_step w v"
      "move_once v (descent n v c)"
    then show "visit n P ws (Fin d) ?m c v = place_all P ws (Fin d) (render_list n P v ?m c) v"
      using child [OF c] Suc.prems(5) world_step_length ranked_step [OF _ Suc.prems(2)] m
      by (intro Suc.IH) auto
  next
    show "move_once w (concat (map (descent n w) (children ?nd)))"
      using Suc.prems(6) by (simp add: move_once_def split: if_splits)
  next
    fix k assume k: "k \<in> set (concat (map (descent n w) (children ?nd)))"
    then obtain c where c: "c \<in> set (children ?nd)" "k \<in> set (descent n w c)" by auto
    from child [OF c(1)] have "k < length (nodes w)" "rank k < rank i"
      using descent_bound [OF Suc.prems(1) _ c(2)] descent_rank [OF Suc.prems(2,1) _ c(2)] by auto
    moreover from this have "k \<noteq> i" by auto
    moreover have "map trafo (nodes w1) ! k = (map trafo (nodes w))[i := advance P (Fin d) ?nd] ! k"
      using f by (simp add: frame_step_def)
    moreover have "length (nodes w1) = length (nodes w)" using f world_step_length by (simp add: frame_step_def)
    ultimately show "trafo (nodes w1 ! k) = trafo (nodes w ! k)" by simp
  qed (use f child in \<open>simp_all add: frame_step_def same_static_def\<close>)
  then show ?case
    by (simp add: node_at_simp [OF Suc.prems(3)] Let_def w1) (simp add: place_all_def w1)
qed

end
