(* ===== verification/Frame.thy ===== *)
theory Frame
  imports Traversal
begin

text \<open>
  What a frame shows.  The shaders see the uniforms and the texture of unit 0; \<open>shade_node\<close> says how
  a node changes them, and \<open>rendered\<close> folds that over the list of nodes with their matrices and
  collects the bodies with the shading they are drawn in.  The draw calls the traversal records are
  exactly these.  The projection is left out of the comparison: the camera uploads it once, from
  state of its own.
\<close>

section \<open>The shading state\<close>

record shade =
  sh_uniforms :: "string \<Rightarrow> uval option"
  sh_texture :: "handle option"

definition shade_of :: "gl_state \<Rightarrow> shade" where
  "shade_of s = \<lparr>sh_uniforms = uniforms s, sh_texture = bound_texture s 0\<rparr>"

definition with_uniforms :: "(string \<times> uval) list \<Rightarrow> shade \<Rightarrow> shade" where
  "with_uniforms us sh = sh\<lparr>sh_uniforms := foldl (\<lambda>f (x, v). f(x \<mapsto> v)) (sh_uniforms sh) us\<rparr>"

definition same_shade :: "shade \<Rightarrow> shade \<Rightarrow> bool" where
  "same_shade sh sh' \<longleftrightarrow> sh_texture sh = sh_texture sh' \<and>
     (\<forall>x. x \<noteq> ''uProjectionMatrix'' \<longrightarrow> sh_uniforms sh x = sh_uniforms sh' x)"

definition shade_node :: "'a glm_scheme \<Rightarrow> mat \<Rightarrow> looks \<Rightarrow> shade \<Rightarrow> shade" where
  "shade_node P m lk sh =
     (let sh1 = with_uniforms (matrix_uploads m (the (mat3_normalFromMat4 P m))) sh
      in case lk of
        Shows_Material mt \<Rightarrow> with_uniforms (material_uniforms mt) sh1
      | Shows_Light p a d s directional \<Rightarrow>
          (let v = mat4_mul_cast P m p
           in with_uniforms [(''uLightPosition'', UVec (if directional then v[3 := 0] else v)),
                (''uLightAmbient'', UVec a), (''uLightDiffuse'', UVec d), (''uLightSpecular'', UVec s)] sh1)
      | Shows_Texture t \<Rightarrow> with_uniforms [(''uSampler'', UInt 0)] (sh1\<lparr>sh_texture := Some (tx_texture t)\<rparr>)
      | _ \<Rightarrow> sh1)"

fun drawable_looks :: "looks \<Rightarrow> bool" where
  "drawable_looks (Shows_Sphere sp) = True"
| "drawable_looks (Shows_Cube ts) = True"
| "drawable_looks _ = False"

text \<open>The bodies of a list of nodes, in the shading the nodes before them leave.\<close>

fun rendered :: "'a glm_scheme \<Rightarrow> (mat \<times> looks) list \<Rightarrow> shade \<Rightarrow> (looks \<times> shade) list" where
  "rendered P [] sh = []"
| "rendered P ((m, lk) # items) sh =
     (let sh' = shade_node P m lk sh
      in (if drawable_looks lk then [(lk, sh')] else []) @ rendered P items sh')"

section \<open>Draw calls\<close>

fun draws :: "gl_event list \<Rightarrow> draw_call list" where
  "draws [] = []"
| "draws (Draw d # es) = d # draws es"
| "draws (_ # es) = draws es"

lemma draws_append [simp]: "draws (es @ es') = draws es @ draws es'"
  by (induction es rule: draws.induct) simp_all

lemma draws_Draw [simp]: "draws (map Draw ds) = ds"
  by (induction ds) simp_all

lemma draws_Uniform [simp]: "draws (map (\<lambda>(x, v). Uniform x v) us) = []"
  by (induction us) auto

definition shaded :: "shade \<Rightarrow> draw_call \<Rightarrow> bool" where
  "shaded sh d \<longleftrightarrow> same_shade \<lparr>sh_uniforms = d_uniforms d, sh_texture = d_texture d\<rparr> sh"

definition triangle_call :: "webgl_start \<Rightarrow> triangle \<times> number list \<Rightarrow> draw_call \<Rightarrow> bool" where
  "triangle_call ws tuv d \<longleftrightarrow> d_mode d = TRIANGLES \<and> d_indices d = [0, 1, 2] \<and>
     d_sources d (vertexPositionAttribute ws) = Some (3, t_vertices (fst tuv)) \<and>
     d_sources d (normalPositionAttribute ws) = Some (3, t_normal (fst tuv)) \<and>
     d_sources d (texCoordAttribute ws) = Some (2, snd tuv)"

definition sphere_call :: "webgl_start \<Rightarrow> sphere \<Rightarrow> draw_call \<Rightarrow> bool" where
  "sphere_call ws sp d \<longleftrightarrow> d_mode d = TRIANGLE_STRIP \<and> d_indices d = sp_indexData sp \<and>
     d_sources d (vertexPositionAttribute ws) = Some (3, sp_vertexPositionData sp) \<and>
     d_sources d (normalPositionAttribute ws) = Some (3, sp_normalPositionData sp) \<and>
     d_sources d (texCoordAttribute ws) = Some (2, sp_texData sp)"

text \<open>A group of draw calls shows a body in a shading.\<close>

fun shows_body :: "webgl_start \<Rightarrow> draw_call list \<Rightarrow> looks \<times> shade \<Rightarrow> bool" where
  "shows_body ws ds (Shows_Sphere sp, sh) \<longleftrightarrow> (\<exists>d. ds = [d] \<and> sphere_call ws sp d \<and> shaded sh d)"
| "shows_body ws ds (Shows_Cube tss, sh) \<longleftrightarrow> list_all (shaded sh) ds \<and>
     list_all2 (triangle_call ws) (concat (map (\<lambda>ts. zip ts [first_uv, second_uv]) tss)) ds"
| "shows_body ws ds _ \<longleftrightarrow> ds = []"

lemma same_shade_refl [simp, intro]: "same_shade sh sh"
  by (simp add: same_shade_def)

lemma same_shade_trans: "same_shade a b \<Longrightarrow> same_shade b c \<Longrightarrow> same_shade a c"
  by (simp add: same_shade_def)

lemma with_uniforms_same:
  assumes "same_shade a b"
  shows "same_shade (with_uniforms us a) (with_uniforms us b)"
  using assms
proof (induction us arbitrary: a b)
  case (Cons u us)
  obtain x v where u: "u = (x, v)" by (cases u)
  have "with_uniforms (u # us) s = with_uniforms us (s\<lparr>sh_uniforms := (sh_uniforms s)(x \<mapsto> v)\<rparr>)" for s :: shade
    by (simp add: with_uniforms_def u)
  moreover have "same_shade (a\<lparr>sh_uniforms := (sh_uniforms a)(x \<mapsto> v)\<rparr>) (b\<lparr>sh_uniforms := (sh_uniforms b)(x \<mapsto> v)\<rparr>)"
    using Cons.prems by (simp add: same_shade_def)
  ultimately show ?case using Cons.IH by simp
qed (simp add: with_uniforms_def)

lemma shade_node_same: "same_shade a b \<Longrightarrow> same_shade (shade_node P m lk a) (shade_node P m lk b)"
proof -
  assume same: "same_shade a b"
  let ?u = "matrix_uploads m (the (mat3_normalFromMat4 P m))"
  have "same_shade (with_uniforms ?u a) (with_uniforms ?u b)" using same by (rule with_uniforms_same)
  moreover from this have
    "same_shade ((with_uniforms ?u a)\<lparr>sh_texture := h\<rparr>) ((with_uniforms ?u b)\<lparr>sh_texture := h\<rparr>)" for h
    by (simp add: same_shade_def)
  ultimately show ?thesis
    by (simp add: shade_node_def Let_def with_uniforms_same split: looks.split)
qed

lemma shaded_same: "same_shade a b \<Longrightarrow> shaded a d = shaded b d"
  by (auto simp: shaded_def same_shade_def)

lemma shows_body_same: "same_shade a b \<Longrightarrow> shows_body ws ds (lk, a) = shows_body ws ds (lk, b)"
  by (cases lk) (simp_all add: shaded_same cong: list.pred_cong)

lemma shade_of_upload: "shade_of (upload us s) = with_uniforms us (shade_of s)"
  by (simp add: shade_of_def upload_def with_uniforms_def)

lemma scene_shade: "scene_state s = scene_state s' \<Longrightarrow> shade_of s = shade_of s'"
  by (simp add: scene_state_def shade_of_def)

section \<open>One node\<close>

lemma draws_faces_calls:
  assumes "draws_faces ws s fs ds"
  shows "list_all2 (triangle_call ws) fs ds \<and> list_all (shaded (shade_of s)) ds"
proof -
  have "list_all2 (\<lambda>f d. triangle_call ws f d \<and> shaded (shade_of s) d) fs ds"
    using assms unfolding draws_faces_def
    by (rule list_all2_mono) (auto simp: draws_triangle_def triangle_call_def shaded_def shade_of_def split: prod.splits)
  then show ?thesis
    by (auto simp: list_all2_conv_all_nth list_all_length)
qed

text \<open>What \<open>draw\<close> adds to the shading after the matrices are set.\<close>

definition looks_after :: "looks \<Rightarrow> shade \<Rightarrow> shade" where
  "looks_after lk sh = (case lk of
     Shows_Material mt \<Rightarrow> with_uniforms (material_uniforms mt) sh
   | Shows_Texture t \<Rightarrow> with_uniforms [(''uSampler'', UInt 0)] (sh\<lparr>sh_texture := Some (tx_texture t)\<rparr>)
   | _ \<Rightarrow> sh)"

lemma node_draw_shows:
  fixes P :: "'z platform_scheme"
  assumes gl: "gl_matrix P ok" and good: "world_good P ok ws w" and i: "i < length (nodes w)"
    and light: "\<And>l. body (nodes w ! i) \<noteq> LightBody l"
    and draw: "node_draw P i (Fin d) w = Inr w'"
  shows "\<exists>es. trace (gl w') = trace (gl w) @ es \<and>
    same_shade (shade_of (gl w')) (looks_after (appearance (body (nodes w ! i))) (shade_of (gl w))) \<and>
    shows_body ws (draws es) (appearance (body (nodes w ! i)), shade_of (gl w))"
proof -
  have r: "page_ready P ws w" using good by (simp add: world_good_def)
  have nd: "node_good ok ws w (nodes w ! i)" using good i by (rule world_good_node)
  note eq = draw [unfolded node_draw_def node_at_simp [OF i] andThen_simps]
  show ?thesis
  proof (cases "body (nodes w ! i)")
    case (CameraBody c)
    then have cg: "camera_good ok c" using nd by (simp add: node_good_def)
    from camera_draw_frame [OF gl r cg] obtain c' proj where
      "camera_draw P c w = Inr (c', on_gl (setUniform (Some ''uProjectionMatrix'') (UMat proj)) w)"
      by (auto simp: Let_def)
    then have "gl w' = upload [(''uProjectionMatrix'', UMat proj)] (gl w)"
      using eq CameraBody page_ready_program [OF r] by (auto simp: on_gl_def setUniform_upload)
    then show ?thesis
      using CameraBody by (simp add: looks_after_def shade_of_upload with_uniforms_def same_shade_def)
  next
    case (MaterialBody mt)
    then have "gl w' = upload (material_uniforms mt) (gl w)"
      using eq nd material_draw_uploads [OF r, of mt] by (auto simp: node_good_def)
    then show ?thesis using MaterialBody by (simp add: looks_after_def shade_of_upload)
  next
    case (TextureBody t)
    then have "gl w' = texture_bound t (gl w)" using eq texture_draw_binds [OF r, of t] by auto
    then show ?thesis
      using TextureBody by (simp add: looks_after_def texture_bound_def shade_of_upload)
        (simp add: shade_of_def)
  next
    case (SphereBody sp)
    then have "sphere_good ws sp (gl w)" using nd by (simp add: node_good_def)
    from sphere_draw_draws [OF r this] eq SphereBody obtain dc where
      "scene_state (gl w') = scene_state (gl w)" "trace (gl w') = trace (gl w) @ [Draw dc]"
      "draws_sphere ws (gl w) sp dc"
      by auto
    then show ?thesis
      using SphereBody scene_shade [of "gl w'" "gl w"]
      by (auto simp: looks_after_def draws_sphere_def sphere_call_def shaded_def shade_of_def)
  next
    case (CubeBody c)
    then have "cube_good ws c (gl w)" using nd by (simp add: node_good_def)
    from cube_draw_draws [OF r this] eq CubeBody obtain ds where
      "scene_state (gl w') = scene_state (gl w)" "trace (gl w') = trace (gl w) @ map Draw ds"
      "draws_faces ws (gl w) (faces_of (squares c)) ds"
      by (auto simp: andThen_eq_Inr)
    then show ?thesis
      using CubeBody scene_shade [of "gl w'" "gl w"] draws_faces_calls
      by (auto simp: looks_after_def faces_of_def comp_def)
  next
    case (LightBody l)
    with light [of l] show ?thesis by simp
  qed (use eq nd in \<open>auto simp: looks_after_def node_good_def\<close>)
qed

lemma place_node_shows:
  fixes P :: "'z platform_scheme"
  assumes gl: "gl_matrix P ok" and good: "world_good P ok ws w" and i: "i < length (nodes w)" and m: "ok m"
    and place: "place_node P ws (Fin d) i m w = Inr w'"
  defines "lk \<equiv> appearance (body (nodes w ! i))"
  shows "\<exists>es. trace (gl w') = trace (gl w) @ es \<and>
    same_shade (shade_of (gl w')) (shade_node P m lk (shade_of (gl w))) \<and>
    shows_body ws (draws es) (lk, shade_node P m lk (shade_of (gl w)))"
proof -
  have r: "page_ready P ws w" using good by (simp add: world_good_def)
  obtain normal where n: "mat3_normalFromMat4 P m = Some normal"
    using gl_matrix.normal_some [OF gl m] by blast
  let ?us = "matrix_uploads m normal"
  let ?w1 = "w\<lparr>gl := upload ?us (gl w)\<rparr>"
  have good1: "world_good P ok ws ?w1"
    using good by (rule world_good_gl) (rule world_step_gl; simp add: gl_ext_upload)
  have draw: "node_draw P i (Fin d) (lit P m i ?w1) = Inr w'"
    using place place_node_eq [OF r i n] by simp
  have sh1: "shade_of (gl ?w1) = with_uniforms ?us (shade_of (gl w))" by (simp add: shade_of_upload)
  show ?thesis
  proof (cases "\<exists>l. body (nodes w ! i) = LightBody l")
    case True
    then obtain l where l: "body (nodes w ! i) = LightBody l" by blast
    let ?l = "updatePosition P m l" and ?w2 = "lit P m i ?w1"
    have "light_good ?l"
      using world_good_node [OF good i] l by (simp add: node_good_def light_good_def updatePosition_def Let_def)
    moreover have "page_ready P ws ?w2"
      using quiet_step_lit [OF good1, of i m] i by (simp add: quiet_step_def world_good_def)
    moreover have "body (nodes ?w2 ! i) = LightBody ?l" "i < length (nodes ?w2)" "gl ?w2 = gl ?w1"
      using l i by (simp_all add: lit_def nodes_update_node)
    ultimately have w': "gl w' = upload (light_uniforms ?l) (gl ?w1)"
      using draw light_draw_uploads [of P ws ?w2 ?l] by (auto simp: node_draw_def node_at_simp)
    have "shade_of (gl w') = shade_node P m lk (shade_of (gl w))"
      using l n sh1 unfolding w' shade_of_upload
      by (simp add: lk_def shade_node_def Let_def light_uniforms_def) (simp add: updatePosition_def Let_def)
    moreover have "trace (gl w') = trace (gl w) @
        (map (\<lambda>(x, v). Uniform x v) ?us @ map (\<lambda>(x, v). Uniform x v) (light_uniforms ?l))"
      unfolding w' by simp
    moreover have "draws (map (\<lambda>(x, v). Uniform x v) ?us @ map (\<lambda>(x, v). Uniform x v) (light_uniforms ?l)) = []"
      by (simp only: draws_append draws_Uniform append.simps)
    ultimately show ?thesis using l by (auto simp: lk_def)
  next
    case False
    then have "lit P m i ?w1 = ?w1" by (simp add: lit_def split: body.split)
    with draw have "node_draw P i (Fin d) ?w1 = Inr w'" by simp
    with node_draw_shows [where i = i and d = d and w' = w', OF gl good1] False i obtain es where
      es: "trace (gl w') = trace (gl ?w1) @ es" "shows_body ws (draws es) (lk, shade_of (gl ?w1))"
        "same_shade (shade_of (gl w')) (looks_after lk (shade_of (gl ?w1)))"
      by (auto simp: lk_def)
    have lk: "shade_node P m lk (shade_of (gl w)) = looks_after lk (shade_of (gl ?w1))"
      using False n unfolding sh1
      by (cases "body (nodes w ! i)") (simp_all add: lk_def shade_node_def looks_after_def Let_def)
    moreover have "shows_body ws (draws es) (lk, looks_after lk (shade_of (gl ?w1)))"
      using es(2) by (cases lk) (simp_all add: looks_after_def)
    moreover have "trace (gl w') = trace (gl w) @ (map (\<lambda>(x, v). Uniform x v) ?us @ es)"
      using es(1) by simp
    moreover have "draws (map (\<lambda>(x, v). Uniform x v) ?us @ es) = draws es"
      by (simp only: draws_append draws_Uniform append.simps)
    ultimately show ?thesis using es(3) by metis
  qed
qed

section \<open>A list of nodes, and a frame\<close>

definition looks_of :: "world \<Rightarrow> nat \<times> mat \<Rightarrow> mat \<times> looks" where
  "looks_of w item = (snd item, appearance (body (nodes w ! fst item)))"

lemma shows_nothing: "\<not> drawable_looks lk \<Longrightarrow> shows_body ws ds (lk, sh) \<Longrightarrow> ds = []"
  by (cases lk) simp_all

lemma place_all_shows:
  fixes P :: "'z platform_scheme"
  assumes gl: "gl_matrix P ok" and "world_good P ok ws w"
    and "\<forall>(k, m) \<in> set items. k < length (nodes w) \<and> ok m"
    and "place_all P ws (Fin d) items w = Inr w'" and "same_shade (shade_of (gl w)) sh"
  shows "\<exists>es dss. trace (gl w') = trace (gl w) @ es \<and> draws es = concat dss \<and>
    list_all2 (shows_body ws) dss (rendered P (map (looks_of w) items) sh)"
  using assms(2-5)
proof (induction items arbitrary: w sh)
  case Nil
  then show ?case by (auto simp: place_all_def intro: exI [of _ "[]"])
next
  case (Cons item items)
  obtain i m where item: "item = (i, m)" by (cases item)
  then have i: "i < length (nodes w)" and m: "ok m" using Cons.prems(2) by auto
  obtain w1 where w1: "place_node P ws (Fin d) i m w = Inr w1" and f: "frame_step P ok ws (Fin d) i w w1"
    using place_node_step [OF gl Cons.prems(1) i m] by blast
  from f have good1: "world_good P ok ws w1" and len: "length (nodes w1) = length (nodes w)"
    and st: "map (\<lambda>nd. static (body nd)) (nodes w1) = map (\<lambda>nd. static (body nd)) (nodes w)"
    using world_step_length [of w w1] by (simp_all add: frame_step_def)
  let ?lk = "appearance (body (nodes w ! i))"
  let ?sh = "shade_node P m ?lk sh"
  obtain es1 where es1: "trace (gl w1) = trace (gl w) @ es1"
      "same_shade (shade_of (gl w1)) (shade_node P m ?lk (shade_of (gl w)))"
      "shows_body ws (draws es1) (?lk, shade_node P m ?lk (shade_of (gl w)))"
    using place_node_shows [OF gl Cons.prems(1) i m w1] by blast
  have sh: "same_shade (shade_node P m ?lk (shade_of (gl w))) ?sh"
    using Cons.prems(4) by (rule shade_node_same)
  have "looks_of w1 x = looks_of w x" if "x \<in> set items" for x
  proof -
    have "fst x < length (nodes w1)" using that Cons.prems(2) len by auto
    from map_nth_eq [OF st this] show ?thesis by (simp add: looks_of_def static_def)
  qed
  then have looks: "map (looks_of w1) items = map (looks_of w) items" by simp
  have rest: "place_all P ws (Fin d) items w1 = Inr w'"
    using Cons.prems(3) w1 by (simp add: place_all_def item)
  have inside: "\<forall>(k, m) \<in> set items. k < length (nodes w1) \<and> ok m" using Cons.prems(2) len by auto
  obtain es dss where es: "trace (gl w') = trace (gl w1) @ es" "draws es = concat dss"
      "list_all2 (shows_body ws) dss (rendered P (map (looks_of w) items) ?sh)"
    using Cons.IH [OF good1 inside rest same_shade_trans [OF es1(2) sh]] unfolding looks by blast
  have body: "shows_body ws (draws es1) (?lk, ?sh)" using es1(3) shows_body_same [OF sh] by blast
  let ?dss = "if drawable_looks ?lk then draws es1 # dss else dss"
  have "draws (es1 @ es) = concat ?dss" using es(2) shows_nothing [OF _ body] by auto
  moreover have "list_all2 (shows_body ws) ?dss (rendered P (map (looks_of w) (item # items)) sh)"
    using es(3) body by (simp add: item looks_of_def Let_def)
  ultimately show ?case using es(1) es1(1) by (metis append_assoc)
qed

text \<open>A scene ready to be drawn: the stack holds one matrix, the graph has no cycle, what moves is
  reached once, and the call stack is deeper than the graph.\<close>

definition scene_ready ::
    "'a platform_scheme \<Rightarrow> (mat \<Rightarrow> bool) \<Rightarrow> webgl_start \<Rightarrow> (nat \<Rightarrow> nat) \<Rightarrow> nat \<Rightarrow> mat \<Rightarrow> scenegraph \<Rightarrow> world \<Rightarrow> bool" where
  "scene_ready P ok ws rank n m sg w \<longleftrightarrow> world_good P ok ws w \<and> ranked rank w \<and> ok m \<and>
     trafoStack sg = [m] \<and> sg_root sg < length (nodes w) \<and> rank (sg_root sg) < n \<and>
     move_once w (descent n w (sg_root sg))"

lemma scene_draw_place_all:
  fixes P :: "'z platform_scheme"
  assumes gl: "gl_matrix P ok" and ready: "scene_ready P ok ws rank n m sg w"
  shows "scene_draw n P (Fin d) (sg, w) =
    mapResult (\<lambda>w'. (sg\<lparr>sg_days := Fin d\<rparr>, w'))
      (place_all P ws (Fin d) (render_list n P w m (sg_root sg)) w)"
proof -
  note r = ready [unfolded scene_ready_def]
  have "drawTraversal n P (Fin d) (sg_root sg) ([] @ [m], w) =
      mapResult (\<lambda>w'. ([] @ [m], w')) (visit n P ws (Fin d) m (sg_root sg) w)"
    using r by (intro drawTraversal_visit [OF gl]) simp_all
  also have "visit n P ws (Fin d) m (sg_root sg) w = place_all P ws (Fin d) (render_list n P w m (sg_root sg)) w"
    using r by (intro visit_place_all [OF gl, where rank = rank]) simp_all
  finally have t: "drawTraversal n P (Fin d) (sg_root sg) ([m], w) =
      mapResult (\<lambda>w'. ([m], w')) (place_all P ws (Fin d) (render_list n P w m (sg_root sg)) w)"
    by simp
  have "sg\<lparr>sg_days := Fin d, trafoStack := [m]\<rparr> = sg\<lparr>sg_days := Fin d\<rparr>"
    using r by (cases sg) simp
  then show ?thesis
    using r unfolding scene_draw_def prod.case
    by (cases "place_all P ws (Fin d) (render_list n P w m (sg_root sg)) w") (simp_all add: t)
qed

lemma scene_ready_step:
  assumes "scene_ready P ok ws rank n m sg w" and "world_good P ok ws v" and "world_step w v" and "same_static w v"
  shows "scene_ready P ok ws rank n m (sg\<lparr>sg_days := d\<rparr>) v"
proof -
  note r = assms(1) [unfolded scene_ready_def]
  have "descent n v (sg_root sg) = descent n w (sg_root sg)"
    using r by (intro descent_step [OF assms(3)]) auto
  moreover have "k < length (nodes w)" if "k \<in> set (descent n w (sg_root sg))" for k
    using r descent_bound that by blast
  ultimately have "move_once v (descent n v (sg_root sg))"
    using r move_once_step [OF assms(4), of "descent n w (sg_root sg)"] by simp
  then show ?thesis
    using r assms(2,3) ranked_step [OF assms(3)] world_step_length [OF assms(3)] by (simp add: scene_ready_def)
qed

end
