(* ===== verification/Construction.thy ===== *)
theory Construction
  imports Frame
begin

text \<open>
  Building a scene: every constructor of a node class extends a good world to a good world, and the
  description of the world (for each node its matrix and what it is, and the lists of children)
  grows by the new node.  A script like the one of index.ts is verified by running the description
  along.
\<close>

section \<open>What a node is\<close>

datatype kind =
    KPlain
  | KComponent string
  | KCamera
  | KOrbit real real real      \<comment> \<open>radius, tilt and period\<close>
  | KPlanet real real          \<comment> \<open>tilt and period\<close>
  | KMaterial vec vec vec vec number
  | KLight vec vec vec vec
  | KTexture string
  | KSphere number
  | KCube number number number

definition is_sphere :: "number \<Rightarrow> sphere \<Rightarrow> bool" where
  "is_sphere r sp \<longleftrightarrow> sp_vertexPositionData sp = vertexPositionData latitudeBands longitudeBands r \<and>
     sp_normalPositionData sp = normalPositionData latitudeBands longitudeBands \<and>
     sp_texData sp = sphere_texData latitudeBands longitudeBands \<and>
     sp_indexData sp = indexData latitudeBands longitudeBands"

definition is_cube :: "'a glm_scheme \<Rightarrow> number \<Rightarrow> number \<Rightarrow> number \<Rightarrow> cube_node \<Rightarrow> bool" where
  "is_cube P x y z c \<longleftrightarrow> map t_vertices (concat (map triangles (squares c))) =
     map (\<lambda>(a, b, c). triangle_vertices a b c)
       (face_triangles (box_corners (vec3_fromValues P) x y z) cube_faces)"

fun of_kind :: "'a glm_scheme \<Rightarrow> body \<Rightarrow> kind \<Rightarrow> bool" where
  "of_kind P PlainBody k = (k = KPlain)"
| "of_kind P (ComponentBody s) k = (k = KComponent s)"
| "of_kind P (CameraBody c) k = (k = KCamera)"
| "of_kind P (OrbitBody orb) k = (case k of
     KOrbit r tilt c \<Rightarrow> orb = \<lparr>o_radius = Fin r, o_tiltRad = Fin (tilt * (pi / 180)), circulation = Fin c\<rparr>
   | _ \<Rightarrow> False)"
| "of_kind P (PlanetBody pl) k = (case k of
     KPlanet tilt c \<Rightarrow> pl = \<lparr>p_tiltRad = Fin (tilt * pi / 180), rotationPeriod = Fin c\<rparr>
   | _ \<Rightarrow> False)"
| "of_kind P (MaterialBody m) k =
     (k = KMaterial (m_emission m) (m_ambient m) (m_diffuse m) (m_specular m) (m_shininess m))"
| "of_kind P (LightBody l) k = (k = KLight (l_position l) (l_ambient l) (l_diffuse l) (l_specular l))"
| "of_kind P (TextureBody t) k = (k = KTexture (tx_src t))"
| "of_kind P (SphereBody sp) k = (case k of KSphere r \<Rightarrow> is_sphere r sp | _ \<Rightarrow> False)"
| "of_kind P (CubeBody c) k = (case k of KCube x y z \<Rightarrow> is_cube P x y z c | _ \<Rightarrow> False)"
| "of_kind P (PolygonBody pg) k = False"

text \<open>The matrix of a node after \<open>D\<close> days.\<close>

definition matrix_at :: "'a glm_scheme \<Rightarrow> real \<Rightarrow> kind \<Rightarrow> mat" where
  "matrix_at P D k = (case k of
     KOrbit r tilt c \<Rightarrow> orbit_at P r tilt (if c = 0 then 0 else turn c D)
   | KPlanet tilt c \<Rightarrow> planet_at P tilt (turn c D)
   | _ \<Rightarrow> mat4_create P)"

text \<open>\<open>ks\<close> says what the nodes are, \<open>cs\<close> which children they have, \<open>D\<close> how many days have passed; no
  WebGL call has failed and no alert has been shown.\<close>

definition built ::
    "'a platform_scheme \<Rightarrow> (mat \<Rightarrow> bool) \<Rightarrow> webgl_start \<Rightarrow> real \<Rightarrow> kind list \<Rightarrow> nat list list \<Rightarrow> world \<Rightarrow> bool" where
  "built P ok ws D ks cs w \<longleftrightarrow> world_good P ok ws w \<and> gl_errors (gl w) = 0 \<and> alerts w = 0 \<and>
     map children (nodes w) = cs \<and>
     list_all2 (\<lambda>k nd. trafo nd = matrix_at P D k \<and> of_kind P (body nd) k) ks (nodes w)"

lemma built_length: "built P ok ws D ks cs w \<Longrightarrow> length (nodes w) = length cs \<and> length ks = length cs"
  by (auto simp: built_def dest: list_all2_lengthD)

lemma built_node:
  "built P ok ws D ks cs w \<Longrightarrow> i < length ks \<Longrightarrow>
    trafo (nodes w ! i) = matrix_at P D (ks ! i) \<and> of_kind P (body (nodes w ! i)) (ks ! i)"
  unfolding built_def by (blast dest: list_all2_nthD)

lemma built_ready: "built P ok ws D ks cs w \<Longrightarrow> page_ready P ws w"
  by (simp add: built_def world_good_def)

lemma page_ready_nodes [simp]: "page_ready P ws (w\<lparr>nodes := ns\<rparr>) = page_ready P ws w"
  by (simp add: page_ready_def)

lemma node_good_more: "node_good ok ws w nd \<Longrightarrow> node_good ok ws (w\<lparr>nodes := nodes w @ [new]\<rparr>) nd"
  by (auto simp: node_good_def list_all_iff)

text \<open>A new node, on a page that grew while its fields were made.\<close>

lemma built_new:
  assumes b: "built P ok ws D ks cs w" and grows: "page_grows w w1"
    and tex: "\<And>h. textures (gl w) h \<noteq> None \<Longrightarrow> textures (gl w1) h \<noteq> None"
    and err: "gl_errors (gl w1) = gl_errors (gl w)"
    and new: "m = matrix_at P D k" "ok m" "body_good ok ws (gl w1) bd" "of_kind P bd k"
  shows "fst (new_sgnode bd m w1) = length cs \<and>
    built P ok ws D (ks @ [k]) (cs @ [[]]) (snd (new_sgnode bd m w1))"
proof -
  have w1: "w1 = w\<lparr>gl := gl w1\<rparr>" and ext: "gl_ext (gl w) (gl w1)"
    using grows by (simp_all add: page_grows_def)
  have nodes: "nodes w1 = nodes w" using grows by (rule page_grows_nodes)
  have "alerts w1 = alerts (w\<lparr>gl := gl w1\<rparr>)" using w1 by (rule arg_cong)
  have "world_step w (w\<lparr>gl := gl w1\<rparr>)" using ext tex err by (rule world_step_gl)
  then have good1: "world_good P ok ws w1" using b world_good_gl w1 by (metis built_def)
  let ?nd = "\<lparr>children = [], trafo = m, body = bd\<rparr>"
  have "world_good P ok ws (w1\<lparr>nodes := nodes w1 @ [?nd]\<rparr>)"
    using good1 new node_good_more by (auto simp: world_good_def list_all_iff) (simp add: node_good_def)
  then show ?thesis
    using b new(1,4) nodes built_length [OF b] err \<open>alerts w1 = _\<close>
    by (auto simp: built_def new_sgnode_def list_all2_appendI)
qed

lemma yields_new:
  assumes "built P ok ws D ks cs w" and "page_grows w w1"
    and "\<And>h. textures (gl w) h \<noteq> None \<Longrightarrow> textures (gl w1) h \<noteq> None"
    and "gl_errors (gl w1) = gl_errors (gl w)"
    and "m = matrix_at P D k" and "ok m" and "body_good ok ws (gl w1) bd" and "of_kind P bd k"
    and "\<And>w'. built P ok ws D (ks @ [k]) (cs @ [[]]) w' \<Longrightarrow> Q (length cs, w')"
  shows "Q (new_sgnode bd m w1)"
  using built_new [OF assms(1-8)] assms(9) by (metis prod.collapse)

section \<open>The constructors\<close>

lemma page_grows_scene:
  "scene_state (gl w1) = scene_state (gl w) \<Longrightarrow> textures (gl w) h \<noteq> None \<Longrightarrow> textures (gl w1) h \<noteq> None"
  by (simp add: scene_state_def)

lemma new_orbit_node_yields:
  fixes P :: "'z platform_scheme"
  assumes gl: "gl_matrix P ok" and b: "built P ok ws 0 ks cs w"
    and q: "\<And>w'. built P ok ws 0 (ks @ [KOrbit r tilt c]) (cs @ [[]]) w' \<Longrightarrow>
      Q (length cs, w')"
  shows "Q (new_orbit_node P (Fin r) (Fin tilt) (Fin c) w)"
  unfolding new_orbit_node_def gl_matrix.new_orbit_at [OF gl] prod.case
  by (rule yields_new [where Q = Q, OF b _ _ _ _ _ _ _ q]) (simp_all add: gl_matrix.orbit_at_ok [OF gl] matrix_at_def)

lemma new_camera_node_yields:
  fixes P :: "'z platform_scheme"
  assumes gl: "gl_matrix P ok" and b: "built P ok ws D ks cs w"
    and q: "\<And>w'. built P ok ws D (ks @ [KCamera]) (cs @ [[]]) w' \<Longrightarrow> Q (length cs, w')"
  shows "Q (new_camera_node P w)"
  unfolding new_camera_node_def
  by (rule yields_new [where Q = Q, OF b _ _ _ _ _ _ _ q])
    (simp_all add: gl_matrix.create_ok [OF gl] matrix_at_def gl_matrix.new_camera_good [OF gl])

lemma new_material_node_yields:
  fixes P :: "'z platform_scheme"
  assumes gl: "gl_matrix P ok" and b: "built P ok ws D ks cs w"
    and q: "\<And>w'. built P ok ws D (ks @ [KMaterial e a d s sh]) (cs @ [[]]) w' \<Longrightarrow> Q (length cs, w')"
  shows "yields (new_material_node P e a d s sh w) Q"
proof -
  obtain this where m: "new_material P e a d s sh w = Inr (this, w)" "material_good this" "m_emission this = e"
      "m_ambient this = a" "m_diffuse this = d" "m_specular this = s" "m_shininess this = sh"
    using new_material_good [OF built_ready [OF b]] by metis
  show ?thesis
    unfolding new_material_node_def
    by (simp add: m(1), rule yields_new [where Q = Q, OF b _ _ _ _ _ _ _ q])
      (simp_all add: m gl_matrix.create_ok [OF gl] matrix_at_def)
qed

lemma new_light_node_yields:
  fixes P :: "'z platform_scheme"
  assumes gl: "gl_matrix P ok" and b: "built P ok ws D ks cs w" and "s \<noteq> 0"
    and q: "\<And>w'. built P ok ws D (ks @ [KLight [p, q, r, s] a d sp]) (cs @ [[]]) w' \<Longrightarrow>
      Q (length cs, w')"
  shows "yields (new_light_node P [p, q, r, s] a d sp w) Q"
proof -
  note ready = built_ready [OF b]
  obtain this where l: "new_light P [p, q, r, s] a d sp w = Inr (this, w)" "light_good this" "l_ambient this = a"
      "l_diffuse this = d" "l_specular this = sp"
    using new_light_good [OF ready] by metis
  moreover from l(1) have "l_position this = [p, q, r, s]"
    using assms(3) by (auto simp: new_light_def page_ready_getInstance [OF ready] Let_def
        gl_matrix.vec4_set_values [OF gl] numeral_3_eq_3 page_ready_location [OF ready] used_uniforms_def)
  ultimately show ?thesis
    unfolding new_light_node_def
    by (simp, intro yields_new [where Q = Q, OF b _ _ _ _ _ _ _ q]) (simp_all add: gl_matrix.create_ok [OF gl] matrix_at_def)
qed

lemma new_texture_node_yields:
  fixes P :: "'z platform_scheme"
  assumes gl: "gl_matrix P ok" and b: "built P ok ws D ks cs w"
    and q: "\<And>w'. built P ok ws D (ks @ [KTexture src]) (cs @ [[]]) w' \<Longrightarrow> Q (length cs, w')"
  shows "yields (new_texture_node P src w) Q"
proof -
  obtain this w1 where t: "new_texture P src w = Inr (this, w1)" "page_grows w w1" "texture_good this (gl w1)"
      "tx_src this = src" "gl_errors (gl w1) = gl_errors (gl w)"
      "\<forall>h. textures (gl w) h \<noteq> None \<longrightarrow> textures (gl w1) h \<noteq> None"
    using new_texture_good [OF built_ready [OF b]] by metis
  show ?thesis
    unfolding new_texture_node_def
    by (simp add: t(1), rule yields_new [where Q = Q, OF b t(2) _ t(5) _ _ _ _ q])
      (use t in \<open>simp_all add: gl_matrix.create_ok [OF gl] matrix_at_def\<close>)
qed

lemma new_sphere_node_yields:
  fixes P :: "'z platform_scheme"
  assumes gl: "gl_matrix P ok" and b: "built P ok ws D ks cs w"
    and q: "\<And>w'. built P ok ws D (ks @ [KSphere r]) (cs @ [[]]) w' \<Longrightarrow> Q (length cs, w')"
  shows "yields (new_sphere_node P r w) Q"
proof -
  obtain sp w1 where t: "new_sphere P r w = Inr (sp, w1)" "page_grows w w1" "sphere_good ws sp (gl w1)"
      "sp_vertexPositionData sp = vertexPositionData latitudeBands longitudeBands r"
      "sp_normalPositionData sp = normalPositionData latitudeBands longitudeBands"
      "sp_texData sp = sphere_texData latitudeBands longitudeBands"
      "sp_indexData sp = indexData latitudeBands longitudeBands"
      "gl_errors (gl w1) = gl_errors (gl w)" "scene_state (gl w1) = scene_state (gl w)"
    using new_sphere_good [OF built_ready [OF b]] by metis
  show ?thesis
    unfolding new_sphere_node_def
    by (simp add: t(1), rule yields_new [where Q = Q, OF b t(2) page_grows_scene [OF t(9)] t(8) _ _ _ _ q])
      (simp_all add: gl_matrix.create_ok [OF gl] matrix_at_def is_sphere_def t(3-7))
qed

lemma new_cube_body_node_yields:
  fixes P :: "'z platform_scheme"
  assumes gl: "gl_matrix P ok" and b: "built P ok ws D ks cs w"
    and q: "\<And>w'. built P ok ws D (ks @ [KCube x y z]) (cs @ [[]]) w' \<Longrightarrow> Q (length cs, w')"
  shows "yields (new_cube_body_node P x y z w) Q"
proof -
  obtain c w1 where t: "new_cube_node P x y z w = Inr (c, w1)" "page_grows w w1" "cube_good ws c (gl w1)"
      "map t_vertices (concat (map triangles (squares c))) = map (\<lambda>(a, b, c). triangle_vertices a b c)
        (face_triangles (box_corners (vec3_fromValues P) x y z) cube_faces)"
      "gl_errors (gl w1) = gl_errors (gl w)" "scene_state (gl w1) = scene_state (gl w)"
    using new_cube_node_good [OF built_ready [OF b]] by metis
  show ?thesis
    unfolding new_cube_body_node_def
    by (simp add: t(1), rule yields_new [where Q = Q, OF b t(2) page_grows_scene [OF t(6)] t(5) _ _ _ _ q])
      (simp_all add: gl_matrix.create_ok [OF gl] matrix_at_def is_cube_def t(3,4))
qed

lemma addChild_built:
  assumes b: "built P ok ws D ks cs w" and "i < length cs" and "c < length cs"
  shows "built P ok ws D ks (cs[i := cs ! i @ [c]]) (addChild i c w)"
proof -
  note len = built_length [OF b]
  let ?f = "\<lambda>nd. nd\<lparr>children := children nd @ [c]\<rparr>"
  have at: "nodes (update_node i ?f w) ! k = (if k = i then ?f (nodes w ! i) else nodes w ! k)" for k
    using assms(2) len by (intro nodes_update_node) simp
  have good: "node_good ok ws w (nodes w ! k)" if "k < length (nodes w)" for k
    using b that by (auto simp: built_def intro: world_good_node)
  have "node_good ok ws (update_node i ?f w) (nodes (update_node i ?f w) ! k)" if "k < length (nodes w)" for k
    using good [OF that] assms(2,3) len unfolding at by (cases "k = i") (simp_all add: node_good_def)
  moreover have "page_ready P ws (update_node i ?f w)" using built_ready [OF b] by (simp add: update_node_def)
  ultimately have "world_good P ok ws (addChild i c w)"
    by (simp add: world_good_def addChild_def list_all_length)
  moreover have "map children (nodes (addChild i c w)) = cs[i := cs ! i @ [c]]"
  proof -
    have cs: "cs = map children (nodes w)" using b by (simp add: built_def)
    then have "i < length (nodes w)" using assms(2) by simp
    then show ?thesis unfolding cs by (simp add: addChild_def update_node_def map_update)
  qed
  moreover have "list_all2 (\<lambda>k nd. trafo nd = matrix_at P D k \<and> of_kind P (body nd) k) ks (nodes (addChild i c w))"
  proof (rule list_all2_all_nthI)
    show "length ks = length (nodes (addChild i c w))" using len by (simp add: addChild_def)
  next
    fix j assume "j < length ks"
    with built_node [OF b] show "(\<lambda>k nd. trafo nd = matrix_at P D k \<and> of_kind P (body nd) k) (ks ! j) (nodes (addChild i c w) ! j)"
      by (cases "j = i") (auto simp: addChild_def at)
  qed
  ultimately show ?thesis using b by (simp add: built_def addChild_def)
qed

lemma new_planet_node_yields:
  fixes P :: "'z platform_scheme"
  assumes gl: "gl_matrix P ok" and b: "built P ok ws 0 ks cs w" and c: "c \<noteq> 0" and mat: "mat < length cs"
    and q: "\<And>w'. built P ok ws 0 (ks @ [KPlanet tilt c, KTexture tex])
        (cs @ [[mat, length cs + 1], []]) w' \<Longrightarrow>
      Q (length cs, w')"
  shows "yields (new_planet_node P (Fin tilt) (Fin c) mat tex w) Q"
proof -
  let ?pl = "\<lparr>p_tiltRad = Fin (tilt * pi / 180), rotationPeriod = Fin c\<rparr>"
  obtain w1 where w1: "new_sgnode (PlanetBody ?pl) (planet_at P tilt 0) w = (length cs, w1)"
      "built P ok ws 0 (ks @ [KPlanet tilt c]) (cs @ [[]]) w1"
    using built_new [OF b page_grows_refl, of "planet_at P tilt 0" "KPlanet tilt c" "PlanetBody ?pl"] c
    by (auto simp: gl_matrix.planet_at_ok [OF gl] zero_number_def matrix_at_def prod_eq_iff)
  have b2: "built P ok ws 0 (ks @ [KPlanet tilt c]) (cs @ [[mat]]) (addChild (length cs) mat w1)"
    using addChild_built [OF w1(2), of "length cs" mat] mat by (simp add: list_update_append nth_append)
  have "yields (new_texture_node P tex (addChild (length cs) mat w1))
      (\<lambda>(t, w2). Q (length cs, addChild (length cs) t w2))"
  proof (rule new_texture_node_yields [OF gl b2])
    fix w2 assume "built P ok ws 0 ((ks @ [KPlanet tilt c]) @ [KTexture tex])
        ((cs @ [[mat]]) @ [[]]) w2"
    from addChild_built [OF this, of "length cs" "length cs + 1"]
    show "case (length (cs @ [[mat]]), w2) of (t, w2) \<Rightarrow> Q (length cs, addChild (length cs) t w2)"
      using q by (simp add: list_update_append nth_append)
  qed
  then show ?thesis
    by (simp add: new_planet_node_def gl_matrix.new_planet_at [OF gl] w1(1) split_def)
qed

section \<open>A frame of a built scene\<close>

lemma of_kind_static: "static b = static b' \<Longrightarrow> of_kind P b k \<Longrightarrow> of_kind P b' k"
  by (cases b; cases b') (auto simp: static_def is_cube_def split: kind.splits)

fun kind_moves :: "kind \<Rightarrow> bool" where
  "kind_moves (KOrbit r tilt c) = True"
| "kind_moves (KPlanet tilt c) = True"
| "kind_moves _ = False"

lemma of_kind_moves: "of_kind P b k \<Longrightarrow> motion b \<noteq> None \<longleftrightarrow> kind_moves k"
  by (cases b) (auto split: kind.splits)

lemma matrix_at_still: "\<not> kind_moves k \<Longrightarrow> matrix_at P D k = matrix_at P D' k"
  by (cases k) (simp_all add: matrix_at_def)

lemma advance_matrix_at:
  fixes P :: "'z platform_scheme"
  assumes gl: "gl_matrix P ok" and k: "of_kind P (body nd) k" and t: "trafo nd = matrix_at P D k"
    and b: "body_good ok ws s (body nd)"
  shows "advance P (Fin d) nd = matrix_at P (D + d) k"
proof (cases "body nd")
  case (OrbitBody orb)
  then obtain r tilt c where kk: "k = KOrbit r tilt c"
    and o: "orb = \<lparr>o_radius = Fin r, o_tiltRad = Fin (tilt * (pi / 180)), circulation = Fin c\<rparr>"
    using k by (auto split: kind.splits)
  show ?thesis
  proof (cases "c = 0")
    case True
    with OrbitBody kk o t show ?thesis by (simp add: advance_def orbit_draw_def matrix_at_def zero_number_def)
  next
    case False
    with OrbitBody kk o t gl_matrix.orbit_draw_at [OF gl, of orb r c d tilt "turn c D"]
    show ?thesis by (simp add: advance_def matrix_at_def turn_add)
  qed
next
  case (PlanetBody pl)
  then obtain tilt c where kk: "k = KPlanet tilt c"
    and p: "pl = \<lparr>p_tiltRad = Fin (tilt * pi / 180), rotationPeriod = Fin c\<rparr>"
    using k by (auto split: kind.splits)
  moreover have "c \<noteq> 0" using b PlanetBody p by (simp add: zero_number_def)
  ultimately show ?thesis
    using PlanetBody t gl_matrix.planet_draw_at [OF gl, of pl c d tilt "turn c D"]
    by (simp add: advance_def matrix_at_def turn_add)
qed (use k t matrix_at_still [of k P D "D + d"] in \<open>auto simp: advance_def split: kind.splits\<close>)

lemma built_moves:
  assumes "built P ok ws D ks cs w" and "i < length cs"
  shows "moves w i = kind_moves (ks ! i)"
proof -
  have "i < length ks" using assms built_length by metis
  from of_kind_moves [OF conjunct2 [OF built_node [OF assms(1) this]]] show ?thesis by (simp add: moves_def)
qed

lemma built_frame:
  fixes P :: "'z platform_scheme"
  assumes gl: "gl_matrix P ok" and b: "built P ok ws D ks cs w"
    and ready: "scene_ready P ok ws rank n m sg w"
    and reached: "\<And>i. i < length cs \<Longrightarrow> kind_moves (ks ! i) \<Longrightarrow> i \<in> set (descent n w (sg_root sg))"
  shows "yields (scene_draw n P (Fin d) (sg, w)) (\<lambda>(sg', w'). sg' = sg\<lparr>sg_days := Fin d\<rparr> \<and>
    built P ok ws (D + d) ks cs w' \<and> scene_ready P ok ws rank n m sg' w' \<and> world_step w w')"
proof -
  note r = ready [unfolded scene_ready_def]
  note len = built_length [OF b]
  let ?items = "render_list n P w m (sg_root sg)"
  have items: "\<forall>(k, mk) \<in> set ?items. k < length (nodes w) \<and> ok mk"
    using r render_list_ok [OF gl, where w = w and ws = ws and i = "sg_root sg" and m = m] by auto
  obtain v where v: "place_all P ws (Fin d) ?items w = Inr v" "world_good P ok ws v" "world_step w v" "same_static w v"
    and keep: "\<And>k. k < length (nodes w) \<Longrightarrow> k \<notin> set (filter (moves w) (descent n w (sg_root sg))) \<Longrightarrow>
      trafo (nodes v ! k) = trafo (nodes w ! k)"
    and adv: "\<And>k. move_once w (descent n w (sg_root sg)) \<Longrightarrow> k \<in> set (descent n w (sg_root sg)) \<Longrightarrow> moves w k \<Longrightarrow>
      trafo (nodes v ! k) = advance P (Fin d) (nodes w ! k)"
    using place_list_step [where d = d, OF gl _ items] r unfolding map_fst_render_list by metis
  have "list_all2 (\<lambda>k nd. trafo nd = matrix_at P (D + d) k \<and> of_kind P (body nd) k) ks (nodes v)"
  proof (rule list_all2_all_nthI)
    show "length ks = length (nodes v)" using len world_step_length [OF v(3)] by simp
  next
    fix i assume i: "i < length ks"
    then have at: "trafo (nodes w ! i) = matrix_at P D (ks ! i)" "of_kind P (body (nodes w ! i)) (ks ! i)"
      using built_node [OF b] by blast+
    have iw: "i < length (nodes w)" and ic: "i < length cs" using i len by simp_all
    have "map (\<lambda>nd. static (body nd)) (nodes w) = map (\<lambda>nd. static (body nd)) (nodes v)"
      using v(4) by (simp add: same_static_def)
    from map_nth_eq [OF this iw] have kind: "of_kind P (body (nodes v ! i)) (ks ! i)"
      using at(2) of_kind_static by blast
    have "trafo (nodes v ! i) = matrix_at P (D + d) (ks ! i)"
    proof (cases "kind_moves (ks ! i)")
      case True
      have "body_good ok ws (gl w) (body (nodes w ! i))"
        using world_good_node [OF conjunct1 [OF r] iw] by (simp add: node_good_def)
      from advance_matrix_at [OF gl at(2,1) this, of d] True adv [of i] reached [OF ic] built_moves [OF b ic] r
      show ?thesis by simp
    next
      case False
      with keep [OF iw] built_moves [OF b ic] at matrix_at_still [OF False] show ?thesis by simp
    qed
    with kind show "trafo (nodes v ! i) = matrix_at P (D + d) (ks ! i) \<and> of_kind P (body (nodes v ! i)) (ks ! i)"
      by blast
  qed
  moreover have "map children (nodes v) = cs" using b v(3) by (simp add: built_def world_step_def)
  ultimately have "built P ok ws (D + d) ks cs v"
    using b v(2,3) by (simp add: built_def world_step_def)
  then show ?thesis
    using v scene_ready_step [OF ready v(2-4)] by (simp add: scene_draw_place_all [OF gl ready])
qed

end
