(* ===== verification/SolarSystem.thy ===== *)
theory SolarSystem
  imports Construction
begin

text \<open>
  The script of src/szenegraph/index.ts up to the scene: the light, the materials and the camera,
  the ten bodies with their planets and orbits, the calls of \<open>addChild\<close> that tie them together and the
  scene graph with the camera as its root.  The script is verified once and for all: it builds the
  described graph on every platform that satisfies the contract of gl-matrix.
\<close>

section \<open>The script\<close>

text \<open>The variables of the script; each holds a reference to a node.\<close>

record planet_system =
  ps_planet :: nat
  ps_body :: nat
  ps_orbit :: nat

record surfaces =
  v_light :: nat
  v_sunMaterial :: nat
  v_marsMaterial :: nat
  v_earthMaterial :: nat
  v_moonMaterial :: nat
  v_silver :: nat

record bodies =
  v_sun :: planet_system
  v_earth :: planet_system
  v_mars :: planet_system
  v_moon :: planet_system
  v_neptune :: planet_system
  v_uranus :: planet_system
  v_saturn :: planet_system
  v_jupiter :: planet_system
  v_venus :: planet_system
  v_mercury :: planet_system

definition new_surfaces :: "'a platform_scheme \<Rightarrow> world \<Rightarrow> (surfaces \<times> world) result" where
  "new_surfaces P w =
     andThen (new_light_node P (vec4_fromValues P 0 0 0 1) (vec4_fromValues P 1 1 1 1)
       (vec4_fromValues P 1 1 1 1) (vec4_fromValues P 1 1 1 1) w) (\<lambda>(light, w1).
     andThen (new_material_node P (vec4_fromValues P (Fin 0.7) (Fin 0.7) 0 1)
       (vec4_fromValues P (Fin 0.24725) (Fin 0.2245) (Fin 0.0645) 1)
       (vec4_fromValues P (Fin 0.75164) (Fin 0.60648) (Fin 0.22648) 1)
       (vec4_fromValues P (Fin 0.628281) (Fin 0.555802) (Fin 0.366065) 1) (Fin 83.2) w1) (\<lambda>(sunMaterial, w2).
     andThen (new_material_node P (vec4_fromValues P 0 0 0 1)
       (vec4_fromValues P (Fin 0.1745) (Fin 0.01175) (Fin 0.01175) 1)
       (vec4_fromValues P (Fin 0.61424) (Fin 0.04136) (Fin 0.04136) 1)
       (vec4_fromValues P (Fin 0.727811) (Fin 0.626959) (Fin 0.626959) 1) (Fin 0.6) w2) (\<lambda>(marsMaterial, w3).
     andThen (new_material_node P (vec4_fromValues P 0 0 0 1)
       (vec4_fromValues P (Fin 0.135) (Fin 0.2225) (Fin 0.1575) 1)
       (vec4_fromValues P (Fin 0.54) (Fin 0.89) (Fin 0.63) 1)
       (vec4_fromValues P (Fin 0.316228) (Fin 0.316228) (Fin 0.316228) 1) (Fin 12.8) w3) (\<lambda>(earthMaterial, w4).
     andThen (new_material_node P (vec4_fromValues P 0 0 0 1)
       (vec4_fromValues P (Fin 0.105882) (Fin 0.058824) (Fin 0.113725) 1)
       (vec4_fromValues P (Fin 0.427451) (Fin 0.470588) (Fin 0.541176) 1)
       (vec4_fromValues P (Fin 0.333333) (Fin 0.333333) (Fin 0.521569) 1) (Fin 9.84615) w4) (\<lambda>(moonMaterial, w5).
     andThen (new_material_node P (vec4_fromValues P (Fin 0.3) (Fin 0.3) (Fin 0.3) 1)
       (vec4_fromValues P (Fin 0.19225) (Fin 0.19225) (Fin 0.19225) 1)
       (vec4_fromValues P (Fin 0.50754) (Fin 0.50754) (Fin 0.50754) 1)
       (vec4_fromValues P (Fin 0.508273) (Fin 0.508273) (Fin 0.508273) 1) (Fin 0.4 * 128) w5) (\<lambda>(silver, w6).
     Inr (\<lparr>v_light = light, v_sunMaterial = sunMaterial, v_marsMaterial = marsMaterial,
       v_earthMaterial = earthMaterial, v_moonMaterial = moonMaterial, v_silver = silver\<rparr>, w6)))))))"

text \<open>The three constructors in a row that the script repeats for every celestial body.\<close>

definition new_system ::
    "'a platform_scheme \<Rightarrow> number \<Rightarrow> number \<Rightarrow> nat \<Rightarrow> string \<Rightarrow> (world \<Rightarrow> (nat \<times> world) result) \<Rightarrow>
     number \<Rightarrow> number \<Rightarrow> number \<Rightarrow> world \<Rightarrow> (planet_system \<times> world) result" where
  "new_system P tilt rotation mat tex new_body radius orbitTilt period w =
     andThen (new_planet_node P tilt rotation mat tex w) (\<lambda>(p, w1).
     andThen (new_body w1) (\<lambda>(b, w2).
     case new_orbit_node P radius orbitTilt period w2 of (orb, w3) \<Rightarrow>
       Inr (\<lparr>ps_planet = p, ps_body = b, ps_orbit = orb\<rparr>, w3)))"

definition new_bodies :: "'a platform_scheme \<Rightarrow> surfaces \<Rightarrow> world \<Rightarrow> (bodies \<times> world) result" where
  "new_bodies P v w =
     andThen (new_system P (Fin 7.25) (Fin 25.38) (v_sunMaterial v) ''sun.jpg''
       (new_sphere_node P 20) 0 0 0 w) (\<lambda>(sun, w1).
     andThen (new_system P (Fin 23.45) 1 (v_earthMaterial v) ''earth.jpg''
       (new_sphere_node P 4) 80 0 365 w1) (\<lambda>(earth, w2).
     andThen (new_system P (Fin 25.19) (Fin 1.03) (v_moonMaterial v) ''mars.jpg''
       (new_sphere_node P 2) 105 19 678 w2) (\<lambda>(mars, w3).
     andThen (new_system P (Fin 1.54) (Fin 27.32) (v_moonMaterial v) ''borg-cube.jpg''
       (new_cube_body_node P 1 1 1) 6 (Fin 5.145) (Fin 27.32) w3) (\<lambda>(moon, w4).
     andThen (new_system P (Fin 29.58) (Fin 0.80) (v_moonMaterial v) ''neptune.jpg''
       (new_sphere_node P 10) 450 (Fin 1.77) 60152 w4) (\<lambda>(neptune, w5).
     andThen (new_system P (Fin 97.86) (Fin 0.75) (v_moonMaterial v) ''uranus.jpg''
       (new_sphere_node P 11) 280 (Fin 0.77) 30664 w5) (\<lambda>(uranus, w6).
     andThen (new_system P (Fin 26.73) (Fin 0.43) (v_moonMaterial v) ''saturn.jpg''
       (new_sphere_node P 14) 210 (Fin 2.48) 10753 w6) (\<lambda>(saturn, w7).
     andThen (new_system P (Fin 3.12) (Fin 0.41) (v_moonMaterial v) ''jupiter.jpg''
       (new_sphere_node P 15) 130 (Fin 1.04) 4329 w7) (\<lambda>(jupiter, w8).
     andThen (new_system P (Fin 177.36) 243 (v_moonMaterial v) ''venus.jpg''
       (new_sphere_node P 4) 60 (Fin 3.40) 226 w8) (\<lambda>(venus, w9).
     andThen (new_system P 0 (Fin 58.65) (v_silver v) ''mercury.jpg''
       (new_sphere_node P 2) 40 7 88 w9) (\<lambda>(mercury, w10).
     Inr (\<lparr>v_sun = sun, v_earth = earth, v_mars = mars, v_moon = moon, v_neptune = neptune,
       v_uranus = uranus, v_saturn = saturn, v_jupiter = jupiter, v_venus = venus, v_mercury = mercury\<rparr>,
       w10)))))))))))"

text \<open>The calls of \<open>setMaterial\<close> and \<open>addChild\<close>, in their order: parent and child.\<close>

definition wiring :: "nat \<Rightarrow> surfaces \<Rightarrow> bodies \<Rightarrow> (nat \<times> nat) list" where
  "wiring camera v b =
     [(ps_planet (v_sun b), v_sunMaterial v), (ps_planet (v_earth b), v_earthMaterial v),
      (ps_planet (v_mars b), v_marsMaterial v), (ps_planet (v_moon b), v_moonMaterial v),
      (camera, ps_orbit (v_sun b)),
      (ps_orbit (v_sun b), ps_planet (v_sun b)),
      (ps_orbit (v_sun b), ps_orbit (v_earth b)),
      (ps_orbit (v_sun b), ps_orbit (v_mars b)),
      (ps_orbit (v_sun b), ps_orbit (v_neptune b)),
      (ps_orbit (v_sun b), ps_orbit (v_uranus b)),
      (ps_orbit (v_sun b), ps_orbit (v_venus b)),
      (ps_orbit (v_sun b), ps_orbit (v_mercury b)),
      (ps_orbit (v_sun b), ps_orbit (v_saturn b)),
      (ps_orbit (v_sun b), ps_orbit (v_jupiter b)),
      (ps_orbit (v_neptune b), ps_planet (v_neptune b)), (ps_planet (v_neptune b), ps_body (v_neptune b)),
      (ps_orbit (v_uranus b), ps_planet (v_uranus b)), (ps_planet (v_uranus b), ps_body (v_uranus b)),
      (ps_orbit (v_venus b), ps_planet (v_venus b)), (ps_planet (v_venus b), ps_body (v_venus b)),
      (ps_orbit (v_mercury b), ps_planet (v_mercury b)), (ps_planet (v_mercury b), ps_body (v_mercury b)),
      (ps_orbit (v_saturn b), ps_planet (v_saturn b)), (ps_planet (v_saturn b), ps_body (v_saturn b)),
      (ps_orbit (v_jupiter b), ps_planet (v_jupiter b)), (ps_planet (v_jupiter b), ps_body (v_jupiter b)),
      (ps_planet (v_sun b), ps_body (v_sun b)),
      (ps_body (v_sun b), v_light v),
      (ps_orbit (v_mars b), ps_planet (v_mars b)),
      (ps_orbit (v_earth b), ps_planet (v_earth b)),
      (ps_planet (v_mars b), ps_body (v_mars b)),
      (ps_planet (v_earth b), ps_body (v_earth b)),
      (ps_orbit (v_earth b), ps_orbit (v_moon b)),
      (ps_orbit (v_moon b), ps_planet (v_moon b)),
      (ps_planet (v_moon b), ps_body (v_moon b))]"

definition wire :: "(nat \<times> nat) list \<Rightarrow> world \<Rightarrow> world" where
  "wire es w = foldl (\<lambda>w (i, c). addChild i c w) w es"

definition new_scene :: "'a platform_scheme \<Rightarrow> world \<Rightarrow> ((nat \<times> scenegraph) \<times> world) result" where
  "new_scene P w =
     andThen (new_surfaces P w) (\<lambda>(v, w1).
     case new_camera_node P w1 of (camera, w2) \<Rightarrow>
     andThen (new_bodies P v w2) (\<lambda>(b, w3).
     let w4 = wire (wiring camera v b) w3
     in andThen (new_scenegraph P camera w4) (\<lambda>sg. Inr ((camera, sg), w4))))"

section \<open>What it builds\<close>

definition system_kinds :: "real \<Rightarrow> real \<Rightarrow> string \<Rightarrow> kind \<Rightarrow> real \<Rightarrow> real \<Rightarrow> real \<Rightarrow> kind list" where
  "system_kinds tilt rotation tex k r t c = [KPlanet tilt rotation, KTexture tex, k, KOrbit r t c]"

lemma length_system_kinds [simp]: "length (system_kinds tilt rotation tex k r t c) = 4"
  by (simp add: system_kinds_def)

lemma new_system_yields:
  fixes P :: "'z platform_scheme"
  assumes gl: "gl_matrix P ok" and b: "built P ok ws 0 ks cs w" and "rotation \<noteq> 0" and "mat < length cs"
    and bdy: "\<And>ks cs w Q. built P ok ws 0 ks cs w \<Longrightarrow>
      (\<And>w'. built P ok ws 0 (ks @ [k]) (cs @ [[]]) w' \<Longrightarrow> Q (length cs, w')) \<Longrightarrow> yields (new_body w) Q"
    and q: "\<And>w'. built P ok ws 0 (ks @ system_kinds tilt rotation tex k r t c)
        (cs @ [[mat, length cs + 1], [], [], []]) w' \<Longrightarrow>
      Q (\<lparr>ps_planet = length cs, ps_body = length cs + 2, ps_orbit = length cs + 3\<rparr>, w')"
  shows "yields (new_system P (Fin tilt) (Fin rotation) mat tex new_body (Fin r) (Fin t) (Fin c) w) Q"
  unfolding new_system_def yields_andThen
proof (rule new_planet_node_yields [OF gl b assms(3,4)], unfold prod.case yields_andThen, rule bdy,
    assumption, unfold prod.case)
  fix w1 w2
  assume "built P ok ws 0 ((ks @ [KPlanet tilt rotation, KTexture tex]) @ [k])
    ((cs @ [[mat, length cs + 1], []]) @ [[]]) w2"
  from new_orbit_node_yields [where Q = "\<lambda>(orb, w3). Q (\<lparr>ps_planet = length cs,
        ps_body = length (cs @ [[mat, length cs + 1], []]), ps_orbit = orb\<rparr>, w3)", OF gl this] q
  show "yields (case new_orbit_node P (Fin r) (Fin t) (Fin c) w2 of (orb, w3) \<Rightarrow>
      Inr (\<lparr>ps_planet = length cs, ps_body = length (cs @ [[mat, length cs + 1], []]), ps_orbit = orb\<rparr>, w3)) Q"
    by (simp add: system_kinds_def split_def numeral_2_eq_2 numeral_3_eq_3)
qed


text \<open>The light, the five materials and the camera are the nodes 0 to 6.\<close>

definition base_kinds :: "kind list" where
  "base_kinds =
    [KLight [Fin 0, Fin 0, Fin 0, Fin 1] [Fin 1, Fin 1, Fin 1, Fin 1] [Fin 1, Fin 1, Fin 1, Fin 1]
       [Fin 1, Fin 1, Fin 1, Fin 1],
     KMaterial [Fin 0.7, Fin 0.7, Fin 0, Fin 1] [Fin 0.24725, Fin 0.2245, Fin 0.0645, Fin 1]
       [Fin 0.75164, Fin 0.60648, Fin 0.22648, Fin 1] [Fin 0.628281, Fin 0.555802, Fin 0.366065, Fin 1] (Fin 83.2),
     KMaterial [Fin 0, Fin 0, Fin 0, Fin 1] [Fin 0.1745, Fin 0.01175, Fin 0.01175, Fin 1]
       [Fin 0.61424, Fin 0.04136, Fin 0.04136, Fin 1] [Fin 0.727811, Fin 0.626959, Fin 0.626959, Fin 1] (Fin 0.6),
     KMaterial [Fin 0, Fin 0, Fin 0, Fin 1] [Fin 0.135, Fin 0.2225, Fin 0.1575, Fin 1]
       [Fin 0.54, Fin 0.89, Fin 0.63, Fin 1] [Fin 0.316228, Fin 0.316228, Fin 0.316228, Fin 1] (Fin 12.8),
     KMaterial [Fin 0, Fin 0, Fin 0, Fin 1] [Fin 0.105882, Fin 0.058824, Fin 0.113725, Fin 1]
       [Fin 0.427451, Fin 0.470588, Fin 0.541176, Fin 1] [Fin 0.333333, Fin 0.333333, Fin 0.521569, Fin 1] (Fin 9.84615),
     KMaterial [Fin 0.3, Fin 0.3, Fin 0.3, Fin 1] [Fin 0.19225, Fin 0.19225, Fin 0.19225, Fin 1]
       [Fin 0.50754, Fin 0.50754, Fin 0.50754, Fin 1] [Fin 0.508273, Fin 0.508273, Fin 0.508273, Fin 1]
       (Fin 0.4 * Fin 128)]"

abbreviation base_surfaces :: surfaces where
  "base_surfaces \<equiv> \<lparr>v_light = 0, v_sunMaterial = 1, v_marsMaterial = 2, v_earthMaterial = 3,
     v_moonMaterial = 4, v_silver = 5\<rparr>"

lemma new_surfaces_yields:
  fixes P :: "'z platform_scheme"
  assumes gl: "gl_matrix P ok" and b: "built P ok ws 0 [] [] w"
    and q: "\<And>w'. built P ok ws 0 base_kinds (replicate 6 []) w' \<Longrightarrow> Q (base_surfaces, w')"
  shows "yields (new_surfaces P w) Q"
  unfolding new_surfaces_def yields_andThen gl_matrix.vec4_values [OF gl] num_simps
  apply (rule new_light_node_yields [OF gl b], simp add: zero_number_def)
  apply (unfold prod.case yields_andThen)
  apply (rule new_material_node_yields [OF gl], assumption, unfold prod.case yields_andThen)+
  using q by (simp add: base_kinds_def num_simps numeral_eq_Suc)


text \<open>The planets follow, four nodes each: the planet, its texture, its body and its orbit.\<close>

definition solar_kinds :: "kind list" where
  "solar_kinds = base_kinds @ [KCamera] @
     system_kinds 7.25 25.38 ''sun.jpg'' (KSphere 20) 0 0 0 @
     system_kinds 23.45 1 ''earth.jpg'' (KSphere 4) 80 0 365 @
     system_kinds 25.19 1.03 ''mars.jpg'' (KSphere 2) 105 19 678 @
     system_kinds 1.54 27.32 ''borg-cube.jpg'' (KCube 1 1 1) 6 5.145 27.32 @
     system_kinds 29.58 0.80 ''neptune.jpg'' (KSphere 10) 450 1.77 60152 @
     system_kinds 97.86 0.75 ''uranus.jpg'' (KSphere 11) 280 0.77 30664 @
     system_kinds 26.73 0.43 ''saturn.jpg'' (KSphere 14) 210 2.48 10753 @
     system_kinds 3.12 0.41 ''jupiter.jpg'' (KSphere 15) 130 1.04 4329 @
     system_kinds 177.36 243 ''venus.jpg'' (KSphere 4) 60 3.40 226 @
     system_kinds 0 58.65 ''mercury.jpg'' (KSphere 2) 40 7 88"

definition unwired :: "nat list list" where
  "unwired = replicate 7 [] @ concat (map (\<lambda>(mat, tex). [[mat, tex], [], [], []])
     [(1, 8), (3, 12), (4, 16), (4, 20), (4, 24), (4, 28), (4, 32), (4, 36), (4, 40), (5, 44)])"

definition ps_at :: "nat \<Rightarrow> planet_system" where
  "ps_at n = \<lparr>ps_planet = n, ps_body = n + 2, ps_orbit = n + 3\<rparr>"

definition solar_bodies :: bodies where
  "solar_bodies = \<lparr>v_sun = ps_at 7, v_earth = ps_at 11, v_mars = ps_at 15, v_moon = ps_at 19,
     v_neptune = ps_at 23, v_uranus = ps_at 27, v_saturn = ps_at 31, v_jupiter = ps_at 35,
     v_venus = ps_at 39, v_mercury = ps_at 43\<rparr>"

lemma sphere_system_yields:
  fixes P :: "'z platform_scheme"
  assumes gl: "gl_matrix P ok" and b: "built P ok ws 0 ks cs w" and "rotation \<noteq> 0" and "mat < length cs"
    and q: "\<And>w'. built P ok ws 0 (ks @ system_kinds tilt rotation tex (KSphere x) r t c)
        (cs @ [[mat, length cs + 1], [], [], []]) w' \<Longrightarrow> Q (ps_at (length cs), w')"
  shows "yields (new_system P (Fin tilt) (Fin rotation) mat tex (new_sphere_node P x) (Fin r) (Fin t) (Fin c) w) Q"
  by (rule new_system_yields [OF gl b assms(3,4) new_sphere_node_yields [OF gl]])
    (use q in \<open>simp_all add: ps_at_def\<close>)

lemma cube_system_yields:
  fixes P :: "'z platform_scheme"
  assumes gl: "gl_matrix P ok" and b: "built P ok ws 0 ks cs w" and "rotation \<noteq> 0" and "mat < length cs"
    and q: "\<And>w'. built P ok ws 0 (ks @ system_kinds tilt rotation tex (KCube x y z) r t c)
        (cs @ [[mat, length cs + 1], [], [], []]) w' \<Longrightarrow> Q (ps_at (length cs), w')"
  shows "yields (new_system P (Fin tilt) (Fin rotation) mat tex (new_cube_body_node P x y z)
    (Fin r) (Fin t) (Fin c) w) Q"
  by (rule new_system_yields [OF gl b assms(3,4) new_cube_body_node_yields [OF gl]])
    (use q in \<open>simp_all add: ps_at_def\<close>)

lemma new_bodies_yields:
  fixes P :: "'z platform_scheme"
  assumes gl: "gl_matrix P ok" and b: "built P ok ws 0 (base_kinds @ [KCamera]) (replicate 7 []) w"
    and q: "\<And>w'. built P ok ws 0 solar_kinds unwired w' \<Longrightarrow> Q (solar_bodies, w')"
  shows "yields (new_bodies P base_surfaces w) Q"
proof -
  note sphere = sphere_system_yields [OF gl] and cube = cube_system_yields [OF gl]
  show ?thesis
    unfolding new_bodies_def yields_andThen num_simps surfaces.simps
    apply (rule sphere, rule b, simp, simp, unfold prod.case yields_andThen)
    apply (rule sphere, assumption, simp, simp, unfold prod.case yields_andThen)
    apply (rule sphere, assumption, simp, simp, unfold prod.case yields_andThen)
    apply (rule cube, assumption, simp, simp, unfold prod.case yields_andThen)
    apply (rule sphere, assumption, simp, simp, unfold prod.case yields_andThen)+
    apply (simp only: yields_Inr append_assoc length_append length_replicate list.size)
    using q unfolding solar_kinds_def unwired_def solar_bodies_def num_simps by simp
qed


section \<open>The wiring\<close>

definition wired :: "(nat \<times> nat) list \<Rightarrow> nat list list \<Rightarrow> nat list list" where
  "wired es cs = foldl (\<lambda>cs (i, c). cs[i := cs ! i @ [c]]) cs es"

lemma wire_built:
  assumes "built P ok ws D ks cs w" and "list_all (\<lambda>(i, c). i < length cs \<and> c < length cs) es"
  shows "built P ok ws D ks (wired es cs) (wire es w)"
  using assms
proof (induction es arbitrary: cs w)
  case Nil
  then show ?case by (simp add: wired_def wire_def)
next
  case (Cons e es)
  obtain i c where e: "e = (i, c)" by (cases e)
  have "built P ok ws D ks (wired es (cs[i := cs ! i @ [c]])) (wire es (addChild i c w))"
    using Cons.prems by (intro Cons.IH addChild_built) (simp_all add: e)
  then show ?case by (simp add: e wired_def wire_def)
qed

text \<open>The graph: the nodes below each node.\<close>

definition solar_children :: "nat list list" where
  "solar_children =
    [[], [], [], [], [], [], [10],
     [1, 8, 1, 9], [], [0], [7, 14, 18, 26, 30, 42, 46, 34, 38],
     [3, 12, 3, 13], [], [], [11, 22],
     [4, 16, 2, 17], [], [], [15],
     [4, 20, 4, 21], [], [], [19],
     [4, 24, 25], [], [], [23],
     [4, 28, 29], [], [], [27],
     [4, 32, 33], [], [], [31],
     [4, 36, 37], [], [], [35],
     [4, 40, 41], [], [], [39],
     [5, 44, 45], [], [], [43]]"

lemma solar_wired: "wired (wiring 6 base_surfaces solar_bodies) unwired = solar_children"
  by (simp add: wired_def wiring_def solar_bodies_def ps_at_def unwired_def solar_children_def numeral_eq_Suc)

lemma solar_edges:
  "list_all (\<lambda>(i, c). i < length unwired \<and> c < length unwired) (wiring 6 base_surfaces solar_bodies)"
  by (simp add: wiring_def solar_bodies_def ps_at_def unwired_def)

lemma length_solar_children: "length solar_children = 47"
  by (simp add: solar_children_def)

definition solar_scene :: "'a glm_scheme \<Rightarrow> scenegraph" where
  "solar_scene P = \<lparr>sg_root = 6, trafoStack = [mat4_create P], sg_days = NaN\<rparr>"

lemma new_scene_yields:
  fixes P :: "'z platform_scheme"
  assumes gl: "gl_matrix P ok" and b: "built P ok ws 0 [] [] w"
  shows "yields (new_scene P w) (\<lambda>((camera, sg), w'). camera = 6 \<and> sg = solar_scene P \<and>
    built P ok ws 0 solar_kinds solar_children w')"
proof -
  have scene: "yields (new_scenegraph P 6 w') (\<lambda>sg. sg = solar_scene P)"
    if "built P ok ws 0 solar_kinds solar_children w'" for w'
  proof -
    have i: "6 < length (nodes w')" using built_length [OF that] by (simp add: length_solar_children)
    moreover have "trafo (nodes w' ! 6) = mat4_create P"
    proof -
      have "6 < length solar_kinds" "solar_kinds ! 6 = KCamera"
        by (simp_all add: solar_kinds_def base_kinds_def)
      with built_node [OF that, of 6] show ?thesis by (simp add: matrix_at_def)
    qed
    ultimately show ?thesis
      by (simp add: new_scenegraph_def node_at_simp getTrafo_def gl_matrix.stack_push_simp [OF gl]
          gl_matrix.create_ok [OF gl] new_matrix_stack_def solar_scene_def)
  qed
  show ?thesis
    unfolding new_scene_def yields_andThen
  proof (rule new_surfaces_yields [OF gl b], unfold prod.case)
    fix w1
    assume "built P ok ws 0 base_kinds (replicate 6 []) w1"
    then show "yields (case new_camera_node P w1 of (camera, w2) \<Rightarrow> andThen (new_bodies P base_surfaces w2)
        (\<lambda>(b, w3). let w4 = wire (wiring camera base_surfaces b) w3
          in andThen (new_scenegraph P camera w4) (\<lambda>sg. Inr ((camera, sg), w4))))
      (\<lambda>((camera, sg), w'). camera = 6 \<and> sg = solar_scene P \<and> built P ok ws 0 solar_kinds solar_children w')"
    proof (rule new_camera_node_yields [OF gl], unfold prod.case yields_andThen)
      fix w2
      assume "built P ok ws 0 (base_kinds @ [KCamera]) (replicate 6 [] @ [[]]) w2"
      then have "built P ok ws 0 (base_kinds @ [KCamera]) (replicate 7 []) w2"
        by (simp add: numeral_eq_Suc)
      then show "yields (new_bodies P base_surfaces w2) (\<lambda>x. yields (case x of (b, w3) \<Rightarrow>
          let w4 = wire (wiring (length (replicate 6 ([] :: nat list))) base_surfaces b) w3
          in andThen (new_scenegraph P (length (replicate 6 ([] :: nat list))) w4)
            (\<lambda>sg. Inr ((length (replicate 6 ([] :: nat list)), sg), w4)))
        (\<lambda>((camera, sg), w'). camera = 6 \<and> sg = solar_scene P \<and> built P ok ws 0 solar_kinds solar_children w'))"
      proof (rule new_bodies_yields [OF gl])
        fix w3
        assume "built P ok ws 0 solar_kinds unwired w3"
        from wire_built [OF this solar_edges]
        have "built P ok ws 0 solar_kinds solar_children (wire (wiring 6 base_surfaces solar_bodies) w3)"
          by (simp only: solar_wired)
        then show "yields (case (solar_bodies, w3) of (b, w3) \<Rightarrow>
          let w4 = wire (wiring (length (replicate 6 ([] :: nat list))) base_surfaces b) w3
          in andThen (new_scenegraph P (length (replicate 6 ([] :: nat list))) w4)
            (\<lambda>sg. Inr ((length (replicate 6 ([] :: nat list)), sg), w4)))
        (\<lambda>((camera, sg), w'). camera = 6 \<and> sg = solar_scene P \<and> built P ok ws 0 solar_kinds solar_children w')"
          using scene by (simp add: Let_def)
      qed
    qed
  qed
qed


text \<open>The first constructor of the script is also the first use of the WebGL singleton.\<close>

lemma getInstance_nodes: "getInstance P w = Inr (ws, w') \<Longrightarrow> nodes w' = nodes w"
  by (auto simp: getInstance_def andThen_eq_Inr split: option.splits)

lemma new_scene_first:
  assumes "getInstance P w = Inr (ws, w0)"
  shows "new_scene P w = new_scene P w0"
  by (simp add: new_scene_def new_surfaces_def new_light_node_def new_light_def assms webgl.get_again [OF assms])

lemma world_init_built:
  fixes P :: "'z platform_scheme"
  assumes "platform_ok P"
  obtains ws w0 where "getInstance P world_init = Inr (ws, w0)" and "built P ok ws 0 [] [] w0"
proof -
  have init: "webgl_instance world_init = None" "enabled (gl world_init) = []" "nodes world_init = []"
      "gl_errors (gl world_init) = 0" "alerts world_init = 0"
    by (simp_all add: world_init_def page_init_def gl_init_def page.defs world.defs)
  obtain ws w0 where w0: "getInstance P world_init = Inr (ws, w0)" "gl_ready P ws (gl w0)"
      "alerts w0 = alerts world_init" "gl_errors (gl w0) = gl_errors (gl world_init)"
    using assms init(1,2) by (rule getInstance_first)
  moreover have "page_ready P ws w0"
    using assms w0(2) webgl.get_stores [OF w0(1)] by (simp add: page_ready_def)
  ultimately show ?thesis
    using that init getInstance_nodes [OF w0(1)] by (simp add: built_def world_good_def)
qed

section \<open>The scene is ready to be drawn\<close>

text \<open>The longest path down from each node.\<close>

definition solar_rank :: "nat \<Rightarrow> nat" where
  "solar_rank i = [0, 0, 0, 0, 0, 0, 5, 2, 0, 1, 4, 1, 0, 0, 3, 1, 0, 0, 2, 1, 0, 0, 2, 1, 0, 0, 2,
     1, 0, 0, 2, 1, 0, 0, 2, 1, 0, 0, 2, 1, 0, 0, 2, 1, 0, 0, 2] ! i"

lemma built_children: "built P ok ws D ks cs w \<Longrightarrow> i < length cs \<Longrightarrow> children (nodes w ! i) = cs ! i"
  by (auto simp: built_def)

primrec paths :: "nat \<Rightarrow> nat list list \<Rightarrow> nat \<Rightarrow> nat list" where
  "paths 0 cs i = []"
| "paths (Suc n) cs i = i # concat (map (paths n cs) (cs ! i))"

definition inside :: "nat list list \<Rightarrow> bool" where
  "inside cs \<longleftrightarrow> list_all (list_all (\<lambda>c. c < length cs)) cs"

lemma built_paths:
  assumes "built P ok ws D ks cs w" and "inside cs" and "i < length cs"
  shows "descent n w i = paths n cs i"
  using assms(3)
proof (induction n arbitrary: i)
  case (Suc n)
  have "c < length cs" if "c \<in> set (cs ! i)" for c
    using assms(2) Suc.prems that by (auto simp: inside_def list_all_iff)
  then show ?case using Suc built_children [OF assms(1) Suc.prems] by (simp cong: map_cong)
qed simp

text \<open>A call stack deeper than the rank changes nothing.\<close>

lemma paths_deep:
  assumes "list_all (\<lambda>i. list_all (\<lambda>c. c < length cs \<and> rank c < rank i) (cs ! i)) [0..<length cs]"
    and "i < length cs" and "rank i < n" and "rank i < m"
  shows "paths n cs i = paths m cs i"
  using assms(2-4)
proof (induction n arbitrary: m i)
  case (Suc n)
  obtain m' where m: "m = Suc m'" using Suc.prems(3) by (cases m) auto
  have "map (paths n cs) (cs ! i) = map (paths m' cs) (cs ! i)"
  proof (intro map_cong refl)
    fix c assume "c \<in> set (cs ! i)"
    then have "c < length cs" "rank c < rank i" using assms(1) Suc.prems(1) by (auto simp: list_all_iff)
    with Suc.prems(2,3) m show "paths n cs c = paths m' cs c" by (intro Suc.IH) simp_all
  qed
  then show ?case unfolding m paths.simps by (simp only:)
qed simp

lemma solar_ranked:
  "list_all (\<lambda>i. list_all (\<lambda>c. c < length solar_children \<and> solar_rank c < solar_rank i) (solar_children ! i))
    [0..<length solar_children]"
  by code_simp

lemma solar_inside: "inside solar_children"
  by code_simp


definition solar_descent :: "nat list" where
  "solar_descent = paths 6 solar_children 6"

lemma solar_descent_moves:
  "distinct (filter (\<lambda>i. kind_moves (solar_kinds ! i)) solar_descent)"
  "list_all (\<lambda>i. kind_moves (solar_kinds ! i) \<longrightarrow> i \<in> set solar_descent) [0..<47]"
proof -
  have k: "map kind_moves solar_kinds = replicate 7 False @ concat (replicate 10 [True, False, False, True])"
    by (simp add: solar_kinds_def base_kinds_def system_kinds_def numeral_eq_Suc)
  have at: "kind_moves (solar_kinds ! i) = (replicate 7 False @ concat (replicate 10 [True, False, False, True])) ! i"
    if "i < 47" for i
    unfolding k [symmetric] using that by (intro nth_map [symmetric]) (simp add: solar_kinds_def base_kinds_def)
  have "list_all (\<lambda>i. i < 47) solar_descent" by code_simp
  then have "filter (\<lambda>i. kind_moves (solar_kinds ! i)) solar_descent =
      filter (\<lambda>i. (replicate 7 False @ concat (replicate 10 [True, False, False, True])) ! i) solar_descent"
    by (intro filter_cong refl at) (simp add: list_all_iff)
  moreover have "distinct (filter (\<lambda>i. (replicate 7 False @ concat (replicate 10 [True, False, False, True])) ! i)
      solar_descent)" by code_simp
  ultimately show "distinct (filter (\<lambda>i. kind_moves (solar_kinds ! i)) solar_descent)" by simp
  have "list_all (\<lambda>i. (replicate 7 False @ concat (replicate 10 [True, False, False, True])) ! i \<longrightarrow>
      i \<in> set solar_descent) [0..<47]" by code_simp
  then show "list_all (\<lambda>i. kind_moves (solar_kinds ! i) \<longrightarrow> i \<in> set solar_descent) [0..<47]"
    by (simp add: list_all_iff at)
qed

lemma solar_descends:
  assumes "built P ok ws D solar_kinds solar_children w" and "5 < n"
  shows "descent n w 6 = solar_descent"
proof -
  have "paths n solar_children 6 = paths 6 solar_children 6"
    by (rule paths_deep [OF solar_ranked]) (use assms(2) in \<open>simp_all add: length_solar_children solar_rank_def\<close>)
  then show ?thesis
    using built_paths [OF assms(1) solar_inside, of 6 n] by (simp add: length_solar_children solar_descent_def)
qed

lemma solar_scene_ready:
  assumes b: "built P ok ws D solar_kinds solar_children w" and "5 < n" and "ok m"
    and sg: "sg_root sg = 6" "trafoStack sg = [m]"
  shows "scene_ready P ok ws solar_rank n m sg w"
proof -
  note len = built_length [OF b, unfolded length_solar_children]
  have "ranked solar_rank w"
    using solar_ranked len built_children [OF b] length_solar_children
    by (simp add: ranked_def list_all_iff)
  moreover have "move_once w (descent n w 6)"
  proof -
    have "list_all (\<lambda>i. i < 47) solar_descent" by code_simp
    then have "filter (moves w) solar_descent = filter (\<lambda>i. kind_moves (solar_kinds ! i)) solar_descent"
      using built_moves [OF b] by (intro filter_cong refl) (simp add: list_all_iff length_solar_children)
    then show ?thesis
      using solar_descent_moves(1) by (simp add: move_once_def solar_descends [OF b assms(2)])
  qed
  ultimately show ?thesis
    using b assms(2,3) sg len by (simp add: scene_ready_def built_def solar_rank_def)
qed

lemma solar_reached:
  assumes "built P ok ws D solar_kinds solar_children w" and "5 < n" and "i < length solar_children"
    and "kind_moves (solar_kinds ! i)"
  shows "i \<in> set (descent n w 6)"
  using solar_descent_moves(2) assms(3,4)
  by (simp add: solar_descends [OF assms(1,2)] length_solar_children list_all_iff)

text \<open>One frame of the solar system.\<close>

lemma solar_frame:
  fixes P :: "'z platform_scheme"
  assumes gl: "gl_matrix P ok" and b: "built P ok ws D solar_kinds solar_children w" and n: "5 < n" and m: "ok m"
    and sg: "sg_root sg = 6" "trafoStack sg = [m]"
  shows "yields (scene_draw n P (Fin d) (sg, w)) (\<lambda>(sg', w'). sg' = sg\<lparr>sg_days := Fin d\<rparr> \<and>
    built P ok ws (D + d) solar_kinds solar_children w' \<and> world_step w w')"
  using built_frame [OF gl b solar_scene_ready [OF b n m sg], of d] solar_reached [OF b n] sg(1)
  by (auto elim!: yields_mono)

end
