(* ===== verification/Application.thy ===== *)
theory Application
  imports SolarSystem
begin

text \<open>
  The running program: \<open>drawScene\<close> of src/szenegraph/index.ts with everything the script set up, and
  the events of the browser (animation frames, keys, gamepads, images that finish loading) as a
  step relation.
\<close>

section \<open>State and handlers\<close>

record app =
  app_timer :: timer
  app_clock :: clock
  app_pad :: gp              \<comment> \<open>the \<open>gp\<close> object of the game controller\<close>
  app_camera :: nat          \<comment> \<open>the camera's node, which is also the \<open>node\<close> of the game controller\<close>
  app_scene :: scenegraph
  app_requests :: nat        \<comment> \<open>callbacks handed to \<open>requestAnimationFrame\<close> and not yet called\<close>
  app_world :: world

text \<open>
  The script.  The game controller is created right after the camera; it reads nothing but the
  browser's list of gamepads, so the order against the planets does not matter.
\<close>

definition index_start ::
    "'a platform_scheme \<Rightarrow> gamepad option list \<Rightarrow> clock \<Rightarrow> world \<Rightarrow> app result" where
  "index_start P pads c w =
     (case new_timer 3 c of (timer, c1) \<Rightarrow>
      andThen (new_scene P w) (\<lambda>((camera, scene), w1).
        Inr \<lparr>app_timer = timer, app_clock = c1, app_pad = registerEvents pads, app_camera = camera,
             app_scene = scene, app_requests = 1, app_world = w1\<rparr>))"

text \<open>\<open>updateStatus\<close> on the camera node: its matrix is fetched, changed and stored back.\<close>

definition gc_updateStatus :: "'a glm_scheme \<Rightarrow> gp \<Rightarrow> nat \<Rightarrow> world \<Rightarrow> world result" where
  "gc_updateStatus P g node w =
     andThen (node_at node w) (\<lambda>nd. case body nd of
       CameraBody c \<Rightarrow>
         andThen (updateStatus P g (cameraMatrix c)) (\<lambda>m.
           Inr (update_node node (\<lambda>nd. nd\<lparr>body := CameraBody (c\<lparr>cameraMatrix := m\<rparr>)\<rparr>) w))
     | _ \<Rightarrow> Inl TypeError)"

definition drawScene :: "nat \<Rightarrow> 'a platform_scheme \<Rightarrow> app \<Rightarrow> app result" where
  "drawScene n P a =
     (case daysPassed (app_timer a) (app_clock a) of (time, timer, c) \<Rightarrow>
      andThen (getInstance P (app_world a)) (\<lambda>(webglStart, w1).
      let w2 = on_gl (gl_viewport (canvas_width webglStart) (canvas_height webglStart)) w1;
          w3 = on_gl gl_clear w2
      in andThen (gc_updateStatus P (app_pad a) (app_camera a) w3) (\<lambda>w4.
         andThen (scene_draw n P time (app_scene a, w4)) (\<lambda>(scene, w5).
           Inr (a\<lparr>app_timer := timer, app_clock := c, app_scene := scene, app_world := w5,
                  app_requests := Suc (app_requests a)\<rparr>)))))"

text \<open>The browser takes the callback from its list before it calls it.\<close>

definition frame_callback :: "nat \<Rightarrow> 'a platform_scheme \<Rightarrow> app \<Rightarrow> app result" where
  "frame_callback n P a = drawScene n P (a\<lparr>app_requests := app_requests a - 1\<rparr>)"

definition key_callback :: "key_event \<Rightarrow> app \<Rightarrow> app result" where
  "key_callback e a =
     andThen (node_at (app_camera a) (app_world a)) (\<lambda>nd. case body nd of
       CameraBody c \<Rightarrow> Inr (a\<lparr>app_world := update_node (app_camera a)
         (\<lambda>nd. nd\<lparr>body := CameraBody (camera_key e c)\<rparr>) (app_world a)\<rparr>)
     | _ \<Rightarrow> Inl TypeError)"

definition image_callback :: "'a platform_scheme \<Rightarrow> nat \<Rightarrow> nat \<times> nat \<Rightarrow> app \<Rightarrow> app result" where
  "image_callback P i extent a =
     andThen (node_at i (app_world a)) (\<lambda>nd. case body nd of
       TextureBody t \<Rightarrow> andThen (texture_onload P extent t (app_world a)) (\<lambda>w. Inr (a\<lparr>app_world := w\<rparr>))
     | _ \<Rightarrow> Inl TypeError)"

section \<open>The events\<close>

text \<open>
  The runs of the program, by the number of frames drawn: the script, and then the handlers in any
  order, each once it has returned.  A frame needs a callback that was handed to
  \<open>requestAnimationFrame\<close>; keys, images (of a texture node) and the events of gamepads come at any
  time.  \<open>G\<close> is the set of the gamepads that the browser reports in the run (in the array at the
  start, with an event, or with new values): the properties say what they need of these.
\<close>

definition pads_in :: "gamepad set \<Rightarrow> gp \<Rightarrow> bool" where
  "pads_in G g \<longleftrightarrow> (\<forall>pad. gp_controller g = Some pad \<longrightarrow> pad \<in> G)"

inductive app_runs :: "nat \<Rightarrow> 'a platform_scheme \<Rightarrow> gamepad set \<Rightarrow> clock \<Rightarrow> nat \<Rightarrow> app \<Rightarrow> bool"
  for n :: nat and P :: "'a platform_scheme" and G :: "gamepad set" and c :: clock
where
  start: "index_start P pads c world_init = Inr a \<Longrightarrow> pads_in G (app_pad a) \<Longrightarrow> app_runs n P G c 0 a"
| frame: "app_runs n P G c k a \<Longrightarrow> 0 < app_requests a \<Longrightarrow> frame_callback n P a = Inr a' \<Longrightarrow>
    app_runs n P G c (Suc k) a'"
| key: "app_runs n P G c k a \<Longrightarrow> key_callback e a = Inr a' \<Longrightarrow> app_runs n P G c k a'"
| image: "app_runs n P G c k a \<Longrightarrow> image_callback P i extent a = Inr a' \<Longrightarrow> app_runs n P G c k a'"
| pad: "app_runs n P G c k a \<Longrightarrow> pad_step (app_pad a) g \<Longrightarrow> pads_in G g \<Longrightarrow>
    app_runs n P G c k (a\<lparr>app_pad := g\<rparr>)"

text \<open>The pad the class holds has the axes it reads.\<close>

definition pads_usable :: "gp \<Rightarrow> bool" where
  "pads_usable g \<longleftrightarrow> (\<forall>pad. gp_controller g = Some pad \<longrightarrow> pad_good pad)"

section \<open>The invariant\<close>

definition app_inv :: "'a platform_scheme \<Rightarrow> (mat \<Rightarrow> bool) \<Rightarrow> real \<Rightarrow> app \<Rightarrow> bool" where
  "app_inv P ok D a \<longleftrightarrow> (\<exists>ws. built P ok ws D solar_kinds solar_children (app_world a)) \<and>
     app_camera a = 6 \<and> sg_root (app_scene a) = 6 \<and> trafoStack (app_scene a) = [mat4_create P] \<and>
     pad_inv (app_pad a) \<and> pads_usable (app_pad a) \<and> app_requests a = 1"

definition timer_good :: "timer \<Rightarrow> bool" where
  "timer_good t \<longleftrightarrow> days_per_sec t = Fin 3 \<and> finite_number (lastDate t)"

definition clock_inv :: "clock \<Rightarrow> nat \<Rightarrow> app \<Rightarrow> bool" where
  "clock_inv c k a \<longleftrightarrow> reading (app_clock a) = reading c \<and> asked (app_clock a) = asked c + 1 + 2 * k \<and>
     days_per_sec (app_timer a) = Fin 3 \<and> lastDate (app_timer a) = Fin (of_int (reading c (asked c + 2 * k)))"

text \<open>The days that have passed after \<open>k\<close> frames: three for each second that was not lost between the
  two readings of a frame.\<close>

definition days_after :: "clock \<Rightarrow> nat \<Rightarrow> real" where
  "days_after c k = 3 * (\<Sum>j<k. real_of_int (reading c (asked c + 1 + 2 * j) - reading c (asked c + 2 * j)) / 1000)"

lemma built_camera:
  assumes "built P ok ws D solar_kinds solar_children w"
  obtains c where "node_at 6 w = Inr (nodes w ! 6)" and "body (nodes w ! 6) = CameraBody c" and "camera_good ok c"
proof -
  have i: "6 < length (nodes w)" using built_length [OF assms] by (simp add: length_solar_children)
  have "6 < length solar_kinds" "solar_kinds ! 6 = KCamera" by (simp_all add: solar_kinds_def base_kinds_def)
  with built_node [OF assms, of 6] obtain c where c: "body (nodes w ! 6) = CameraBody c"
    by (cases "body (nodes w ! 6)") (auto split: kind.splits)
  moreover have "node_good ok ws w (nodes w ! 6)"
    using assms i by (auto simp: built_def intro: world_good_node)
  ultimately show ?thesis using that node_at_simp [OF i] by (simp add: node_good_def)
qed

text \<open>The camera may change, as long as it stays good.\<close>

lemma built_set_camera:
  assumes b: "built P ok ws D ks cs w" and i: "i < length cs" and c: "body (nodes w ! i) = CameraBody c"
    and "camera_good ok c'"
  shows "built P ok ws D ks cs (update_node i (\<lambda>nd. nd\<lparr>body := CameraBody c'\<rparr>) w)"
proof -
  let ?w = "update_node i (\<lambda>nd. nd\<lparr>body := CameraBody c'\<rparr>) w"
  have iw: "i < length (nodes w)" using i built_length [OF b] by simp
  have good: "world_good P ok ws w" using b by (simp add: built_def)
  have "node_good ok ws w (nodes w ! i)" using good iw by (rule world_good_node)
  then have "world_good P ok ws ?w"
    using good iw assms(4) by (intro world_good_update) (simp_all add: node_good_def)
  moreover have "map children (nodes ?w) = cs"
    using b world_step_node [of "\<lambda>nd. nd\<lparr>body := CameraBody c'\<rparr>" w i] by (simp add: built_def world_step_def)
  moreover have "list_all2 (\<lambda>k nd. trafo nd = matrix_at P D k \<and> of_kind P (body nd) k) ks (nodes ?w)"
  proof (rule list_all2_all_nthI)
    show "length ks = length (nodes ?w)" using built_length [OF b] by simp
    show "trafo (nodes ?w ! j) = matrix_at P D (ks ! j) \<and> of_kind P (body (nodes ?w ! j)) (ks ! j)"
      if "j < length ks" for j
      using built_node [OF b that] c iw by (auto simp: nodes_update_node)
  qed
  ultimately show ?thesis using b by (simp add: built_def)
qed

lemma built_gl:
  assumes b: "built P ok ws D ks cs w" and "world_step w (w\<lparr>gl := s\<rparr>)"
  shows "built P ok ws D ks cs (w\<lparr>gl := s\<rparr>)"
  using assms world_good_gl [of P ok ws w s] by (simp add: built_def world_step_def)


section \<open>One event\<close>

lemma gc_updateStatus_step:
  fixes P :: "'z platform_scheme"
  assumes gl: "gl_matrix P ok" and b: "built P ok ws D solar_kinds solar_children w"
    and "pad_inv g" and "pads_usable g"
  shows "yields (gc_updateStatus P g 6 w) (\<lambda>w'. built P ok ws D solar_kinds solar_children w' \<and> gl w' = gl w \<and>
    (\<exists>c. w' = update_node 6 (\<lambda>nd. nd\<lparr>body := CameraBody c\<rparr>) w))"
proof -
  obtain c where c: "node_at 6 w = Inr (nodes w ! 6)" "body (nodes w ! 6) = CameraBody c" "camera_good ok c"
    using b by (rule built_camera)
  have "gp_connected g \<Longrightarrow> pad_good (the (gp_controller g))"
    using assms(3,4) by (auto simp: pad_inv_def pads_usable_def)
  then obtain m where m: "updateStatus P g (cameraMatrix c) = Inr m" "ok m"
    using gl_matrix.updateStatus_good [OF gl assms(3)] c(3) by (auto simp: camera_good_def)
  have "camera_good ok (c\<lparr>cameraMatrix := m\<rparr>)" using c(3) m(2) by (simp add: camera_good_def)
  from built_set_camera [OF b _ c(2) this] show ?thesis
    by (auto simp: gc_updateStatus_def c(1,2) m(1) length_solar_children)
qed

lemma clear_step: "world_step w (w\<lparr>gl := gl_clear (gl_viewport x y (gl w))\<rparr>)"
  by (rule world_step_gl) (simp_all add: gl_ext_def gl_clear_def gl_viewport_def pipeline_def)

lemma drawScene_step:
  fixes P :: "'z platform_scheme"
  assumes gl: "gl_matrix P ok" and n: "5 < n" and b: "built P ok ws D solar_kinds solar_children (app_world a)"
    and a: "app_camera a = 6" "sg_root (app_scene a) = 6" "trafoStack (app_scene a) = [mat4_create P]"
      "pad_inv (app_pad a)" "pads_usable (app_pad a)"
    and d: "daysPassed (app_timer a) (app_clock a) = (Fin d, t, c)"
  shows "yields (drawScene n P a) (\<lambda>a'. built P ok ws (D + d) solar_kinds solar_children (app_world a') \<and>
    app_camera a' = 6 \<and> sg_root (app_scene a') = 6 \<and> trafoStack (app_scene a') = [mat4_create P] \<and>
    app_pad a' = app_pad a \<and> app_timer a' = t \<and> app_clock a' = c \<and> app_requests a' = Suc (app_requests a))"
proof -
  let ?w3 = "(app_world a)\<lparr>gl := gl_clear (gl_viewport (canvas_width ws) (canvas_height ws) (gl (app_world a)))\<rparr>"
  have b3: "built P ok ws D solar_kinds solar_children ?w3" using b clear_step by (rule built_gl)
  obtain w4 where w4: "gc_updateStatus P (app_pad a) 6 ?w3 = Inr w4" "built P ok ws D solar_kinds solar_children w4"
    using gc_updateStatus_step [OF gl b3 a(4,5)] by (auto simp: yields_def)
  obtain w5 where w5: "scene_draw n P (Fin d) (app_scene a, w4) = Inr ((app_scene a)\<lparr>sg_days := Fin d\<rparr>, w5)"
      "built P ok ws (D + d) solar_kinds solar_children w5"
    using solar_frame [OF gl w4(2) n gl_matrix.create_ok [OF gl] a(2,3), of d] by (auto simp: yields_def)
  show ?thesis
    using a w4 w5 by (simp add: drawScene_def d page_ready_getInstance [OF built_ready [OF b]] Let_def on_gl_def)
qed

lemma index_start_inv:
  fixes P :: "'z platform_scheme"
  assumes gl: "gl_matrix P ok" and "platform_ok P"
  shows "yields (index_start P pads c world_init) (\<lambda>a. (\<exists>ws. built P ok ws 0 solar_kinds solar_children (app_world a)) \<and>
    app_camera a = 6 \<and> app_scene a = solar_scene P \<and> app_pad a = registerEvents pads \<and> app_requests a = 1 \<and>
    app_timer a = fst (new_timer 3 c) \<and> app_clock a = snd (new_timer 3 c))"
proof -
  obtain ws w0 where w0: "getInstance P world_init = Inr (ws, w0)" "built P ok ws 0 [] [] w0"
    using assms(2) by (rule world_init_built)
  show ?thesis
    using new_scene_yields [OF gl w0(2)] new_scene_first [OF w0(1)]
    by (auto simp: index_start_def yields_def split_def)
qed

lemma daysPassed_finite:
  assumes "timer_good t"
  obtains d t' c' where "daysPassed t c = (Fin d, t', c')" and "timer_good t'"
proof -
  obtain x where "days_per_sec t = Fin 3" "lastDate t = Fin x"
    using assms by (auto simp: timer_good_def finite_number_iff)
  then have "finite_number (fst (daysPassed t c)) \<and> timer_good (fst (snd (daysPassed t c)))"
    by (simp add: daysPassed_def date_now_def timer_good_def Let_def num_simps)
  then show ?thesis using that by (metis finite_number_iff prod.collapse)
qed

lemma key_callback_inv:
  assumes "app_inv P ok D a"
  shows "yields (key_callback e a) (app_inv P ok D)"
proof -
  obtain ws where b: "built P ok ws D solar_kinds solar_children (app_world a)" using assms by (auto simp: app_inv_def)
  then obtain c where c: "node_at 6 (app_world a) = Inr (nodes (app_world a) ! 6)"
      "body (nodes (app_world a) ! 6) = CameraBody c" "camera_good ok c"
    by (rule built_camera)
  from built_set_camera [OF b _ c(2) camera_key_good [OF c(3)]] assms show ?thesis
    by (auto simp: key_callback_def app_inv_def c(1,2) length_solar_children)
qed

lemma image_callback_inv:
  assumes inv: "app_inv P ok D a" and "image_callback P i extent a = Inr a'"
  shows "app_inv P ok D a' \<and> app_timer a' = app_timer a \<and> app_clock a' = app_clock a"
proof -
  obtain ws where b: "built P ok ws D solar_kinds solar_children (app_world a)" using inv by (auto simp: app_inv_def)
  let ?w = "app_world a"
  obtain nd where n: "node_at i ?w = Inr nd"
    using assms(2) by (auto simp: image_callback_def andThen_eq_Inr)
  then obtain t where nd: "node_at i ?w = Inr nd" "body nd = TextureBody t"
    using assms(2) by (cases "body nd") (auto simp: image_callback_def)
  then obtain w' where w': "texture_onload P extent t ?w = Inr w'" and a': "a' = a\<lparr>app_world := w'\<rparr>"
    using assms(2) by (auto simp: image_callback_def andThen_eq_Inr)
  have i: "i < length (nodes ?w)" "nd = nodes ?w ! i"
    using nd(1) by (auto simp: node_at_def js_nth_def deref_eq_Inr split: if_splits)
  have "node_good ok ws ?w nd" using b i by (auto simp: built_def intro: world_good_node)
  then obtain x where x: "textures (gl ?w) (tx_texture t) = Some x"
    using nd(2) by (auto simp: node_good_def texture_good_def)
  obtain e1 e2 where e: "extent = (e1, e2)" by (cases extent)
  note load = loadTexture_loads [OF built_ready [OF b] x, of e1 e2]
  have s: "world_step ?w w'" and g: "w' = ?w\<lparr>gl := gl w'\<rparr>"
    using w' unfolding texture_onload_def e load
    by (auto intro!: world_step_gl simp: gl_ext_def pipeline_def)
  have "built P ok ws D solar_kinds solar_children (?w\<lparr>gl := gl w'\<rparr>)"
    using b s g by (intro built_gl) simp_all
  with g inv a' show ?thesis by (auto simp: app_inv_def)
qed


section \<open>Every run\<close>

lemma frame_callback_inv:
  fixes P :: "'z platform_scheme"
  assumes gl: "gl_matrix P ok" and n: "5 < n" and inv: "app_inv P ok D a" and t: "timer_good (app_timer a)"
  obtains d a' where "frame_callback n P a = Inr a'" and "app_inv P ok (D + d) a'" and "timer_good (app_timer a')"
    and "daysPassed (app_timer a) (app_clock a) = (Fin d, app_timer a', app_clock a')"
proof -
  obtain d t' c' where d: "daysPassed (app_timer a) (app_clock a) = (Fin d, t', c')" "timer_good t'"
    using t by (rule daysPassed_finite)
  let ?a = "a\<lparr>app_requests := app_requests a - 1\<rparr>"
  obtain ws where "built P ok ws D solar_kinds solar_children (app_world ?a)" using inv by (auto simp: app_inv_def)
  from drawScene_step [OF gl n this, of d t' c'] inv d obtain a' where
    "frame_callback n P a = Inr a'" "built P ok ws (D + d) solar_kinds solar_children (app_world a')"
    "app_camera a' = 6" "sg_root (app_scene a') = 6" "trafoStack (app_scene a') = [mat4_create P]"
    "app_pad a' = app_pad a" "app_timer a' = t'" "app_clock a' = c'" "app_requests a' = 1"
    by (auto simp: app_inv_def frame_callback_def yields_def)
  with that [of a' d] inv d show ?thesis by (auto simp: app_inv_def)
qed

lemma app_runs_inv:
  fixes P :: "'z platform_scheme"
  assumes gl: "gl_matrix P ok" and "platform_ok P" and n: "5 < n" and "app_runs n P G c k a"
    and pads: "\<And>pad. pad \<in> G \<Longrightarrow> pad_good pad"
  shows "timer_good (app_timer a) \<and> (\<exists>D. app_inv P ok D a \<and>
    ((\<forall>i. reading c i \<noteq> 0) \<longrightarrow> clock_inv c k a \<and> D = days_after c k))"
  using assms(4)
proof (induction rule: app_runs.induct)
  case (start pads a)
  obtain ws where "built P ok ws 0 solar_kinds solar_children (app_world a)" "app_camera a = 6"
      "app_scene a = solar_scene P" "app_pad a = registerEvents pads" "app_requests a = 1"
      "app_timer a = fst (new_timer 3 c)" "app_clock a = snd (new_timer 3 c)"
    using index_start_inv [OF gl assms(2), of pads c] start(1) by auto
  moreover have "pads_usable (app_pad a)" using start(2) pads by (simp add: pads_in_def pads_usable_def)
  ultimately show ?case
    by (intro conjI exI [of _ 0]) (auto simp: app_inv_def solar_scene_def registerEvents_def pad_inv_def
        clock_inv_def days_after_def new_timer_def date_now_def timer_good_def num_simps)
next
  case (frame k a a')
  obtain D where D: "app_inv P ok D a" "(\<forall>i. reading c i \<noteq> 0) \<longrightarrow> clock_inv c k a \<and> D = days_after c k"
    using frame.IH by blast
  obtain d where d: "app_inv P ok (D + d) a'" "timer_good (app_timer a')"
      "daysPassed (app_timer a) (app_clock a) = (Fin d, app_timer a', app_clock a')"
    using frame_callback_inv [OF gl n D(1)] frame.IH frame.hyps(3) by (metis Inr_inject)
  have "clock_inv c (Suc k) a' \<and> D + d = days_after c (Suc k)" if nz: "\<forall>i. reading c i \<noteq> 0"
  proof -
    have c: "reading (app_clock a) = reading c" "asked (app_clock a) = asked c + 1 + 2 * k"
        "days_per_sec (app_timer a) = Fin 3" "lastDate (app_timer a) = Fin (of_int (reading c (asked c + 2 * k)))"
        "D = days_after c k"
      using D(2) nz by (simp_all add: clock_inv_def)
    have "lastDate (app_timer a) \<noteq> 0" using nz c(4) by (simp add: zero_number_def)
    with d(3) c(1-4) have "app_timer a' =
          (app_timer a)\<lparr>lastDate := Fin (of_int (reading c (asked c + 2 * Suc k)))\<rparr>"
        "app_clock a' = (app_clock a)\<lparr>asked := asked c + 1 + 2 * Suc k\<rparr>"
        "d = 3 * (real_of_int (reading c (asked c + 1 + 2 * k) - reading c (asked c + 2 * k)) / 1000)"
      by (auto simp: daysPassed_def date_now_def num_simps)
    with c show ?thesis by (simp add: clock_inv_def days_after_def distrib_left)
  qed
  with d show ?case by blast
next
  case (key k a e a')
  then obtain D where D: "app_inv P ok D a" "(\<forall>i. reading c i \<noteq> 0) \<longrightarrow> clock_inv c k a \<and> D = days_after c k"
    by blast
  have "app_inv P ok D a'" using key_callback_inv [OF D(1), of e] key.hyps(2) by simp
  moreover have "app_timer a' = app_timer a \<and> app_clock a' = app_clock a"
  proof -
    obtain nd where "node_at (app_camera a) (app_world a) = Inr nd"
      using key.hyps(2) by (auto simp: key_callback_def andThen_eq_Inr)
    then show ?thesis using key.hyps(2) by (cases "body nd") (auto simp: key_callback_def)
  qed
  ultimately show ?case using key.IH D(2) by (auto simp: clock_inv_def)
next
  case (image k a i extent a')
  then obtain D where D: "app_inv P ok D a" "(\<forall>i. reading c i \<noteq> 0) \<longrightarrow> clock_inv c k a \<and> D = days_after c k"
    by blast
  from image_callback_inv [OF D(1) image.hyps(2)] image.IH D(2) show ?case by (auto simp: clock_inv_def)
next
  case (pad k a g)
  then obtain D where D: "app_inv P ok D a" "(\<forall>i. reading c i \<noteq> 0) \<longrightarrow> clock_inv c k a \<and> D = days_after c k"
    by blast
  have "app_inv P ok D (a\<lparr>app_pad := g\<rparr>)"
    using D(1) pad.hyps(2,3) pads pad_step_inv by (auto simp: app_inv_def pads_in_def pads_usable_def)
  then show ?case using pad.IH D(2) by (auto simp: clock_inv_def)
qed


primrec frame_callbacks :: "nat \<Rightarrow> nat \<Rightarrow> 'a platform_scheme \<Rightarrow> app \<Rightarrow> app result" where
  "frame_callbacks 0 n P a = Inr a"
| "frame_callbacks (Suc m) n P a = andThen (frame_callback n P a) (frame_callbacks m n P)"

lemma next_frame:
  fixes P :: "'z platform_scheme"
  assumes gl: "gl_matrix P ok" and "platform_ok P" and n: "5 < n" and run: "app_runs n P G c k a"
    and pads: "\<And>pad. pad \<in> G \<Longrightarrow> pad_good pad"
  obtains a' where "frame_callback n P a = Inr a'" and "app_runs n P G c (Suc k) a'"
proof -
  from app_runs_inv [OF assms] obtain D where D: "timer_good (app_timer a)" "app_inv P ok D a" by blast
  obtain a' where a': "frame_callback n P a = Inr a'"
    using frame_callback_inv [OF gl n D(2,1)] by blast
  moreover have "0 < app_requests a" using D(2) by (simp add: app_inv_def)
  ultimately show ?thesis using that app_runs.frame [OF run] by blast
qed

text \<open>A start on the reference platform, with no gamepad and a clock that ticks every 20 ms.\<close>

definition ref_clock :: clock where
  "ref_clock = \<lparr>reading = (\<lambda>i. 1000 + 20 * int i), asked = 0\<rparr>"

lemma ref_runs: "\<exists>a. index_start ref_platform [] ref_clock world_init = Inr a \<and> app_runs n ref_platform G ref_clock 0 a"
proof -
  obtain a where a: "index_start ref_platform [] ref_clock world_init = Inr a" "app_pad a = registerEvents []"
    using index_start_inv [OF refp.gl_matrix_axioms ref_platform_ok, of "[]" ref_clock] by (auto simp: yields_def)
  have "pads_in G (app_pad a)" by (simp add: a(2) registerEvents_def pad_at_def pads_in_def)
  with a(1) show ?thesis by (blast intro: app_runs.start)
qed

lemma ref_pad_runs:
  "\<exists>a. index_start ref_platform [] ref_clock world_init = Inr a \<and>
    app_runs n ref_platform {ref_pad} ref_clock 0 (a\<lparr>app_pad := connecthandler [Some ref_pad] ref_pad (app_pad a)\<rparr>)"
proof -
  obtain a where a: "index_start ref_platform [] ref_clock world_init = Inr a"
      "app_runs n ref_platform {ref_pad} ref_clock 0 a"
    using ref_runs by blast
  have p: "pad_at [Some ref_pad] (gp_index ref_pad) = Some ref_pad" by (simp add: pad_at_def ref_pad_def)
  then have "pad_step (app_pad a) (connecthandler [Some ref_pad] ref_pad (app_pad a))" by (rule connected)
  moreover have "pads_in {ref_pad} (connecthandler [Some ref_pad] ref_pad (app_pad a))"
    using p by (simp add: pads_in_def connecthandler_def)
  ultimately show ?thesis using a app_runs.pad by blast
qed

section \<open>A frame with a pad of four axes\<close>

text \<open>The traversal raises at its first node, the camera, when the camera's matrix is lost.\<close>

lemma scene_draw_lost:
  fixes P :: "'z platform_scheme"
  assumes nan: "gl_matrix_nan P ok lost" and b: "built P ok ws D solar_kinds solar_children w"
    and c: "body (nodes w ! 6) = CameraBody c" and m: "lost m" and n: "0 < n"
    and s: "sg_root scene = 6" "trafoStack scene = [mat4_create P]"
  shows "scene_draw n P days (scene, update_node 6 (\<lambda>nd. nd\<lparr>body := CameraBody (c\<lparr>cameraMatrix := m\<rparr>)\<rparr>) w) = Inl TypeError"
proof -
  have gl: "gl_matrix P ok" using nan by (rule gl_matrix_nan.axioms(1))
  let ?nd = "(nodes w ! 6)\<lparr>body := CameraBody (c\<lparr>cameraMatrix := m\<rparr>)\<rparr>"
  let ?w = "update_node 6 (\<lambda>nd. nd\<lparr>body := CameraBody (c\<lparr>cameraMatrix := m\<rparr>)\<rparr>) w"
  have i: "6 < length (nodes w)" using built_length [OF b] by (simp add: length_solar_children)
  have good: "world_good P ok ws w" using b by (simp add: built_def)
  have trafo: "ok (trafo (nodes w ! 6))" using world_good_node [OF good i] by (simp add: node_good_def)
  let ?m = "mat4_mul P (mat4_create P) (trafo (nodes w ! 6))"
  have ok: "ok (mat4_create P)" "ok ?m" using gl trafo by (simp_all add: gl_matrix.create_ok gl_matrix.mul_ok)
  obtain normal where normal: "mat3_normalFromMat4 P ?m = Some normal"
    using gl_matrix.normal_some [OF gl ok(2)] by blast
  have r: "page_ready P ws ?w" using good by (simp add: world_good_def update_node_def page_ready_def)
  let ?w2 = "on_gl (setUniform (nMatrixUniform ws) (UMat normal)) (on_gl (setUniform (mMatrixUniform ws) (UMat ?m)) ?w)"
  have n2: "node_at 6 ?w = Inr ?nd" "node_at 6 ?w2 = Inr ?nd"
    using i by (simp_all add: node_at_def js_nth_def update_node_def on_gl_def)
  have r2: "page_ready P ws ?w2" using r by (simp add: page_ready_def on_gl_def gl_ready_pipeline [OF uniform_frame(1)])
  have draw: "place_node P ws days 6 ?m ?w = Inl TypeError"
    using camera_draw_lost [OF nan _ r2, of "c\<lparr>cameraMatrix := m\<rparr>"] m
    by (simp add: place_node_def normal n2 node_draw_def Let_def)
  obtain k where k: "n = Suc k" using n by (cases n) simp_all
  have "drawTraversal n P days 6 ([mat4_create P], ?w) = Inl TypeError"
    using gl_matrix.stack_pop_simp [OF gl ok(1), of "[]"] draw n2(1)
    by (simp add: k page_ready_getInstance [OF r] getTrafo_def)
  then show ?thesis by (simp add: scene_draw_def s)
qed

lemma frame_lost:
  fixes P :: "'z platform_scheme"
  assumes nan: "gl_matrix_nan P ok lost" and inv: "app_inv P ok D a" and n: "0 < n"
    and g: "gp_connected g" "gp_controller g = Some pad" "length (gp_axes pad) \<le> 4"
  shows "frame_callback n P (a\<lparr>app_pad := g\<rparr>) = Inl TypeError"
proof -
  from inv obtain ws where b: "built P ok ws D solar_kinds solar_children (app_world a)"
    and a: "app_camera a = 6" "sg_root (app_scene a) = 6" "trafoStack (app_scene a) = [mat4_create P]"
    by (auto simp: app_inv_def)
  let ?w3 = "(app_world a)\<lparr>gl := gl_clear (gl_viewport (canvas_width ws) (canvas_height ws) (gl (app_world a)))\<rparr>"
  have b3: "built P ok ws D solar_kinds solar_children ?w3" using b clear_step by (rule built_gl)
  obtain c where c: "node_at 6 ?w3 = Inr (nodes ?w3 ! 6)" "body (nodes ?w3 ! 6) = CameraBody c"
    using b3 by (rule built_camera)
  obtain m where m: "updateStatus P g (cameraMatrix c) = Inr m" "lost m"
    using gl_matrix_nan.updateStatus_lost [OF nan g] by blast
  have w4: "gc_updateStatus P g 6 ?w3 =
      Inr (update_node 6 (\<lambda>nd. nd\<lparr>body := CameraBody (c\<lparr>cameraMatrix := m\<rparr>)\<rparr>) ?w3)"
    using c m(1) by (simp add: gc_updateStatus_def)
  obtain time t c' where d: "daysPassed (app_timer a) (app_clock a) = (time, t, c')"
    by (cases "daysPassed (app_timer a) (app_clock a)") auto
  show ?thesis
    using w4 scene_draw_lost [OF nan b3 c(2) m(2) n a(2,3)] a(1)
    by (simp add: frame_callback_def drawScene_def d Let_def on_gl_def page_ready_getInstance [OF built_ready [OF b]])
qed

section \<open>Properties\<close>

text \<open>C1: the application never goes wrong as long as every gamepad that is connected has at least five
  axes, all with finite values: whatever keys are pressed, such pads are connected or removed and
  images arrive between the frames, no WebGL call has failed, no alert has been shown, exactly one
  callback is pending, and the next frame, key and image handlers return.\<close>

theorem application_safe:
  fixes P :: "'z platform_scheme"
  assumes "gl_matrix P ok" and "platform_ok P" and "5 < n" and "app_runs n P G c k a"
    and "\<And>pad. pad \<in> G \<Longrightarrow> pad_good pad"
  shows "gl_errors (gl (app_world a)) = 0 \<and> alerts (app_world a) = 0 \<and> app_requests a = 1 \<and>
    (\<exists>a'. frame_callback n P a = Inr a') \<and> (\<exists>a'. key_callback e a = Inr a') \<and>
    (\<forall>t. body (nodes (app_world a) ! i) = TextureBody t \<and> i < length (nodes (app_world a)) \<longrightarrow>
       (\<exists>a'. image_callback P i extent a = Inr a'))"
proof -
  from app_runs_inv [OF assms] obtain D where D: "app_inv P ok D a" by blast
  then obtain ws where b: "built P ok ws D solar_kinds solar_children (app_world a)" by (auto simp: app_inv_def)
  have "\<exists>a'. image_callback P i extent a = Inr a'"
    if "body (nodes (app_world a) ! i) = TextureBody t" "i < length (nodes (app_world a))" for t
    using that page_ready_getInstance [OF built_ready [OF b]]
    by (simp add: image_callback_def node_at_simp texture_onload_def loadTexture_def)
  moreover obtain a' where "frame_callback n P a = Inr a'" using assms by (rule next_frame)
  moreover have "\<exists>a'. key_callback e a = Inr a'"
    using key_callback_inv [OF D, of e] by (auto simp: yields_def)
  ultimately show ?thesis using D b by (auto simp: app_inv_def built_def)
qed

theorem application_safe_witness:
  "\<exists>a. gp_connected (app_pad a) \<and> gl_errors (gl (app_world a)) = 0 \<and> alerts (app_world a) = 0 \<and> app_requests a = 1 \<and>
    (\<exists>a'. frame_callback 6 ref_platform a = Inr a') \<and> (\<exists>a'. key_callback (KeyDown ''w'') a = Inr a')"
proof -
  obtain a where a: "app_runs 6 ref_platform {ref_pad} ref_clock 0
      (a\<lparr>app_pad := connecthandler [Some ref_pad] ref_pad (app_pad a)\<rparr>)"
    using ref_pad_runs by blast
  have "gp_connected (connecthandler [Some ref_pad] ref_pad (app_pad a))" by (simp add: connecthandler_def)
  moreover note application_safe [OF refp.gl_matrix_axioms ref_platform_ok _ a, of "KeyDown ''w''"]
  ultimately show ?thesis
    by (intro exI [of _ "a\<lparr>app_pad := connecthandler [Some ref_pad] ref_pad (app_pad a)\<rparr>"]) (auto simp: ref_pad_good)
qed

text \<open>C8: as long as every gamepad that is connected has at least five axes, all with finite values, the
  animation goes on for ever: from every state the application can reach, any number of further
  frames is drawn.\<close>

theorem animation_goes_on:
  fixes P :: "'z platform_scheme"
  assumes "gl_matrix P ok" and "platform_ok P" and "5 < n" and "app_runs n P G c k a"
    and "\<And>pad. pad \<in> G \<Longrightarrow> pad_good pad"
  shows "\<exists>a'. frame_callbacks m n P a = Inr a' \<and> app_runs n P G c (k + m) a'"
  using assms(4)
proof (induction m arbitrary: k a)
  case (Suc m)
  obtain a' where "frame_callback n P a = Inr a'" "app_runs n P G c (Suc k) a'"
    using assms(1-3) Suc.prems assms(5) by (rule next_frame)
  with Suc.IH [of "Suc k" a'] show ?case by simp
qed simp

theorem animation_goes_on_witness:
  "\<exists>a a'. index_start ref_platform [] ref_clock world_init = Inr a \<and>
    frame_callbacks 1000 6 ref_platform a = Inr a' \<and> app_runs 6 ref_platform {ref_pad} ref_clock (0 + 1000) a'"
proof -
  obtain a where a: "index_start ref_platform [] ref_clock world_init = Inr a" "app_runs 6 ref_platform {ref_pad} ref_clock 0 a"
    using ref_runs by blast
  from animation_goes_on [OF refp.gl_matrix_axioms ref_platform_ok _ a(2), of 1000] a(1) show ?thesis by (auto simp: ref_pad_good)
qed

text \<open>C37: a gamepad with at most four axes, as one in the standard layout, stops the animation: connected
  in any state that the application reaches with usable pads, whatever its buttons, it makes the next
  frame, for which the only pending callback stands, raise a TypeError.  \<open>axesAction\<close> reads axis 4 as
  undefined and turns the camera by NaN, \<open>mat4.invert\<close> returns null for the camera's matrix and
  \<open>mat4.mul\<close> reads it, before the frame asks for another one.\<close>

theorem gamepad_four_axes:
  fixes P :: "'z platform_scheme"
  assumes "gl_matrix_nan P ok lost" and "platform_ok P" and "5 < n" and "app_runs n P G c k a"
    and "\<And>pad. pad \<in> G \<Longrightarrow> pad_good pad"
    and "pad_at pads (gp_index pad) = Some pad" and "length (gp_axes pad) \<le> 4"
  shows "pad_step (app_pad a) (connecthandler pads pad (app_pad a)) \<and> app_requests a = 1 \<and>
    (\<exists>a'. frame_callback n P a = Inr a') \<and>
    frame_callback n P (a\<lparr>app_pad := connecthandler pads pad (app_pad a)\<rparr>) = Inl TypeError"
proof -
  have gl: "gl_matrix P ok" using assms(1) by (rule gl_matrix_nan.axioms(1))
  from app_runs_inv [OF gl assms(2-5)] obtain D where D: "app_inv P ok D a" by blast
  obtain a' where "frame_callback n P a = Inr a'" using gl assms(2-5) by (rule next_frame)
  moreover have "pad_step (app_pad a) (connecthandler pads pad (app_pad a))" using assms(6) by (rule connected)
  moreover have "frame_callback n P (a\<lparr>app_pad := connecthandler pads pad (app_pad a)\<rparr>) = Inl TypeError"
    using assms(3,6,7) by (intro frame_lost [OF assms(1) D]) (simp_all add: connecthandler_def)
  moreover have "app_requests a = 1" using D by (simp add: app_inv_def)
  ultimately show ?thesis by blast
qed

text \<open>A pad of the standard layout, with a button held down.\<close>

theorem gamepad_four_axes_witness:
  "let pad = \<lparr>gp_index = 0, gp_buttons = [ButtonObject True 1], gp_axes = [0, 0, 0, 0]\<rparr> in
    \<exists>a. index_start ref_platform [] ref_clock world_init = Inr a \<and>
      (\<exists>a'. frame_callback 6 ref_platform a = Inr a') \<and>
      frame_callback 6 ref_platform (a\<lparr>app_pad := connecthandler [Some pad] pad (app_pad a)\<rparr>) = Inl TypeError"
proof -
  let ?pad = "\<lparr>gp_index = 0, gp_buttons = [ButtonObject True 1], gp_axes = [0, 0, 0, 0]\<rparr>"
  obtain a where a: "index_start ref_platform [] ref_clock world_init = Inr a" "app_runs 6 ref_platform {ref_pad} ref_clock 0 a"
    using ref_runs by blast
  from gamepad_four_axes [OF refp_nan.gl_matrix_nan_axioms ref_platform_ok _ a(2), of "[Some ?pad]" ?pad]
  show ?thesis unfolding Let_def using a(1) by (auto simp: ref_pad_good pad_at_def)
qed

text \<open>C2: after \<open>k\<close> frames, with any other events in between (the gamepads having at least five finite
  axes), every orbit and every planet stands where
  the three days per second of clock time put it, for the time from each frame's last reading of the
  clock to the next frame's first.  The earth, for instance, has gone round by \<open>2 pi / 365\<close> a day.\<close>

theorem planets_keep_time:
  fixes P :: "'z platform_scheme"
  assumes "gl_matrix P ok" and "platform_ok P" and "5 < n" and "app_runs n P G c k a"
    and "\<And>pad. pad \<in> G \<Longrightarrow> pad_good pad" and "\<And>i. reading c i \<noteq> 0"
  shows "(\<forall>i < 47. trafo (nodes (app_world a) ! i) = matrix_at P (days_after c k) (solar_kinds ! i)) \<and>
    trafo (nodes (app_world a) ! 14) = orbit_at P 80 0 (turn 365 (days_after c k))"
proof -
  from app_runs_inv [OF assms(1-5)] assms(6) have "app_inv P ok (days_after c k) a" by blast
  then obtain ws where b: "built P ok ws (days_after c k) solar_kinds solar_children (app_world a)"
    by (auto simp: app_inv_def)
  have "length solar_kinds = 47" by (simp add: solar_kinds_def base_kinds_def)
  with built_node [OF b] have all: "trafo (nodes (app_world a) ! i) = matrix_at P (days_after c k) (solar_kinds ! i)"
    if "i < 47" for i
    using that by simp
  have "solar_kinds ! 14 = KOrbit 80 0 365" by (simp add: solar_kinds_def base_kinds_def system_kinds_def)
  with all [of 14] all show ?thesis by (simp add: matrix_at_def)
qed

theorem planets_keep_time_witness:
  "\<exists>a a'. index_start ref_platform [] ref_clock world_init = Inr a \<and>
    frame_callbacks 2 6 ref_platform a = Inr a' \<and>
    trafo (nodes (app_world a') ! 14) = orbit_at ref_platform 80 0 (turn 365 (days_after ref_clock 2))"
proof -
  obtain a where a: "index_start ref_platform [] ref_clock world_init = Inr a" "app_runs 6 ref_platform {ref_pad} ref_clock 0 a"
    using ref_runs by blast
  obtain a1 where a1: "frame_callback 6 ref_platform a = Inr a1" "app_runs 6 ref_platform {ref_pad} ref_clock (Suc 0) a1"
    by (rule next_frame [OF refp.gl_matrix_axioms ref_platform_ok _ a(2)]) (simp_all add: ref_pad_good)
  obtain a2 where a2: "frame_callback 6 ref_platform a1 = Inr a2" "app_runs 6 ref_platform {ref_pad} ref_clock (Suc (Suc 0)) a2"
    by (rule next_frame [OF refp.gl_matrix_axioms ref_platform_ok _ a1(2)]) (simp_all add: ref_pad_good)
  from planets_keep_time [OF refp.gl_matrix_axioms ref_platform_ok _ a2(2)]
  have "trafo (nodes (app_world a2) ! 14) = orbit_at ref_platform 80 0 (turn 365 (days_after ref_clock 2))"
    by (simp add: ref_clock_def numeral_2_eq_2 add_eq_0_iff ref_pad_good)
  with a(1) a1(1) a2(1) show ?thesis by (auto simp: numeral_2_eq_2)
qed

end
