(* ===== verification/Showing.thy ===== *)
theory Showing
  imports Application
begin

text \<open>
  Properties of a frame as a whole: the traversal refines the list of nodes with their matrices,
  ends when the graph has no cycle and never does when it has one, and shows each body of the
  solar system with its own texture and material.
\<close>

section \<open>The solar system on the reference platform\<close>

lemma ref_solar:
  obtains ws sg w where "new_scene ref_platform world_init = Inr ((6, sg), w)" and "sg = solar_scene ref_platform"
    and "built ref_platform affine_ok ws 0 solar_kinds solar_children w"
proof -
  obtain ws w0 where w0: "getInstance ref_platform world_init = Inr (ws, w0)"
      "built ref_platform affine_ok ws 0 [] [] w0"
    using ref_platform_ok by (rule world_init_built)
  from new_scene_yields [OF refp.gl_matrix_axioms w0(2)] new_scene_first [OF w0(1)] that show ?thesis
    by (auto simp: yields_def)
qed

lemma ref_solar_ready:
  assumes "built ref_platform affine_ok ws 0 solar_kinds solar_children w"
  shows "scene_ready ref_platform affine_ok ws solar_rank 6 (mat4_create ref_platform) (solar_scene ref_platform) w"
  using assms by (rule solar_scene_ready) (simp_all add: refp.create_ok solar_scene_def)

section \<open>The traversal\<close>

text \<open>C5: a frame refines a single pass over a list: the nodes in the order the traversal reaches them,
  each with the product of the matrices from the root down to it as they were before the frame.  The
  stack is left as it was found.\<close>

theorem frame_refines_list:
  fixes P :: "'z platform_scheme"
  assumes "gl_matrix P ok" and "scene_ready P ok ws rank n m sg w"
  shows "scene_draw n P (Fin d) (sg, w) = mapResult (\<lambda>w'. (sg\<lparr>sg_days := Fin d\<rparr>, w'))
    (place_all P ws (Fin d) (render_list n P w m (sg_root sg)) w)"
  by (rule scene_draw_place_all [OF assms])

theorem frame_refines_list_witness:
  "\<exists>ws sg w. new_scene ref_platform world_init = Inr ((6, sg), w) \<and>
    scene_draw 6 ref_platform (Fin 1) (sg, w) = mapResult (\<lambda>w'. (sg\<lparr>sg_days := Fin 1\<rparr>, w'))
      (place_all ref_platform ws (Fin 1) (render_list 6 ref_platform w (mat4_create ref_platform) (sg_root sg)) w)"
proof -
  obtain ws sg w where w: "new_scene ref_platform world_init = Inr ((6, sg), w)" "sg = solar_scene ref_platform"
      "built ref_platform affine_ok ws 0 solar_kinds solar_children w"
    by (rule ref_solar)
  from frame_refines_list [OF refp.gl_matrix_axioms ref_solar_ready [OF w(3)], of 1] w(1,2) show ?thesis by blast
qed

text \<open>C16: on a graph without cycles the recursion ends: a call stack one deeper than the longest path
  below a node is enough, and the matrix stack comes back as it was.\<close>

theorem traversal_terminates:
  fixes P :: "'z platform_scheme"
  assumes "gl_matrix P ok" and "world_good P ok ws w" and "ranked rank w" and "i < length (nodes w)"
    and "ok m" and "rank i < n"
  shows "\<exists>w'. drawTraversal n P (Fin d) i (st @ [m], w) = Inr (st @ [m], w') \<and> world_good P ok ws w'"
  using visit_returns [OF assms, of d] drawTraversal_visit [OF assms(1,2,4,5), of n d st] by auto

theorem traversal_terminates_witness:
  "\<exists>sg w w'. new_scene ref_platform world_init = Inr ((6, sg), w) \<and>
    drawTraversal 4 ref_platform (Fin 1) 14 ([] @ [mat4_create ref_platform], w) =
      Inr ([] @ [mat4_create ref_platform], w')"
proof -
  obtain ws sg w where w: "new_scene ref_platform world_init = Inr ((6, sg), w)" "sg = solar_scene ref_platform"
      "built ref_platform affine_ok ws 0 solar_kinds solar_children w"
    by (rule ref_solar)
  have len: "length (nodes w) = 47" using built_length [OF w(3)] by (simp add: length_solar_children)
  have "world_good ref_platform affine_ok ws w" "ranked solar_rank w"
    using ref_solar_ready [OF w(3)] by (simp_all add: scene_ready_def)
  from traversal_terminates [OF refp.gl_matrix_axioms this, of 14 "mat4_create ref_platform" 4 1 "[]"] len
  have "\<exists>w'. drawTraversal 4 ref_platform (Fin 1) 14 ([] @ [mat4_create ref_platform], w) =
      Inr ([] @ [mat4_create ref_platform], w')"
    by (auto simp: refp.create_ok solar_rank_def)
  with w(1) show ?thesis by blast
qed

text \<open>C33: a cycle is fatal: from a node of a set in which every node has a child, the traversal raises
  the RangeError of an exhausted call stack, however deep that stack is.  Nothing in \<open>addChild\<close>
  prevents such a graph.\<close>

theorem cycle_overflows:
  fixes P :: "'z platform_scheme"
  assumes "gl_matrix P ok" and "world_good P ok ws w" and "i \<in> S" and "ok m"
    and "\<And>k. k \<in> S \<Longrightarrow> k < length (nodes w) \<and> set (children (nodes w ! k)) \<inter> S \<noteq> {}"
  shows "drawTraversal n P (Fin d) i (st @ [m], w) = Inl RangeError"
proof -
  have "i < length (nodes w)" using assms(3,5) by blast
  with drawTraversal_visit [OF assms(1,2) _ assms(4), of i n d st] visit_cyclic [OF assms, of n d] show ?thesis
    by simp
qed

theorem cycle_overflows_witness:
  "\<exists>sg w. new_scene ref_platform world_init = Inr ((6, sg), w) \<and>
    drawTraversal 10000 ref_platform (Fin 1) 6 ([] @ [mat4_create ref_platform], addChild 10 6 w) = Inl RangeError"
proof -
  obtain ws sg w where w: "new_scene ref_platform world_init = Inr ((6, sg), w)" "sg = solar_scene ref_platform"
      "built ref_platform affine_ok ws 0 solar_kinds solar_children w"
    by (rule ref_solar)
  have b: "built ref_platform affine_ok ws 0 solar_kinds
      (solar_children[10 := solar_children ! 10 @ [6]]) (addChild 10 6 w)"
    by (rule addChild_built [OF w(3)]) (simp_all add: length_solar_children)
  have ch: "children (nodes (addChild 10 6 w) ! 6) = [10]"
    "children (nodes (addChild 10 6 w) ! 10) = [7, 14, 18, 26, 30, 42, 46, 34, 38, 6]"
    using built_children [OF b, of 6] built_children [OF b, of 10] by (simp_all add: solar_children_def)
  have len: "length (nodes (addChild 10 6 w)) = 47" and good: "world_good ref_platform affine_ok ws (addChild 10 6 w)"
    using built_length [OF b] b by (simp_all add: length_solar_children built_def)
  have "k < length (nodes (addChild 10 6 w)) \<and>
      set (children (nodes (addChild 10 6 w) ! k)) \<inter> {6, 10} \<noteq> {}" if "k \<in> {6, 10}" for k
    using that ch len by auto
  with good have "drawTraversal 10000 ref_platform (Fin 1) 6 ([] @ [mat4_create ref_platform], addChild 10 6 w) =
      Inl RangeError"
    by (intro cycle_overflows [OF refp.gl_matrix_axioms, of ws _ 6 "{6, 10}"]) (simp_all add: refp.create_ok)
  with w(1) show ?thesis by blast
qed

text \<open>C11: what is drawn: the draw calls a frame records are, in order, those of the bodies in the list
  of the traversal, each seen by the shaders with the matrices of its node and with the material,
  the texture and the light that the nodes before it in the list set last.  In particular a light
  that comes later in the list does not shine on the bodies before it in that frame.\<close>

theorem frame_shows:
  fixes P :: "'z platform_scheme"
  assumes "gl_matrix P ok" and "scene_ready P ok ws rank n m sg w"
  shows "\<exists>w' es dss. scene_draw n P (Fin d) (sg, w) = Inr (sg\<lparr>sg_days := Fin d\<rparr>, w') \<and>
    trace (gl w') = trace (gl w) @ es \<and> draws es = concat dss \<and>
    list_all2 (shows_body ws) dss
      (rendered P (map (looks_of w) (render_list n P w m (sg_root sg))) (shade_of (gl w)))"
proof -
  note r = assms(2) [unfolded scene_ready_def]
  let ?items = "render_list n P w m (sg_root sg)"
  have items: "\<forall>(k, mk) \<in> set ?items. k < length (nodes w) \<and> ok mk"
    using r render_list_ok [OF assms(1), where w = w and ws = ws and i = "sg_root sg" and m = m] by auto
  then obtain w' where w': "place_all P ws (Fin d) ?items w = Inr w'"
    using place_list_step [where d = d, OF assms(1) conjunct1 [OF r]] by metis
  from place_all_shows [OF assms(1) conjunct1 [OF r] items w' same_shade_refl]
    scene_draw_place_all [OF assms, of d] w' show ?thesis
    by auto
qed

theorem frame_shows_witness:
  "\<exists>ws sg w w' es dss. new_scene ref_platform world_init = Inr ((6, sg), w) \<and>
    scene_draw 6 ref_platform (Fin 1) (sg, w) = Inr (sg\<lparr>sg_days := Fin 1\<rparr>, w') \<and>
    trace (gl w') = trace (gl w) @ es \<and> draws es = concat dss \<and>
    list_all2 (shows_body ws) dss (rendered ref_platform
      (map (looks_of w) (render_list 6 ref_platform w (mat4_create ref_platform) (sg_root sg))) (shade_of (gl w)))"
proof -
  obtain ws sg w where w: "new_scene ref_platform world_init = Inr ((6, sg), w)" "sg = solar_scene ref_platform"
      "built ref_platform affine_ok ws 0 solar_kinds solar_children w"
    by (rule ref_solar)
  from frame_shows [OF refp.gl_matrix_axioms ref_solar_ready [OF w(3)], of 1] w(1,2) show ?thesis by blast
qed


section \<open>Which texture and material each body wears\<close>

text \<open>The last texture and the last material before each body of a list.\<close>

lemma looks_of_item: "looks_of w (i, m) = (m, appearance (body (nodes w ! i)))"
  by (simp add: looks_of_def)

fun dressed :: "(mat \<times> looks) list \<Rightarrow> handle option \<Rightarrow> material option \<Rightarrow> (looks \<times> handle option \<times> material option) list"
where
  "dressed [] tx mt = []"
| "dressed ((m, lk) # items) tx mt =
     (let tx' = (case lk of Shows_Texture t \<Rightarrow> Some (tx_texture t) | _ \<Rightarrow> tx);
          mt' = (case lk of Shows_Material k \<Rightarrow> Some k | _ \<Rightarrow> mt)
      in (if drawable_looks lk then [(lk, tx', mt')] else []) @ dressed items tx' mt')"

definition wears :: "handle option \<Rightarrow> material option \<Rightarrow> shade \<Rightarrow> bool" where
  "wears tx mt sh \<longleftrightarrow> sh_texture sh = tx \<and>
     (case mt of None \<Rightarrow> True
      | Some k \<Rightarrow> list_all (\<lambda>(x, v). sh_uniforms sh x = Some v) (material_uniforms k))"

lemma wears_node:
  assumes "wears tx mt sh"
  shows "wears (case lk of Shows_Texture t \<Rightarrow> Some (tx_texture t) | _ \<Rightarrow> tx)
    (case lk of Shows_Material k \<Rightarrow> Some k | _ \<Rightarrow> mt) (shade_node P m lk sh)"
  using assms by (cases lk; cases mt)
    (simp_all add: wears_def shade_node_def Let_def with_uniforms_def material_uniforms_def)

lemma rendered_dressed:
  "wears tx mt sh \<Longrightarrow> list_all2 (\<lambda>(lk, sh') (lk', tx', mt'). lk = lk' \<and> wears tx' mt' sh')
    (rendered P items sh) (dressed items tx mt)"
proof (induction items arbitrary: tx mt sh)
  case (Cons item items)
  obtain m lk where item: "item = (m, lk)" by (cases item)
  from wears_node [OF Cons.prems, of lk P m] have w: "wears (case lk of Shows_Texture t \<Rightarrow> Some (tx_texture t) | _ \<Rightarrow> tx)
    (case lk of Shows_Material k \<Rightarrow> Some k | _ \<Rightarrow> mt) (shade_node P m lk sh)" .
  from Cons.IH [OF this] w show ?case by (simp add: item Let_def)
qed simp

datatype tag = TTexture | TMaterial | TBody | TOther

fun tag_of :: "kind \<Rightarrow> tag" where
  "tag_of (KTexture s) = TTexture"
| "tag_of (KMaterial e a d s sh) = TMaterial"
| "tag_of (KSphere r) = TBody"
| "tag_of (KCube x y z) = TBody"
| "tag_of _ = TOther"

fun dress :: "tag list \<Rightarrow> nat list \<Rightarrow> nat option \<Rightarrow> nat option \<Rightarrow> (nat \<times> nat option \<times> nat option) list" where
  "dress tags [] tx mt = []"
| "dress tags (i # is) tx mt = (case tags ! i of
     TTexture \<Rightarrow> dress tags is (Some i) mt
   | TMaterial \<Rightarrow> dress tags is tx (Some i)
   | TBody \<Rightarrow> (i, tx, mt) # dress tags is tx mt
   | TOther \<Rightarrow> dress tags is tx mt)"

definition texture_of :: "world \<Rightarrow> nat \<Rightarrow> handle option" where
  "texture_of w i = (case body (nodes w ! i) of TextureBody t \<Rightarrow> Some (tx_texture t) | _ \<Rightarrow> None)"

definition material_of :: "world \<Rightarrow> nat \<Rightarrow> material option" where
  "material_of w i = (case body (nodes w ! i) of MaterialBody m \<Rightarrow> Some m | _ \<Rightarrow> None)"

definition node_texture :: "world \<Rightarrow> handle option \<Rightarrow> nat option \<Rightarrow> handle option" where
  "node_texture w tx0 tx = (case tx of None \<Rightarrow> tx0 | Some i \<Rightarrow> texture_of w i)"

definition node_material :: "world \<Rightarrow> nat option \<Rightarrow> material option" where
  "node_material w mt = (case mt of None \<Rightarrow> None | Some i \<Rightarrow> material_of w i)"

lemma dressed_dress:
  assumes "built P ok ws D ks cs w" and "\<forall>(k, m) \<in> set items. k < length cs"
  shows "dressed (map (looks_of w) items) (node_texture w tx0 tx) (node_material w mt) =
    map (\<lambda>(i, tx, mt). (appearance (body (nodes w ! i)), node_texture w tx0 tx, node_material w mt))
      (dress (map tag_of ks) (map fst items) tx mt)"
  using assms(2)
proof (induction items arbitrary: tx mt)
  case (Cons item items)
  obtain i m where item: "item = (i, m)" by (cases item)
  have i: "i < length ks" using Cons.prems built_length [OF assms(1)] by (simp add: item)
  have IH: "dressed (map (looks_of w) items) (node_texture w tx0 tx) (node_material w mt) =
    map (\<lambda>(i, tx, mt). (appearance (body (nodes w ! i)), node_texture w tx0 tx, node_material w mt))
      (dress (map tag_of ks) (map fst items) tx mt)" for tx mt
    using Cons.prems by (intro Cons.IH) simp
  have k: "of_kind P (body (nodes w ! i)) (ks ! i)" using built_node [OF assms(1) i] by simp
  show ?case
  proof (cases "body (nodes w ! i)")
    case (TextureBody t)
    with k have "node_texture w tx0 (Some i) = Some (tx_texture t)" "tag_of (ks ! i) = TTexture"
      by (simp_all add: node_texture_def texture_of_def)
    with TextureBody IH [of "Some i" mt] i show ?thesis by (simp add: item looks_of_item)
  next
    case (MaterialBody mat)
    with k have "node_material w (Some i) = Some mat" "tag_of (ks ! i) = TMaterial"
      by (simp_all add: node_material_def material_of_def)
    with MaterialBody IH [of tx "Some i"] i show ?thesis by (simp add: item looks_of_item)
  qed (use k i IH in \<open>auto simp: item looks_of_item split: kind.splits\<close>)
qed simp


text \<open>The geometry of the draw calls of a body.\<close>

fun shows_kind :: "'a glm_scheme \<Rightarrow> webgl_start \<Rightarrow> kind \<Rightarrow> draw_call list \<Rightarrow> bool" where
  "shows_kind P ws (KSphere r) ds \<longleftrightarrow> (\<exists>d. ds = [d] \<and> d_mode d = TRIANGLE_STRIP \<and>
     d_indices d = indexData latitudeBands longitudeBands \<and>
     d_sources d (vertexPositionAttribute ws) = Some (3, vertexPositionData latitudeBands longitudeBands r))"
| "shows_kind P ws (KCube x y z) ds \<longleftrightarrow> list_all (\<lambda>d. d_mode d = TRIANGLES) ds \<and>
     map (\<lambda>d. d_sources d (vertexPositionAttribute ws)) ds =
     map (\<lambda>(a, b, c). Some (3, triangle_vertices a b c)) (face_triangles (box_corners (vec3_fromValues P) x y z) cube_faces)"
| "shows_kind P ws _ ds \<longleftrightarrow> ds = []"

definition dressed_in :: "world \<Rightarrow> nat \<Rightarrow> nat \<Rightarrow> draw_call \<Rightarrow> bool" where
  "dressed_in w tx mt d \<longleftrightarrow> d_texture d = texture_of w tx \<and>
     (case material_of w mt of None \<Rightarrow> False
      | Some k \<Rightarrow> list_all (\<lambda>(x, v). d_uniforms d x = Some v) (material_uniforms k))"

lemma triangle_calls_sources:
  "list_all2 (triangle_call ws) fs ds \<Longrightarrow> list_all (\<lambda>d. d_mode d = TRIANGLES) ds \<and>
    map (\<lambda>d. d_sources d (vertexPositionAttribute ws)) ds = map (\<lambda>t. Some (3, t_vertices t)) (map fst fs)"
  by (induction rule: list_all2_induct) (simp_all add: triangle_call_def)

lemma map_fst_faces:
  "list_all (\<lambda>ts. length ts = 2) tss \<Longrightarrow> map fst (concat (map (\<lambda>ts. zip ts [u, v]) tss)) = concat tss"
  by (induction tss) simp_all

lemma shows_kindI:
  assumes "of_kind P b k" and "tag_of k = TBody" and "shows_body ws ds (appearance b, sh)" and "body_good ok ws s b"
  shows "shows_kind P ws k ds"
proof (cases b)
  case (SphereBody sp)
  with assms show ?thesis
    by (cases k) (auto simp: sphere_call_def is_sphere_def)
next
  case (CubeBody c)
  with assms(1) obtain x y z where k: "k = KCube x y z" and c: "is_cube P x y z c" by (auto split: kind.splits)
  have "list_all2 (triangle_call ws) (concat (map (\<lambda>ts. zip ts [first_uv, second_uv]) (map triangles (squares c)))) ds"
    using assms(3) CubeBody by simp
  note calls = triangle_calls_sources [OF this]
  have "list_all (\<lambda>ts. length ts = 2) (map triangles (squares c))"
    using assms(4) CubeBody by (auto simp: cube_good_def square_good_def list_all_iff)
  from calls [unfolded map_fst_faces [OF this]]
  have "map (\<lambda>d. d_sources d (vertexPositionAttribute ws)) ds =
      map (\<lambda>v. Some (3, v)) (map t_vertices (concat (map triangles (squares c))))" by simp
  with c calls show ?thesis by (simp add: k is_cube_def split_def comp_def)
qed (use assms in \<open>auto split: kind.splits\<close>)

definition solar_dressing :: "(nat \<times> nat \<times> nat) list" where
  "solar_dressing = [(9, 8, 1), (13, 12, 3), (21, 20, 4), (17, 16, 2), (25, 24, 4), (29, 28, 4),
     (41, 40, 4), (45, 44, 5), (33, 32, 4), (37, 36, 4)]"

lemma solar_tags: "map tag_of solar_kinds =
    TOther # replicate 5 TMaterial @ TOther # concat (replicate 10 [TOther, TTexture, TBody, TOther])"
  by (simp add: solar_kinds_def base_kinds_def system_kinds_def numeral_eq_Suc)

lemma solar_dress:
  "dress (map tag_of solar_kinds) solar_descent None None = map (\<lambda>(i, tx, mt). (i, Some tx, Some mt)) solar_dressing"
  unfolding solar_tags by code_simp

lemma solar_bodies_kind: "(i, tx, mt) \<in> set solar_dressing \<Longrightarrow>
    i < 47 \<and> tag_of (solar_kinds ! i) = TBody \<and> mt < 47 \<and> tag_of (solar_kinds ! mt) = TMaterial"
proof -
  assume "(i, tx, mt) \<in> set solar_dressing"
  moreover have "list_all (\<lambda>(i, tx, mt). i < 47 \<and> mt < 47 \<and> map tag_of solar_kinds ! i = TBody \<and>
      map tag_of solar_kinds ! mt = TMaterial) solar_dressing"
    unfolding solar_tags by code_simp
  moreover have "length solar_kinds = 47" by (simp add: solar_kinds_def base_kinds_def)
  ultimately show ?thesis by (auto simp: list_all_iff)
qed

lemma dressed_inI:
  assumes "shaded sh d" and "wears (texture_of w tx) (material_of w mt) sh" and "material_of w mt \<noteq> None"
  shows "dressed_in w tx mt d"
  using assms by (auto simp: dressed_in_def wears_def shaded_def same_shade_def list_all_iff material_uniforms_def)

lemma shows_body_shaded:
  "shows_body ws ds (lk, sh) \<Longrightarrow> list_all (shaded sh) ds"
  by (cases lk) auto

text \<open>One body of the list, drawn.\<close>

lemma body_drawn:
  assumes b: "built P ok ws D solar_kinds solar_children w" and i: "(i, tx, mt) \<in> set solar_dressing"
    and s: "shows_body ws ds (appearance (body (nodes w ! i)), sh)"
    and sh: "wears (texture_of w tx) (material_of w mt) sh"
  shows "shows_kind P ws (solar_kinds ! i) ds \<and> list_all (dressed_in w tx mt) ds"
proof -
  note k = solar_bodies_kind [OF i] and len = built_length [OF b, unfolded length_solar_children]
  have "node_good ok ws w (nodes w ! i)" using b k len by (auto simp: built_def intro: world_good_node)
  then have "shows_kind P ws (solar_kinds ! i) ds"
    using shows_kindI [OF _ _ s] built_node [OF b, of i] k len by (auto simp: node_good_def)
  moreover have "material_of w mt \<noteq> None"
    using built_node [OF b, of mt] k len
    by (cases "solar_kinds ! mt"; cases "body (nodes w ! mt)") (auto simp: material_of_def)
  ultimately show ?thesis
    using shows_body_shaded [OF s] dressed_inI [OF _ sh] by (auto simp: list_all_iff)
qed

lemma solar_frame_shows:
  fixes P :: "'z platform_scheme"
  assumes gl: "gl_matrix P ok" and b: "built P ok ws D solar_kinds solar_children w" and n: "5 < n" and m: "ok m"
    and sg: "sg_root sg = 6" "trafoStack sg = [m]"
  shows "\<exists>w' es dss. scene_draw n P (Fin d) (sg, w) = Inr (sg\<lparr>sg_days := Fin d\<rparr>, w') \<and>
    trace (gl w') = trace (gl w) @ es \<and> draws es = concat dss \<and>
    list_all2 (\<lambda>(i, tx, mt) ds. shows_kind P ws (solar_kinds ! i) ds \<and> list_all (dressed_in w tx mt) ds)
      solar_dressing dss"
proof -
  have ready: "scene_ready P ok ws solar_rank n m sg w" using b n m sg by (rule solar_scene_ready)
  note r = ready [unfolded scene_ready_def]
  let ?items = "render_list n P w m 6"
  have items: "\<forall>(k, mk) \<in> set ?items. k < length (nodes w) \<and> ok mk"
    using r sg(1) render_list_ok [OF gl, where w = w and ws = ws and i = 6 and m = m] by auto
  obtain w' where w': "place_all P ws (Fin d) ?items w = Inr w'"
    using place_list_step [where d = d, OF gl conjunct1 [OF r] items] by metis
  obtain es dss where e: "trace (gl w') = trace (gl w) @ es" "draws es = concat dss"
      "list_all2 (shows_body ws) dss (rendered P (map (looks_of w) ?items) (shade_of (gl w)))"
    using place_all_shows [OF gl conjunct1 [OF r] items w' same_shade_refl] by blast
  let ?tx0 = "bound_texture (gl w) 0"
  have "list_all2 (\<lambda>(lk, sh') (lk', tx', mt'). lk = lk' \<and> wears tx' mt' sh')
      (rendered P (map (looks_of w) ?items) (shade_of (gl w))) (dressed (map (looks_of w) ?items) ?tx0 None)"
    by (rule rendered_dressed) (simp add: wears_def shade_of_def)
  moreover have "dressed (map (looks_of w) ?items) ?tx0 None =
      map (\<lambda>(i, tx, mt). (appearance (body (nodes w ! i)), texture_of w tx, material_of w mt)) solar_dressing"
    using dressed_dress [OF b, of ?items ?tx0 None None] items built_length [OF b]
    by (simp add: node_texture_def node_material_def map_fst_render_list solar_descends [OF b n] solar_dress
        split_def comp_def)
  ultimately have "list_all2 (\<lambda>(lk, sh') (i, tx, mt). lk = appearance (body (nodes w ! i)) \<and>
      wears (texture_of w tx) (material_of w mt) sh') (rendered P (map (looks_of w) ?items) (shade_of (gl w))) solar_dressing"
    by (simp add: list_all2_map2 split_def)
  with e(3) have "list_all2 (\<lambda>ds (i, tx, mt). \<exists>sh. shows_body ws ds (appearance (body (nodes w ! i)), sh) \<and>
      wears (texture_of w tx) (material_of w mt) sh) dss solar_dressing"
    by (rule list_all2_trans [rotated]) auto
  note drawn = this
  have "list_all2 (\<lambda>(i, tx, mt) ds. shows_kind P ws (solar_kinds ! i) ds \<and> list_all (dressed_in w tx mt) ds)
      solar_dressing dss"
  proof (rule list_all2_all_nthI)
    show "length solar_dressing = length dss" using drawn by (auto dest: list_all2_lengthD)
  next
    fix j assume j: "j < length solar_dressing"
    obtain i tx mt where k: "solar_dressing ! j = (i, tx, mt)" by (cases "solar_dressing ! j") auto
    with j have "(i, tx, mt) \<in> set solar_dressing" by (metis nth_mem)
    moreover obtain sh where "shows_body ws (dss ! j) (appearance (body (nodes w ! i)), sh)"
        "wears (texture_of w tx) (material_of w mt) sh"
      using list_all2_nthD2 [OF drawn j] k by auto
    ultimately show "(case solar_dressing ! j of (i, tx, mt) \<Rightarrow>
        \<lambda>ds. shows_kind P ws (solar_kinds ! i) ds \<and> list_all (dressed_in w tx mt) ds) (dss ! j)"
      using body_drawn [OF b] by (simp add: k)
  qed
  moreover have "scene_draw n P (Fin d) (sg, w) = Inr (sg\<lparr>sg_days := Fin d\<rparr>, w')"
    using scene_draw_place_all [OF gl ready, of d] sg(1) w' by simp
  ultimately show ?thesis using e(1,2) by blast
qed


lemma texture_of_camera:
  assumes "body (nodes w ! i) = CameraBody c" and "i < length (nodes w)"
  shows "texture_of (update_node i (\<lambda>nd. nd\<lparr>body := CameraBody c'\<rparr>) w) = texture_of w"
    and "material_of (update_node i (\<lambda>nd. nd\<lparr>body := CameraBody c'\<rparr>) w) = material_of w"
  using assms by (auto simp: texture_of_def material_of_def nodes_update_node intro!: ext)

text \<open>C4: what the user sees, as long as the connected gamepads have at least five finite axes: every frame sets the viewport, clears it and draws the ten bodies, the
  sun first: nine spheres of the given radii and the cube that is the earth's moon, each with the
  texture of its own planet and with its material.  (The table lists, for each body, the nodes of its
  texture and of its material: mars and the earth have the materials \<open>setMaterial\<close> gave them last.)\<close>

theorem each_body_dressed:
  fixes P :: "'z platform_scheme"
  assumes "gl_matrix P ok" and "platform_ok P" and "5 < n" and "app_runs n P G c k a"
    and "\<And>pad. pad \<in> G \<Longrightarrow> pad_good pad"
  shows "\<exists>ws a' es dss. webgl_instance (app_world a) = Some ws \<and> frame_callback n P a = Inr a' \<and>
    trace (gl (app_world a')) = trace (gl (app_world a)) @
      Viewport (canvas_width ws) (canvas_height ws) # Clear # es \<and>
    draws es = concat dss \<and>
    list_all2 (\<lambda>(i, tx, mt) ds. shows_kind P ws (solar_kinds ! i) ds \<and> list_all (dressed_in (app_world a) tx mt) ds)
      [(9, 8, 1), (13, 12, 3), (21, 20, 4), (17, 16, 2), (25, 24, 4), (29, 28, 4),
       (41, 40, 4), (45, 44, 5), (33, 32, 4), (37, 36, 4)] dss"
proof -
  from app_runs_inv [OF assms] obtain D where D: "app_inv P ok D a" "timer_good (app_timer a)" by blast
  then obtain ws where b: "built P ok ws D solar_kinds solar_children (app_world a)"
    and a: "app_camera a = 6" "sg_root (app_scene a) = 6" "trafoStack (app_scene a) = [mat4_create P]"
      "pad_inv (app_pad a)" "pads_usable (app_pad a)"
    by (auto simp: app_inv_def)
  let ?w3 = "(app_world a)\<lparr>gl := gl_clear (gl_viewport (canvas_width ws) (canvas_height ws) (gl (app_world a)))\<rparr>"
  obtain d t' c' where d: "daysPassed (app_timer a) (app_clock a) = (Fin d, t', c')"
    using D(2) by (rule daysPassed_finite)
  have b3: "built P ok ws D solar_kinds solar_children ?w3" using b clear_step by (rule built_gl)
  obtain w4 cm where w4: "gc_updateStatus P (app_pad a) 6 ?w3 = Inr w4" "built P ok ws D solar_kinds solar_children w4"
      "gl w4 = gl ?w3" "w4 = update_node 6 (\<lambda>nd. nd\<lparr>body := CameraBody cm\<rparr>) ?w3"
    using gc_updateStatus_step [OF assms(1) b3 a(4,5)] by (auto simp: yields_def)
  obtain w5 es dss where w5: "scene_draw n P (Fin d) (app_scene a, w4) = Inr ((app_scene a)\<lparr>sg_days := Fin d\<rparr>, w5)"
      "trace (gl w5) = trace (gl w4) @ es" "draws es = concat dss"
      "list_all2 (\<lambda>(i, tx, mt) ds. shows_kind P ws (solar_kinds ! i) ds \<and> list_all (dressed_in w4 tx mt) ds)
        solar_dressing dss"
    using solar_frame_shows [OF assms(1) w4(2) assms(3) gl_matrix.create_ok [OF assms(1)] a(2,3), of d] by blast
  obtain c6 where "body (nodes ?w3 ! 6) = CameraBody c6" using b3 by (rule built_camera)
  moreover have "6 < length (nodes ?w3)" using built_length [OF b3] by (simp add: length_solar_children)
  ultimately have "dressed_in w4 = dressed_in ?w3"
    unfolding w4(4) by (intro ext) (simp add: dressed_in_def texture_of_camera)
  moreover have "dressed_in ?w3 = dressed_in (app_world a)"
    by (intro ext) (simp add: dressed_in_def texture_of_def material_of_def)
  moreover have "frame_callback n P a = Inr (a\<lparr>app_timer := t', app_clock := c',
      app_scene := (app_scene a)\<lparr>sg_days := Fin d\<rparr>, app_world := w5, app_requests := Suc (app_requests a - 1)\<rparr>)"
    using w4(1) w5(1) by (simp add: frame_callback_def drawScene_def d a(1) Let_def on_gl_def
        page_ready_getInstance [OF built_ready [OF b]])
  moreover have "trace (gl w5) = trace (gl (app_world a)) @
      Viewport (canvas_width ws) (canvas_height ws) # Clear # es"
    by (simp add: w5(2) w4(3) gl_clear_def gl_viewport_def)
  moreover have "webgl_instance (app_world a) = Some ws" using built_ready [OF b] by (simp add: page_ready_def)
  ultimately show ?thesis
    using w5(3,4) by (intro exI [of _ ws] exI [of _ "a\<lparr>app_timer := t', app_clock := c',
      app_scene := (app_scene a)\<lparr>sg_days := Fin d\<rparr>, app_world := w5, app_requests := Suc (app_requests a - 1)\<rparr>"]
      exI [of _ es] exI [of _ dss]) (simp add: solar_dressing_def)
qed

theorem each_body_dressed_witness:
  "\<exists>a ws a' es dss. index_start ref_platform [] ref_clock world_init = Inr a \<and>
    webgl_instance (app_world a) = Some ws \<and> frame_callback 6 ref_platform a = Inr a' \<and>
    trace (gl (app_world a')) = trace (gl (app_world a)) @
      Viewport (canvas_width ws) (canvas_height ws) # Clear # es \<and> draws es = concat dss \<and>
    list_all2 (\<lambda>(i, tx, mt) ds. shows_kind ref_platform ws (solar_kinds ! i) ds \<and>
        list_all (dressed_in (app_world a) tx mt) ds)
      [(9, 8, 1), (13, 12, 3), (21, 20, 4), (17, 16, 2), (25, 24, 4), (29, 28, 4),
       (41, 40, 4), (45, 44, 5), (33, 32, 4), (37, 36, 4)] dss"
proof -
  obtain a where a: "index_start ref_platform [] ref_clock world_init = Inr a" "app_runs 6 ref_platform {ref_pad} ref_clock 0 a"
    using ref_runs by blast
  have n: "(5 :: nat) < 6" by simp
  have pads: "pad_good pad" if "pad \<in> {ref_pad}" for pad using that ref_pad_good by simp
  from each_body_dressed [OF refp.gl_matrix_axioms ref_platform_ok n a(2) pads] a(1) show ?thesis by blast
qed

end
