(* ===== verification/JsString.thy ===== *)
theory JsString
  imports Prelude "HOL-Library.Word" "HOL-Library.Sublist"
begin

text \<open>
  JavaScript strings as lists of UTF-16 code units, with the operations that
  src/Projekt_Systementwicklung/html/search/search.js uses of them, and its first function,
  \<open>convertToId\<close>.  \<open>toLowerCase\<close> follows the Unicode tables: it is an argument of the definitions that
  call it, and what is needed of it is that it lowers ASCII letters and leaves the rest of ASCII.
\<close>

section \<open>Strings\<close>

type_synonym js_string = "16 word list"

definition js :: "string \<Rightarrow> js_string" where
  "js s = map (\<lambda>c. word_of_nat (of_char c)) s"

lemma js_simps [simp]: "js [] = []" "js (c # s) = word_of_nat (of_char c) # js s" "js (s @ t) = js s @ js t"
  by (simp_all add: js_def)

definition ascii :: "16 word \<Rightarrow> bool" where
  "ascii c \<longleftrightarrow> c < 128"

definition ascii_lower :: "16 word \<Rightarrow> 16 word" where
  "ascii_lower c = (if 65 \<le> c \<and> c \<le> 90 then c + 32 else c)"

definition lowers_ascii :: "(js_string \<Rightarrow> js_string) \<Rightarrow> bool" where
  "lowers_ascii lower \<longleftrightarrow> (\<forall>s. list_all ascii s \<longrightarrow> lower s = map ascii_lower s)"

lemma lowers_asciiD: "lowers_ascii lower \<Longrightarrow> list_all ascii s \<Longrightarrow> lower s = map ascii_lower s"
  by (simp add: lowers_ascii_def)

definition space :: "16 word" where
  "space = 32"

text \<open>\<open>replace(/^ +/, "")\<close>, \<open>replace(/ +$/, "")\<close> and \<open>replace(/ +/g, "")\<close>.\<close>

definition strip_leading :: "js_string \<Rightarrow> js_string" where
  "strip_leading s = dropWhile (\<lambda>c. c = space) s"

definition strip_trailing :: "js_string \<Rightarrow> js_string" where
  "strip_trailing s = rev (dropWhile (\<lambda>c. c = space) (rev s))"

definition strip_all :: "js_string \<Rightarrow> js_string" where
  "strip_all s = filter (\<lambda>c. c \<noteq> space) s"

text \<open>\<open>Number.prototype.toString\<close> of a natural number, in base 16 and 10.\<close>

definition digit :: "nat \<Rightarrow> 16 word" where
  "digit n = (if n < 10 then 48 + word_of_nat n else 87 + word_of_nat n)"

fun toString :: "nat \<Rightarrow> nat \<Rightarrow> js_string" where
  "toString b n = (if b < 2 \<or> n < b then [digit n] else toString b (n div b) @ [digit (n mod b)])"

declare toString.simps [simp del]

lemma toString_digit: "n < b \<Longrightarrow> toString b n = [digit n]"
  by (simp add: toString.simps)

lemma toString_two: "2 \<le> b \<Longrightarrow> b \<le> n \<Longrightarrow> n < b * b \<Longrightarrow> toString b n = [digit (n div b), digit (n mod b)]"
  by (subst toString.simps) (simp add: toString_digit less_mult_imp_div_less)

lemma digit_inj: "m < 16 \<Longrightarrow> n < 16 \<Longrightarrow> digit m = digit n \<longleftrightarrow> m = n"
proof -
  assume m: "m < 16" and n: "n < 16"
  have "unat (digit k) = (if k < 10 then 48 + k else 87 + k)" if "k < 16" for k
    using that by (simp add: digit_def unat_word_ariths unat_of_nat take_bit_nat_def)
  with m n have "unat (digit m) = unat (digit n) \<longleftrightarrow> m = n" by (auto split: if_splits)
  then show ?thesis by (metis word_unat_eq_iff)
qed

lemma digit_range: "n < 16 \<Longrightarrow> 48 \<le> unat (digit n) \<and> unat (digit n) < 103"
  by (simp add: digit_def unat_word_ariths unat_of_nat take_bit_nat_def)

lemma toString_nonempty: "toString b n \<noteq> []"
  by (subst toString.simps) simp

lemma toString_inj:
  assumes "2 \<le> b" and "b \<le> 16"
  shows "toString b m = toString b n \<longleftrightarrow> m = n"
proof (induction m arbitrary: n rule: less_induct)
  case (less m)
  consider "m < b" "n < b" | "m < b" "b \<le> n" | "b \<le> m" "n < b" | "b \<le> m" "b \<le> n" by linarith
  then show ?case
  proof cases
    case 1
    then show ?thesis using assms by (simp add: toString_digit digit_inj)
  next
    case 2
    then show ?thesis using assms toString_nonempty [of b "n div b"]
      by (simp add: toString_digit) (simp add: toString.simps [of b n])
  next
    case 3
    then show ?thesis using assms toString_nonempty [of b "m div b"]
      by (simp add: toString_digit) (simp add: toString.simps [of b m])
  next
    case 4
    then have "m div b < m" using assms by (simp add: div_less_dividend)
    then have IH: "toString b (m div b) = toString b (n div b) \<longleftrightarrow> m div b = n div b" by (rule less.IH)
    have "k mod b < b" for k using assms(1) by simp
    then have small: "k mod b < 16" for k using assms(2) less_le_trans by blast
    have "toString b m = toString b n \<longleftrightarrow> m div b = n div b \<and> m mod b = n mod b"
      using 4 assms(1) IH digit_inj [OF small small, of m n]
      by (simp add: toString.simps [of b m] toString.simps [of b n])
    then show ?thesis by (metis div_mult_mod_eq)
  qed
qed

section \<open>Codes of one unit after the other\<close>

text \<open>
  What a decoder promises that undoes a code of single units: it reads one unit and goes on.  The ids of the
  results page and the escapes of an address are such codes.
\<close>

locale unit_code =
  fixes enc :: "'a \<Rightarrow> 'b list"
    and dec :: "'b list \<Rightarrow> 'a list"
  assumes dec_nil: "dec [] = []"
    and dec_unit: "dec (enc c @ s) = c # dec s"
begin

lemma decode: "dec (concat (map enc s)) = s"
  by (induction s) (simp_all add: dec_nil dec_unit)

lemma encode_inj: "concat (map enc s) = concat (map enc t) \<longleftrightarrow> s = t"
  by (metis decode)

lemma enc_not_nil: "enc c \<noteq> []"
  using dec_unit [of c "[]"] by (auto simp: dec_nil)

end

section \<open>convertToId\<close>

text \<open>\<open>/[a-z0-9\u0080-\uFFFF]/\<close>.\<close>

definition id_char :: "16 word \<Rightarrow> bool" where
  "id_char c \<longleftrightarrow> 97 \<le> c \<and> c \<le> 122 \<or> 48 \<le> c \<and> c \<le> 57 \<or> 128 \<le> c"

definition convertUnit :: "16 word \<Rightarrow> js_string" where
  "convertUnit c =
     (if id_char c then [c]
      else if unat c < 16 then js ''_0'' @ toString 16 (unat c)
      else js ''_'' @ toString 16 (unat c))"

fun convertToId :: "js_string \<Rightarrow> js_string" where
  "convertToId [] = []"
| "convertToId (c # search) = convertUnit c @ convertToId search"


text \<open>Every unit below 128 that is not kept becomes an underscore and two hexadecimal digits.\<close>

lemma convertUnit_escape:
  assumes "\<not> id_char c"
  shows "convertUnit c = [95, digit (unat c div 16), digit (unat c mod 16)]"
proof -
  have "c < 128" using assms by (auto simp: id_char_def not_le)
  then have c: "unat c < 16 * 16" by (simp add: word_less_nat_alt)
  show ?thesis
  proof (cases "unat c < 16")
    case True
    then show ?thesis using assms by (simp add: convertUnit_def toString_digit digit_def)
  next
    case False
    then show ?thesis using assms c by (simp add: convertUnit_def toString_two)
  qed
qed

lemma convertUnit_keep: "id_char c \<Longrightarrow> convertUnit c = [c]"
  by (simp add: convertUnit_def)

lemma not_id_char_underscore: "\<not> id_char 95"
  by (simp add: id_char_def)

lemma escape_inj:
  assumes "\<not> id_char c" and "\<not> id_char d" and "digit (unat c div 16) = digit (unat d div 16)"
    and "digit (unat c mod 16) = digit (unat d mod 16)"
  shows "c = d"
proof -
  have "unat x < 16 * 16" if "\<not> id_char x" for x :: "16 word"
  proof -
    have "x < 128" using that by (auto simp: id_char_def not_le)
    then show ?thesis by (simp add: word_less_nat_alt)
  qed
  with assms(1,2) have "unat c div 16 < 16" "unat d div 16 < 16" by (metis less_mult_imp_div_less)+
  with assms(3,4) have "unat c div 16 = unat d div 16" "unat c mod 16 = unat d mod 16"
    by (simp_all add: digit_inj)
  then have "unat c = unat d" by (metis div_mult_mod_eq)
  then show ?thesis by (simp add: word_unat_eq_iff)
qed

lemma convertUnit_prefix:
  "prefix (convertUnit c @ xs) (convertUnit d @ ys) \<longleftrightarrow> c = d \<and> prefix xs ys"
  using not_id_char_underscore
  by (cases "id_char c"; cases "id_char d")
    (auto simp: convertUnit_keep convertUnit_escape intro: escape_inj)

lemma convertUnit_nonempty: "convertUnit c \<noteq> []"
  by (cases "id_char c") (simp_all add: convertUnit_keep convertUnit_escape)

lemma convertToId_prefix: "prefix (convertToId s) (convertToId t) \<longleftrightarrow> prefix s t"
proof (induction s arbitrary: t)
  case (Cons c s)
  then show ?case by (cases t) (simp_all add: convertUnit_prefix convertUnit_nonempty)
qed simp

text \<open>Decoding: what undoes the code.\<close>

definition undigit :: "16 word \<Rightarrow> nat" where
  "undigit d = (if unat d < 58 then unat d - 48 else unat d - 87)"

fun fromId :: "js_string \<Rightarrow> js_string" where
  "fromId (c # h # l # s) =
     (if c = 95 then word_of_nat (16 * undigit h + undigit l) # fromId s else c # fromId (h # l # s))"
| "fromId (c # s) = c # fromId s"
| "fromId [] = []"

lemma undigit_digit: "n < 16 \<Longrightarrow> undigit (digit n) = n"
  by (simp add: digit_def undigit_def unat_word_ariths unat_of_nat take_bit_nat_def)

lemma fromId_cons: "c \<noteq> 95 \<Longrightarrow> fromId (c # s) = c # fromId s"
  by (cases "c # s" rule: fromId.cases) simp_all

lemma fromId_unit: "fromId (convertUnit c @ s) = c # fromId s"
proof (cases "id_char c")
  case True
  then have "c \<noteq> 95" using not_id_char_underscore by auto
  with True show ?thesis by (simp add: convertUnit_keep fromId_cons)
next
  case False
  then have "c < 128" by (auto simp: id_char_def not_le)
  then have c: "unat c < 16 * 16" by (simp add: word_less_nat_alt)
  have "word_of_nat (16 * undigit (digit (unat c div 16)) + undigit (digit (unat c mod 16))) = c"
    using less_mult_imp_div_less [OF c] by (simp add: undigit_digit mult.commute)
  with False show ?thesis by (simp add: convertUnit_escape)
qed

interpretation id_code: unit_code convertUnit fromId
  by unfold_locales (simp_all add: fromId_unit)

lemma convertToId_concat: "convertToId s = concat (map convertUnit s)"
  by (induction s) simp_all

lemma fromId_convertToId: "fromId (convertToId s) = s"
  by (simp add: convertToId_concat id_code.decode)

text \<open>The id of an ASCII string is an ASCII string without capital letters.\<close>

definition lowered :: "16 word \<Rightarrow> bool" where
  "lowered c \<longleftrightarrow> ascii c \<and> ascii_lower c = c"

lemma lowered_digit: "n < 16 \<Longrightarrow> lowered (digit n)"
  using digit_range [of n]
  by (auto simp: lowered_def ascii_def ascii_lower_def digit_def word_less_nat_alt word_le_nat_alt
      unat_word_ariths unat_of_nat take_bit_nat_def split: if_splits)

lemma convertUnit_lowered: "ascii c \<Longrightarrow> list_all lowered (convertUnit c)"
proof (cases "id_char c")
  case True
  assume "ascii c"
  with True show ?thesis
    by (auto simp: convertUnit_keep lowered_def ascii_def ascii_lower_def id_char_def word_le_nat_alt word_less_nat_alt)
next
  case False
  then have "c < 128" by (auto simp: id_char_def not_le)
  then have "unat c < 16 * 16" by (simp add: word_less_nat_alt)
  then have "unat c div 16 < 16" by (rule less_mult_imp_div_less)
  with False show ?thesis
    by (simp add: convertUnit_escape lowered_digit) (simp add: lowered_def ascii_def ascii_lower_def)
qed

lemma convertToId_lowered: "list_all ascii s \<Longrightarrow> list_all lowered (convertToId s)"
  by (induction s) (simp_all add: convertUnit_lowered)

lemma lower_lowered: "lowers_ascii lower \<Longrightarrow> list_all lowered s \<Longrightarrow> lower s = s"
proof -
  assume "lowers_ascii lower" and s: "list_all lowered s"
  moreover from s have "list_all ascii s" "map ascii_lower s = s"
    by (induction s) (simp_all add: lowered_def)
  ultimately show ?thesis by (simp add: lowers_asciiD)
qed

end
