(* ===== verification/Dom.thy ===== *)
theory Dom
  imports JsString
begin

text \<open>
  The part of the browser's document the search pages use: elements in a list, in the order they are
  created, with their attributes, the display style, the inner HTML and the links to parent and
  children.  \<open>getElementById\<close> finds the first element with the id; the pages create elements in the
  order in which they end up in the document.
\<close>

section \<open>Elements\<close>

record elem =
  tag :: string              \<comment> \<open>\<open>nodeName\<close>\<close>
  attrs :: "(string \<times> js_string) list"
  display :: string          \<comment> \<open>\<open>style.display\<close>, empty until it is set\<close>
  innerHTML :: js_string
  kids :: "nat list"
  parent :: "nat option"

type_synonym dom = "elem list"

definition new_elem :: "string \<Rightarrow> elem" where
  "new_elem t = \<lparr>tag = t, attrs = [], display = '''', innerHTML = [], kids = [], parent = None\<rparr>"

definition createElement :: "string \<Rightarrow> dom \<Rightarrow> nat \<times> dom" where
  "createElement t d = (length d, d @ [new_elem t])"

definition change :: "nat \<Rightarrow> (elem \<Rightarrow> elem) \<Rightarrow> dom \<Rightarrow> dom" where
  "change i f d = d[i := f (d ! i)]"

definition setAttribute :: "nat \<Rightarrow> string \<Rightarrow> js_string \<Rightarrow> dom \<Rightarrow> dom" where
  "setAttribute i a v = change i (\<lambda>e. e\<lparr>attrs := (a, v) # attrs e\<rparr>)"

definition setHTML :: "nat \<Rightarrow> js_string \<Rightarrow> dom \<Rightarrow> dom" where
  "setHTML i h = change i (\<lambda>e. e\<lparr>innerHTML := h\<rparr>)"

definition setDisplay :: "string \<Rightarrow> nat \<Rightarrow> dom \<Rightarrow> dom" where
  "setDisplay s i = change i (\<lambda>e. e\<lparr>display := s\<rparr>)"

definition appendChild :: "nat \<Rightarrow> nat \<Rightarrow> dom \<Rightarrow> dom" where
  "appendChild p c d = change c (\<lambda>e. e\<lparr>parent := Some p\<rparr>) (change p (\<lambda>e. e\<lparr>kids := kids e @ [c]\<rparr>) d)"

definition elem_id :: "elem \<Rightarrow> js_string option" where
  "elem_id e = map_of (attrs e) ''id''"

definition className :: "elem \<Rightarrow> js_string option" where
  "className e = map_of (attrs e) ''class''"

definition getElementById :: "js_string \<Rightarrow> dom \<Rightarrow> nat option" where
  "getElementById x d = find (\<lambda>i. elem_id (d ! i) = Some x) [0..<length d]"

definition nextSibling :: "dom \<Rightarrow> nat \<Rightarrow> nat option" where
  "nextSibling d i = (case parent (d ! i) of
     None \<Rightarrow> None
   | Some p \<Rightarrow> (case dropWhile (\<lambda>k. k \<noteq> i) (kids (d ! p)) of _ # k # _ \<Rightarrow> Some k | _ \<Rightarrow> None))"

section \<open>Lookups\<close>

lemma length_change [simp]: "length (change i f d) = length d"
  by (simp add: change_def)

lemma nth_change: "k < length d \<Longrightarrow> change i f d ! k = (if k = i then f (d ! k) else d ! k)"
  by (simp add: change_def nth_list_update)

lemma change_append: "change i f (d @ es) =
    (if i < length d then change i f d @ es else d @ change (i - length d) f es)"
  by (simp add: change_def list_update_append nth_append)

lemma change_nil [simp]: "change i f [] = []"
  by (simp add: change_def)

lemma change_Cons: "change i f (e # es) = (case i of 0 \<Rightarrow> f e # es | Suc j \<Rightarrow> e # change j f es)"
  by (simp add: change_def split: nat.split)

lemma getElementById_Some:
  "getElementById x d = Some i \<Longrightarrow> i < length d \<and> elem_id (d ! i) = Some x"
  by (auto simp: getElementById_def find_Some_iff)

lemma getElementById_unique:
  assumes "i < length d" and "elem_id (d ! i) = Some x"
    and "\<And>j. j < length d \<Longrightarrow> elem_id (d ! j) = Some x \<Longrightarrow> j = i"
  shows "getElementById x d = Some i"
proof -
  obtain j where j: "getElementById x d = Some j"
    using assms(1,2) by (cases "getElementById x d") (auto simp: getElementById_def find_None_iff)
  with getElementById_Some [OF j] assms(3) show ?thesis by auto
qed

lemma getElementById_None:
  "getElementById x d = None \<longleftrightarrow> (\<forall>i < length d. elem_id (d ! i) \<noteq> Some x)"
  by (auto simp: getElementById_def find_None_iff)

text \<open>What changes no id changes no lookup.\<close>

lemma getElementById_cong:
  assumes "map elem_id d' = map elem_id d"
  shows "getElementById x d' = getElementById x d"
proof -
  have "length d' = length d" using assms map_eq_imp_length_eq by blast
  moreover from this have "elem_id (d' ! i) = elem_id (d ! i)" if "i < length d" for i
    using that assms by (metis nth_map)
  ultimately show ?thesis unfolding getElementById_def by (intro find_cong) auto
qed

lemma ids_setDisplay [simp]: "map elem_id (setDisplay s i d) = map elem_id d"
proof (cases "i < length d")
  case True
  then show ?thesis by (simp add: setDisplay_def change_def map_update) (simp add: elem_id_def list_update_same_conv)
qed (simp add: setDisplay_def change_def list_update_beyond not_less)

end
