(* ===== verification/SearchResults.thy ===== *)
theory SearchResults
  imports Dom
begin

text \<open>
  The results page of the documentation's search (createResults and the class SearchResults of
  html/search/search.js): the rows that \<open>createResults\<close> builds from the index, the filter \<open>Search\<close>
  and the keyboard navigation.
\<close>

section \<open>createResults\<close>

text \<open>An entry of the array \<open>searchData\<close>: \<open>[id, [name, [href, target, scope], ...]]\<close>.\<close>

type_synonym entry = "js_string \<times> js_string \<times> (js_string \<times> nat \<times> js_string) list"

definition decimal :: "int \<Rightarrow> js_string" where
  "decimal i = (if i < 0 then js ''-'' @ toString 10 (nat (- i)) else toString 10 (nat i))"

definition item :: "int \<Rightarrow> js_string" where
  "item i = js ''Item'' @ decimal i"

definition item_child :: "int \<Rightarrow> nat \<Rightarrow> js_string" where
  "item_child i c = item i @ js ''_c'' @ decimal (int c)"

definition setKeyActions :: "nat \<Rightarrow> js_string \<Rightarrow> dom \<Rightarrow> dom" where
  "setKeyActions elem action d =
     setAttribute elem ''onkeyup'' action (setAttribute elem ''onkeypress'' action
       (setAttribute elem ''onkeydown'' action d))"

definition setClassAttr :: "nat \<Rightarrow> string \<Rightarrow> dom \<Rightarrow> dom" where
  "setClassAttr elem attr d =
     setAttribute elem ''className'' (js attr) (setAttribute elem ''class'' (js attr) d)"

text \<open>The loop over the results of one entry, from result number \<open>c\<close> on.\<close>

fun createChildren :: "nat \<Rightarrow> nat \<Rightarrow> (js_string \<times> nat \<times> js_string) list \<Rightarrow> nat \<Rightarrow> dom \<Rightarrow> dom" where
  "createChildren e c [] srChildren d = d"
| "createChildren e c ((href, target, scope) # rs) srChildren d =
     (let (srChild, d1) = createElement ''A'' d;
          d2 = setAttribute srChild ''id'' (item_child (int e) c) d1;
          d3 = setKeyActions srChild (js ''return searchResults.NavChild(event,'' @ decimal (int e) @ js '','' @
                 decimal (int c) @ js '')'') d2;
          d4 = setClassAttr srChild ''SRScope'' d3;
          d5 = setAttribute srChild ''href'' href d4;
          d6 = (if target \<noteq> 0 then setAttribute srChild ''target'' (js ''_parent'') d5 else d5);
          d7 = setHTML srChild scope d6;
          d8 = appendChild srChildren srChild d7
      in createChildren e (Suc c) rs srChildren d8)"

definition createEntry :: "nat \<Rightarrow> entry \<Rightarrow> dom \<Rightarrow> nat \<times> dom" where
  "createEntry e = (\<lambda>(eid, name, rs) d0.
     let (srResult, d1) = createElement ''DIV'' d0;
         d2 = setAttribute srResult ''id'' (js ''SR_'' @ eid) d1;
         d3 = setClassAttr srResult ''SRResult'' d2;
         (srEntry, d4) = createElement ''DIV'' d3;
         d5 = setClassAttr srEntry ''SREntry'' d4;
         (srLink, d6) = createElement ''A'' d5;
         d7 = setAttribute srLink ''id'' (item (int e)) d6;
         d8 = setKeyActions srLink (js ''return searchResults.Nav(event,'' @ decimal (int e) @ js '')'') d7;
         d9 = setClassAttr srLink ''SRSymbol'' d8;
         d10 = setHTML srLink name d9;
         d11 = appendChild srEntry srLink d10;
         d12 = (case rs of
             [(href, target, scope)] \<Rightarrow>
               let a1 = setAttribute srLink ''href'' href d11;
                   a2 = (if target \<noteq> 0 then setAttribute srLink ''target'' (js ''_parent'') a1 else a1);
                   (srScope, a3) = createElement ''SPAN'' a2;
                   a4 = setClassAttr srScope ''SRScope'' a3;
                   a5 = setHTML srScope scope a4
               in appendChild srEntry srScope a5
           | _ \<Rightarrow>
               let a1 = setAttribute srLink ''href'' (js ''javascript:searchResults.Toggle(\"SR_'' @ eid @ js ''\")'') d11;
                   (srChildren, a2) = createElement ''DIV'' a1;
                   a3 = setClassAttr srChildren ''SRChildren'' a2;
                   a4 = createChildren e 0 rs srChildren a3
               in appendChild srEntry srChildren a4)
     in (srResult, appendChild srResult srEntry d12))"

fun createFrom :: "nat \<Rightarrow> nat option \<Rightarrow> entry list \<Rightarrow> dom \<Rightarrow> dom result" where
  "createFrom e results [] d = Inr d"
| "createFrom e results (entry # data) d =
     (case createEntry e entry d of (srResult, d1) \<Rightarrow>
      andThen (deref results) (\<lambda>r. createFrom (Suc e) results data (appendChild r srResult d1)))"

definition createResults :: "entry list \<Rightarrow> dom \<Rightarrow> dom result" where
  "createResults searchData d = createFrom 0 (getElementById (js ''SRResults'') d) searchData d"

section \<open>What it builds\<close>

definition attr_class :: "string \<Rightarrow> (string \<times> js_string) list" where
  "attr_class c = [(''className'', js c), (''class'', js c)]"

definition attr_keys :: "js_string \<Rightarrow> (string \<times> js_string) list" where
  "attr_keys a = [(''onkeyup'', a), (''onkeypress'', a), (''onkeydown'', a)]"

definition attr_target :: "nat \<Rightarrow> (string \<times> js_string) list" where
  "attr_target t = (if t \<noteq> 0 then [(''target'', js ''_parent'')] else [])"

fun child_elems :: "nat \<Rightarrow> nat \<Rightarrow> nat \<Rightarrow> (js_string \<times> nat \<times> js_string) list \<Rightarrow> elem list" where
  "child_elems s e c [] = []"
| "child_elems s e c ((href, target, scope) # rs) =
     \<lparr>tag = ''A'', attrs = attr_target target @ [(''href'', href)] @ attr_class ''SRScope'' @
        attr_keys (js ''return searchResults.NavChild(event,'' @ decimal (int e) @ js '','' @ decimal (int c) @ js '')'') @
        [(''id'', item_child (int e) c)],
      display = '''', innerHTML = scope, kids = [], parent = Some s\<rparr> # child_elems s e (Suc c) rs"

definition block :: "nat \<Rightarrow> nat \<Rightarrow> nat list" where
  "block a n = [a..<a + n]"

lemma block_Suc: "block a (Suc n) = a # block (Suc a) n"
  by (simp add: block_def upt_conv_Cons)

lemma createChildren_eq:
  "s < length d \<Longrightarrow> createChildren e c rs s d =
    change s (\<lambda>x. x\<lparr>kids := kids x @ block (length d) (length rs)\<rparr>) d @ child_elems s e c rs"
proof (induction rs arbitrary: c d)
  case Nil
  then show ?case by (simp add: change_def block_def)
next
  case (Cons r rs)
  obtain href target scope where r: "r = (href, target, scope)" by (cases r) auto
  let ?e = "hd (child_elems s e c (r # rs))"
  let ?d = "change s (\<lambda>x. x\<lparr>kids := kids x @ [length d]\<rparr>) d @ [?e]"
  have "createChildren e c (r # rs) s d = createChildren e (Suc c) rs s ?d"
    using Cons.prems by (simp add: r createElement_def setAttribute_def setKeyActions_def setClassAttr_def
        setHTML_def appendChild_def change_append change_Cons new_elem_def attr_class_def attr_keys_def attr_target_def
        Let_def)
  also have "\<dots> = change s (\<lambda>x. x\<lparr>kids := kids x @ block (length ?d) (length rs)\<rparr>) ?d @ child_elems s e (Suc c) rs"
    using Cons.prems by (intro Cons.IH) simp
  also have "\<dots> = change s (\<lambda>x. x\<lparr>kids := kids x @ block (length d) (length (r # rs))\<rparr>) d @ child_elems s e c (r # rs)"
    using Cons.prems by (simp add: r change_append block_Suc) (simp add: change_def)
  finally show ?case .
qed

text \<open>The elements of one entry: row, line, link and either the scope or the list of children.\<close>

fun entry_elems :: "nat \<Rightarrow> nat \<Rightarrow> entry \<Rightarrow> elem list" where
  "entry_elems b e (eid, name, rs) =
     [\<lparr>tag = ''DIV'', attrs = attr_class ''SRResult'' @ [(''id'', js ''SR_'' @ eid)], display = '''',
        innerHTML = [], kids = [b + 1], parent = None\<rparr>,
      \<lparr>tag = ''DIV'', attrs = attr_class ''SREntry'', display = '''', innerHTML = [], kids = [b + 2, b + 3],
        parent = Some b\<rparr>,
      \<lparr>tag = ''A'', attrs = (case rs of
          [(href, target, scope)] \<Rightarrow> attr_target target @ [(''href'', href)]
        | _ \<Rightarrow> [(''href'', js ''javascript:searchResults.Toggle(\"SR_'' @ eid @ js ''\")'')]) @
          attr_class ''SRSymbol'' @
          attr_keys (js ''return searchResults.Nav(event,'' @ decimal (int e) @ js '')'') @ [(''id'', item (int e))],
        display = '''', innerHTML = name, kids = [], parent = Some (b + 1)\<rparr>] @
     (case rs of
        [(href, target, scope)] \<Rightarrow> [\<lparr>tag = ''SPAN'', attrs = attr_class ''SRScope'', display = '''',
          innerHTML = scope, kids = [], parent = Some (b + 1)\<rparr>]
      | _ \<Rightarrow> \<lparr>tag = ''DIV'', attrs = attr_class ''SRChildren'', display = '''', innerHTML = [],
          kids = block (b + 4) (length rs), parent = Some (b + 1)\<rparr> # child_elems (b + 3) e 0 rs)"

lemma length_child_elems [simp]: "length (child_elems s e c rs) = length rs"
  by (induction s e c rs rule: child_elems.induct) simp_all

text \<open>Changes of the four elements that are created last.\<close>

lemma change_new:
  "change (length d) f (d @ e0 # es) = d @ f e0 # es"
  "change (Suc (length d)) f (d @ e0 # e1 # es) = d @ e0 # f e1 # es"
  "change (Suc (Suc (length d))) f (d @ e0 # e1 # e2 # es) = d @ e0 # e1 # f e2 # es"
  "change (Suc (Suc (Suc (length d)))) f (d @ e0 # e1 # e2 # e3 # es) = d @ e0 # e1 # e2 # f e3 # es"
  by (simp_all add: change_append change_Cons Suc_diff_le)

lemmas dom_ops = createElement_def setAttribute_def setKeyActions_def setClassAttr_def setHTML_def
  appendChild_def change_new new_elem_def attr_class_def attr_keys_def attr_target_def Let_def

lemma createChildren_new:
  "createChildren e c rs (Suc (Suc (Suc (length d)))) (d @ [e0, e1, e2, e3]) =
    d @ e0 # e1 # e2 # e3\<lparr>kids := kids e3 @ block (length d + 4) (length rs)\<rparr> # child_elems (length d + 3) e 0 rs" if "c = 0"
  using that by (subst createChildren_eq) (simp_all add: change_new numeral_eq_Suc)

lemma createEntry_eq:
  "createEntry e (eid, name, rs) d = (length d, d @ entry_elems (length d) e (eid, name, rs))"
proof -
  consider (single) href target scope where "rs = [(href, target, scope)]"
    | (many) "\<And>href target scope. rs \<noteq> [(href, target, scope)]" by (metis prod_cases3)
  then show ?thesis
  proof cases
    case single
    then show ?thesis by (simp add: createEntry_def dom_ops)
  next
    case many
    then have c: "(case rs of [(href, target, scope)] \<Rightarrow> f href target scope | _ \<Rightarrow> x) = x" for f :: "js_string \<Rightarrow> nat \<Rightarrow> js_string \<Rightarrow> 'x" and x
      by (auto split: list.splits)
    show ?thesis
      by (simp add: createEntry_def c dom_ops createChildren_new)
  qed
qed

text \<open>All entries: each row hangs below the element \<open>r\<close>.\<close>

fun bases :: "nat \<Rightarrow> entry list \<Rightarrow> nat list" where
  "bases b [] = []"
| "bases b (entry # data) = b # bases (b + length (entry_elems b 0 entry)) data"

fun rows_elems :: "nat \<Rightarrow> nat \<Rightarrow> nat \<Rightarrow> entry list \<Rightarrow> elem list" where
  "rows_elems r b e [] = []"
| "rows_elems r b e (entry # data) =
     change 0 (\<lambda>x. x\<lparr>parent := Some r\<rparr>) (entry_elems b e entry) @
     rows_elems r (b + length (entry_elems b 0 entry)) (Suc e) data"

lemma length_entry_elems: "length (entry_elems b e entry) = length (entry_elems b 0 entry)"
  by (cases entry) (simp split: list.split)

lemma createFrom_eq:
  "r < length d \<Longrightarrow> createFrom e (Some r) data d =
    Inr (change r (\<lambda>x. x\<lparr>kids := kids x @ bases (length d) data\<rparr>) d @ rows_elems r (length d) e data)"
proof (induction data arbitrary: e d)
  case Nil
  then show ?case by (simp add: change_def)
next
  case (Cons entry data)
  obtain eid name rs where en: "entry = (eid, name, rs)" by (cases entry) auto
  let ?es = "entry_elems (length d) e entry"
  let ?d = "change r (\<lambda>x. x\<lparr>kids := kids x @ [length d]\<rparr>) d @ change 0 (\<lambda>x. x\<lparr>parent := Some r\<rparr>) ?es"
  have "appendChild r (length d) (d @ ?es) = ?d"
    using Cons.prems by (simp add: appendChild_def change_append)
  then have "createFrom e (Some r) (entry # data) d = createFrom (Suc e) (Some r) data ?d"
    using createEntry_eq [of e eid name rs d] by (simp add: en)
  also have "\<dots> = Inr (change r (\<lambda>x. x\<lparr>kids := kids x @ bases (length ?d) data\<rparr>) ?d @
      rows_elems r (length ?d) (Suc e) data)"
    using Cons.prems by (intro Cons.IH) simp
  also have "change r (\<lambda>x. x\<lparr>kids := kids x @ bases (length ?d) data\<rparr>) ?d =
      change r (\<lambda>x. x\<lparr>kids := kids x @ bases (length d) (entry # data)\<rparr>) d @
      change 0 (\<lambda>x. x\<lparr>parent := Some r\<rparr>) ?es"
    using Cons.prems length_entry_elems [of "length d" e entry]
    by (simp add: change_append) (simp add: change_def)
  finally show ?case
    using length_entry_elems [of "length d" e entry] by simp
qed

section \<open>The class\<close>

datatype focus = Unfocused | OnElement nat | OnSearchField

record results_page =
  doc :: dom
  lastMatchCount :: nat
  lastKey :: nat
  repeatOn :: bool
  focused :: focus
  closings :: nat        \<comment> \<open>calls of \<open>parent.searchBox.CloseResultsWindow()\<close>\<close>

definition new_results :: "dom \<Rightarrow> results_page" where
  "new_results d = \<lparr>doc = d, lastMatchCount = 0, lastKey = 0, repeatOn = False, focused = Unfocused, closings = 0\<rparr>"

subsection \<open>Search\<close>

text \<open>\<open>replace(/^sr\d*_/, '')\<close>.\<close>

definition strip_sr :: "js_string \<Rightarrow> js_string" where
  "strip_sr s =
     (if take 2 s = js ''sr'' then
        (case dropWhile (\<lambda>c. 48 \<le> c \<and> c \<le> 57) (drop 2 s) of
           [] \<Rightarrow> s
         | c # rest \<Rightarrow> if c = 95 then rest else s)
      else s)"

definition is_row :: "elem \<Rightarrow> bool" where
  "is_row e \<longleftrightarrow> tag e = ''DIV'' \<and> className e = Some (js ''SRResult'')"

definition row_name :: "(js_string \<Rightarrow> js_string) \<Rightarrow> elem \<Rightarrow> js_string" where
  "row_name lower e = strip_sr (lower (case elem_id e of None \<Rightarrow> [] | Some x \<Rightarrow> x))"

fun search_rows :: "(js_string \<Rightarrow> js_string) \<Rightarrow> js_string \<Rightarrow> dom \<Rightarrow> dom \<times> nat" where
  "search_rows lower search [] = ([], 0)"
| "search_rows lower search (row # resultRows) =
     (case search_rows lower search resultRows of (rows, matches) \<Rightarrow>
      if is_row row then
        let rowMatchName = row_name lower row
        in if length search \<le> length rowMatchName \<and> take (length search) rowMatchName = search
           then (row\<lparr>display := ''block''\<rparr> # rows, Suc matches)
           else (row\<lparr>display := ''none''\<rparr> # rows, matches)
      else (row # rows, matches))"

text \<open>The word that is looked for: the argument, or the query of the page's address when it is empty.\<close>

definition search_word :: "(js_string \<Rightarrow> js_string) \<Rightarrow> (js_string \<Rightarrow> js_string) \<Rightarrow> js_string \<Rightarrow> js_string \<Rightarrow> js_string" where
  "search_word lower unescape location search =
     (let s0 = (if search = [] then unescape (drop 1 location) else search);
          s1 = strip_leading s0;
          s2 = strip_trailing s1;
          s3 = lower s2
      in convertToId s3)"

definition show_status :: "js_string \<Rightarrow> string \<Rightarrow> dom \<Rightarrow> dom result" where
  "show_status x s d = andThen (deref (getElementById x d)) (\<lambda>i. Inr (setDisplay s i d))"

definition Search ::
    "(js_string \<Rightarrow> js_string) \<Rightarrow> (js_string \<Rightarrow> js_string) \<Rightarrow> js_string \<Rightarrow> js_string \<Rightarrow> results_page \<Rightarrow>
     (bool \<times> results_page) result" where
  "Search lower unescape location search p =
     (case search_rows lower (search_word lower unescape location search) (doc p) of (d1, matches) \<Rightarrow>
      andThen (show_status (js ''Searching'') ''none'' d1) (\<lambda>d2.
      andThen (show_status (js ''NoMatches'') (if matches = 0 then ''block'' else ''none'') d2) (\<lambda>d3.
        Inr (True, p\<lparr>doc := d3, lastMatchCount := matches\<rparr>))))"

subsection \<open>Finding the next and the previous visible item\<close>

definition item_shown :: "dom \<Rightarrow> nat \<Rightarrow> bool result" where
  "item_shown d i =
     andThen (deref (parent (d ! i))) (\<lambda>p.
     andThen (deref (parent (d ! p))) (\<lambda>g. Inr (display (d ! g) = ''block'')))"

lemma decimal_inj: "decimal i = decimal j \<longleftrightarrow> i = j"
proof -
  have minus: "hd (toString 10 n) \<noteq> 45" for n
  proof (induction n rule: less_induct)
    case (less n)
    show ?case
    proof (cases "n < 10")
      case True
      then show ?thesis using digit_range [of n] by (auto simp: toString_digit)
    next
      case False
      then have "n div 10 < n" by simp
      from less [OF this] False show ?thesis
        by (subst toString.simps) (simp add: toString_nonempty)
    qed
  qed
  have "toString 10 n \<noteq> 45 # s" for n s using minus [of n] by auto
  then show ?thesis
    by (auto simp: decimal_def toString_inj dest: sym)
qed

lemma item_inj: "item i = item j \<longleftrightarrow> i = j"
  by (simp add: item_def decimal_inj)

text \<open>
  The loops of the page count through ids that carry a number.  What they rely on is that different numbers
  make different ids: then only finitely many of them are in a document, and fewer lie ahead after each step.
\<close>

locale numbered_ids =
  fixes name :: "'n \<Rightarrow> js_string"
  assumes name_inj: "name i = name j \<Longrightarrow> i = j"
begin

lemma finite_ids: "finite {k. getElementById (name k) d \<noteq> None}"
proof -
  have "inj_on (\<lambda>k. the (getElementById (name k) d)) {k. getElementById (name k) d \<noteq> None}"
  proof (rule inj_onI)
    fix i j assume "i \<in> {k. getElementById (name k) d \<noteq> None}" "j \<in> {k. getElementById (name k) d \<noteq> None}"
      and "the (getElementById (name i) d) = the (getElementById (name j) d)"
    then obtain k where "getElementById (name i) d = Some k" "getElementById (name j) d = Some k" by auto
    then have "Some (name i) = Some (name j)" using getElementById_Some by metis
    then show "i = j" using name_inj by simp
  qed
  moreover have "(\<lambda>k. the (getElementById (name k) d)) ` {k. getElementById (name k) d \<noteq> None} \<subseteq> {..<length d}"
    using getElementById_Some by force
  ultimately show ?thesis by (rule inj_on_finite) simp
qed

lemma fewer_ids:
  assumes "getElementById (name k) d = Some x" and "R k" and "\<not> S k" and "\<And>j. S j \<Longrightarrow> R j"
  shows "card {j. S j \<and> getElementById (name j) d \<noteq> None} < card {j. R j \<and> getElementById (name j) d \<noteq> None}"
proof (rule psubset_card_mono)
  show "finite {j. R j \<and> getElementById (name j) d \<noteq> None}"
    using finite_ids by (rule finite_subset [rotated]) auto
  have "k \<in> {j. R j \<and> getElementById (name j) d \<noteq> None}" "k \<notin> {j. S j \<and> getElementById (name j) d \<noteq> None}"
    using assms(1-3) by simp_all
  moreover have "{j. S j \<and> getElementById (name j) d \<noteq> None} \<subseteq> {j. R j \<and> getElementById (name j) d \<noteq> None}"
    using assms(4) by auto
  ultimately show "{j. S j \<and> getElementById (name j) d \<noteq> None} \<subset> {j. R j \<and> getElementById (name j) d \<noteq> None}"
    by blast
qed

end

interpretation items: numbered_ids item
  by unfold_locales (simp add: item_inj)

interpretation item_children: numbered_ids "item_child i" for i
  by unfold_locales (simp add: item_child_def decimal_inj)

function NavNext :: "dom \<Rightarrow> int \<Rightarrow> nat option result" where
  "NavNext d index = (case getElementById (item index) d of
     None \<Rightarrow> Inr None
   | Some focusItem \<Rightarrow> andThen (item_shown d focusItem) (\<lambda>b.
       if b then Inr (Some focusItem) else NavNext d (index + 1)))"
  by pat_completeness auto
termination
  by (relation "measure (\<lambda>(d, i). card {j. i \<le> j \<and> getElementById (item j) d \<noteq> None})")
    (auto simp del: not_None_eq intro: items.fewer_ids)

function NavPrev :: "dom \<Rightarrow> int \<Rightarrow> nat option result" where
  "NavPrev d index = (case getElementById (item index) d of
     None \<Rightarrow> Inr None
   | Some focusItem \<Rightarrow> andThen (item_shown d focusItem) (\<lambda>b.
       if b then Inr (Some focusItem) else NavPrev d (index - 1)))"
  by pat_completeness auto
termination
  by (relation "measure (\<lambda>(d, i). card {j. j \<le> i \<and> getElementById (item j) d \<noteq> None})")
    (auto simp del: not_None_eq intro: items.fewer_ids)

text \<open>The last child of item \<open>newIndex\<close>, from child \<open>n\<close> on.\<close>

function last_child :: "dom \<Rightarrow> int \<Rightarrow> nat \<Rightarrow> nat \<Rightarrow> nat" where
  "last_child d newIndex n focusItem = (case getElementById (item_child newIndex n) d of
     None \<Rightarrow> focusItem
   | Some tmpElem \<Rightarrow> last_child d newIndex (Suc n) tmpElem)"
  by pat_completeness auto
termination
  by (relation "measure (\<lambda>(d, i, n, f). card {j. n \<le> j \<and> getElementById (item_child i j) d \<noteq> None})")
    (auto simp del: not_None_eq intro: item_children.fewer_ids)

declare NavNext.simps [simp del] NavPrev.simps [simp del] last_child.simps [simp del]

subsection \<open>Children\<close>

text \<open>
  \<open>FindChildElement\<close> walks through the document by first child, next sibling and parent; like the
  loops of the code the walk need not end on an arbitrary graph of elements, and not ending is the
  value None.
\<close>

partial_function (option) climb :: "dom \<Rightarrow> nat \<Rightarrow> nat option \<Rightarrow> nat option option" where
  "climb d parentElement element =
     (case element of
        None \<Rightarrow> Some None
      | Some i \<Rightarrow>
          if i \<noteq> parentElement \<and> nextSibling d i = None then climb d parentElement (parent (d ! i))
          else Some (Some i))"

definition is_children :: "elem \<Rightarrow> bool" where
  "is_children e \<longleftrightarrow> tag e = ''DIV'' \<and> className e = Some (js ''SRChildren'')"

partial_function (option) walk :: "dom \<Rightarrow> nat \<Rightarrow> nat option \<Rightarrow> nat option option" where
  "walk d parentElement element =
     (case element of
        None \<Rightarrow> Some None
      | Some i \<Rightarrow>
          if i = parentElement then Some None
          else if is_children (d ! i) then Some (Some i)
          else if tag (d ! i) = ''DIV'' \<and> kids (d ! i) \<noteq> [] then walk d parentElement (Some (hd (kids (d ! i))))
          else if nextSibling d i \<noteq> None then walk d parentElement (nextSibling d i)
          else Option.bind (climb d parentElement (parent (d ! i))) (\<lambda>e.
            walk d parentElement (case e of
                None \<Rightarrow> None
              | Some j \<Rightarrow> if j \<noteq> parentElement then nextSibling d j else Some j)))"

definition FindChildElement :: "js_string \<Rightarrow> dom \<Rightarrow> nat option result option" where
  "FindChildElement x d = (case getElementById x d of
     None \<Rightarrow> Some (Inl TypeError)
   | Some p \<Rightarrow> map_option Inr
       (walk d p (case kids (d ! p) of [] \<Rightarrow> None | k # _ \<Rightarrow> Some k)))"

definition Toggle :: "js_string \<Rightarrow> results_page \<Rightarrow> results_page result option" where
  "Toggle x p = map_option (\<lambda>r. mapResult (\<lambda>element. case element of
       None \<Rightarrow> p
     | Some i \<Rightarrow> p\<lparr>doc := setDisplay (if display (doc p ! i) = ''block'' then ''none'' else ''block'') i (doc p)\<rparr>) r)
     (FindChildElement x (doc p))"

subsection \<open>Keys\<close>

datatype key_type = KeyDownType | KeyPressType | KeyUpType

record key =
  key_type :: key_type
  keyCode :: nat

definition ProcessKeys :: "key \<Rightarrow> results_page \<Rightarrow> bool \<times> results_page" where
  "ProcessKeys e p = (case key_type e of
     KeyDownType \<Rightarrow> let p1 = p\<lparr>repeatOn := False, lastKey := keyCode e\<rparr> in (lastKey p1 \<noteq> 0, p1)
   | KeyPressType \<Rightarrow>
       if \<not> repeatOn p then (False, if lastKey p \<noteq> 0 then p\<lparr>repeatOn := True\<rparr> else p)
       else (lastKey p \<noteq> 0, p)
   | KeyUpType \<Rightarrow> let p1 = p\<lparr>lastKey := 0, repeatOn := False\<rparr> in (lastKey p1 \<noteq> 0, p1))"

text \<open>The id of the row of an item: \<open>item.parentNode.parentNode.id\<close>; an element without one has the
  empty id.\<close>

definition row_id :: "dom \<Rightarrow> nat \<Rightarrow> js_string result" where
  "row_id d i =
     andThen (deref (parent (d ! i))) (\<lambda>p.
     andThen (deref (parent (d ! p))) (\<lambda>g. Inr (case elem_id (d ! g) of None \<Rightarrow> [] | Some x \<Rightarrow> x)))"

definition row_children :: "dom \<Rightarrow> nat \<Rightarrow> nat option result option" where
  "row_children d i = (case row_id d i of Inl e \<Rightarrow> Some (Inl e) | Inr x \<Rightarrow> FindChildElement x d)"

definition row_children_of :: "dom \<Rightarrow> int \<Rightarrow> nat option result option" where
  "row_children_of d itemIndex = (case getElementById (item itemIndex) d of
     None \<Rightarrow> Some (Inl TypeError)
   | Some i \<Rightarrow> row_children d i)"

subsection \<open>Navigation\<close>

text \<open>
  A handler that calls \<open>FindChildElement\<close> may, as far as its code goes, not end; \<open>thenRun\<close> goes on with
  the element that was found.
\<close>

definition thenRun :: "'x result option \<Rightarrow> ('x \<Rightarrow> 'y result option) \<Rightarrow> 'y result option" where
  "thenRun r f = (case r of None \<Rightarrow> None | Some (Inl e) \<Rightarrow> Some (Inl e) | Some (Inr x) \<Rightarrow> f x)"

lemma thenRun_simps [simp]:
  "thenRun (Some (Inr x)) f = f x" "thenRun (Some (Inl e)) f = Some (Inl e)" "thenRun None f = None"
  by (simp_all add: thenRun_def)

definition move_focus :: "focus \<Rightarrow> results_page \<Rightarrow> bool \<times> results_page" where
  "move_focus f p = (False, p\<lparr>focused := f\<rparr>)"

definition open_children :: "dom \<Rightarrow> nat option \<Rightarrow> bool" where
  "open_children d elem = (case elem of None \<Rightarrow> False | Some i \<Rightarrow> display (d ! i) = ''block'')"

definition set_children :: "string \<Rightarrow> nat option \<Rightarrow> results_page \<Rightarrow> bool \<times> results_page" where
  "set_children s elem p = (False, case elem of None \<Rightarrow> p | Some i \<Rightarrow> p\<lparr>doc := setDisplay s i (doc p)\<rparr>)"

definition escape_results :: "results_page \<Rightarrow> bool \<times> results_page" where
  "escape_results p = (False, p\<lparr>closings := Suc (closings p), focused := OnSearchField\<rparr>)"

definition Nav :: "key \<Rightarrow> int \<Rightarrow> results_page \<Rightarrow> (bool \<times> results_page) result option" where
  "Nav e itemIndex p0 =
     (if keyCode e = 13 then Some (Inr (True, p0))
      else case ProcessKeys e p0 of (go, p) \<Rightarrow>
        if \<not> go then Some (Inr (False, p))
        else if lastKey p = 38 then
          (let newIndex = itemIndex - 1
           in thenRun (Some (NavPrev (doc p) newIndex)) (\<lambda>focusItem. case focusItem of
                None \<Rightarrow> Some (Inr (move_focus OnSearchField p))
              | Some f \<Rightarrow> thenRun (row_children (doc p) f) (\<lambda>child.
                  Some (Inr (move_focus (OnElement
                    (if open_children (doc p) child then last_child (doc p) newIndex 0 f else f)) p)))))
        else if lastKey p = 40 then
          (let newIndex = itemIndex + 1
           in thenRun (row_children_of (doc p) itemIndex) (\<lambda>elem.
              thenRun (case (if open_children (doc p) elem
                             then getElementById (item_child itemIndex 0) (doc p) else None) of
                  Some f \<Rightarrow> Some (Inr (Some f))
                | None \<Rightarrow> Some (NavNext (doc p) newIndex)) (\<lambda>focusItem.
                Some (Inr (case focusItem of
                  None \<Rightarrow> (False, p)
                | Some f \<Rightarrow> move_focus (OnElement f) p)))))
        else if lastKey p = 39 then
          thenRun (row_children_of (doc p) itemIndex) (\<lambda>elem. Some (Inr (set_children ''block'' elem p)))
        else if lastKey p = 37 then
          thenRun (row_children_of (doc p) itemIndex) (\<lambda>elem. Some (Inr (set_children ''none'' elem p)))
        else if lastKey p = 27 then Some (Inr (escape_results p))
        else Some (Inr (lastKey p = 13, p)))"

definition NavChild :: "key \<Rightarrow> int \<Rightarrow> nat \<Rightarrow> results_page \<Rightarrow> (bool \<times> results_page) result" where
  "NavChild e itemIndex childIndex p0 =
     (if keyCode e = 13 then Inr (True, p0)
      else case ProcessKeys e p0 of (go, p) \<Rightarrow>
        if \<not> go then Inr (False, p)
        else if lastKey p = 38 then
          andThen (deref (getElementById
            (if 0 < childIndex then item_child itemIndex (childIndex - 1) else item itemIndex) (doc p)))
            (\<lambda>f. Inr (move_focus (OnElement f) p))
        else if lastKey p = 40 then
          andThen (case getElementById (item_child itemIndex (childIndex + 1)) (doc p) of
              Some f \<Rightarrow> Inr (Some f)
            | None \<Rightarrow> NavNext (doc p) (itemIndex + 1)) (\<lambda>elem.
            Inr (case elem of None \<Rightarrow> (False, p) | Some f \<Rightarrow> move_focus (OnElement f) p))
        else if lastKey p = 27 then Inr (escape_results p)
        else Inr (lastKey p = 13, p))"

end
