(* ===== verification/Results.thy ===== *)
theory Results
  imports SearchResults
begin

text \<open>
  What the results page does: \<open>Search\<close> shows exactly the rows whose names begin with what was typed,
  the navigation finds the nearest row that is shown, and the children of a row are found.
\<close>

section \<open>The page\<close>

text \<open>The elements of the results pages (html/search/all_0.html and its siblings).\<close>

definition results_doc :: dom where
  "results_doc =
    [\<lparr>tag = ''DIV'', attrs = [(''id'', js ''SRIndex'')], display = '''', innerHTML = [], kids = [1, 2, 3, 4], parent = None\<rparr>,
     \<lparr>tag = ''DIV'', attrs = [(''class'', js ''SRStatus''), (''id'', js ''Loading'')], display = '''', innerHTML = [],
       kids = [], parent = Some 0\<rparr>,
     \<lparr>tag = ''DIV'', attrs = [(''id'', js ''SRResults'')], display = '''', innerHTML = [], kids = [], parent = Some 0\<rparr>,
     \<lparr>tag = ''DIV'', attrs = [(''class'', js ''SRStatus''), (''id'', js ''Searching'')], display = '''', innerHTML = [],
       kids = [], parent = Some 0\<rparr>,
     \<lparr>tag = ''DIV'', attrs = [(''class'', js ''SRStatus''), (''id'', js ''NoMatches'')], display = '''', innerHTML = [],
       kids = [], parent = Some 0\<rparr>]"

definition results_dom :: "entry list \<Rightarrow> dom" where
  "results_dom data = change 2 (\<lambda>x. x\<lparr>kids := bases 5 data\<rparr>) results_doc @ rows_elems 2 5 0 data"

lemma getElementById_append:
  "getElementById x a = Some i \<Longrightarrow> getElementById x (a @ b) = Some i"
proof -
  assume "getElementById x a = Some i"
  then have i: "i < length a" "elem_id (a ! i) = Some x" "\<forall>j<i. elem_id (a ! j) \<noteq> Some x"
    by (auto simp: getElementById_def find_Some_iff)
  then show ?thesis
    unfolding getElementById_def find_Some_iff
    by (intro exI [of _ i]) (auto simp: nth_append)
qed

lemma results_doc_length [simp]: "length results_doc = 5"
  by (simp add: results_doc_def)

lemma upt_five: "[0..<5] = [0, 1, 2, 3, 4 :: nat]"
  by code_simp

lemma results_doc_ids:
  "getElementById (js ''SRResults'') results_doc = Some 2"
  "getElementById (js ''Searching'') results_doc = Some 3"
  "getElementById (js ''NoMatches'') results_doc = Some 4"
  by (simp_all add: getElementById_def upt_five) (simp_all add: results_doc_def elem_id_def)

lemma results_doc_results: "kids (results_doc ! 2) = []"
  by (simp add: results_doc_def)

lemma createResults_eq: "createResults data results_doc = Inr (results_dom data)"
proof -
  have "change 2 (\<lambda>x. x\<lparr>kids := kids x @ ks\<rparr>) results_doc = change 2 (\<lambda>x. x\<lparr>kids := ks\<rparr>) results_doc" for ks
    by (simp add: change_def results_doc_results)
  then show ?thesis
    unfolding createResults_def results_doc_ids
    by (simp add: createFrom_eq results_dom_def)
qed

section \<open>Search\<close>

lemma search_rows_eq:
  "search_rows lower s d =
    (map (\<lambda>e. if is_row e then e\<lparr>display := if prefix s (row_name lower e) then ''block'' else ''none''\<rparr> else e) d,
     length (filter (\<lambda>e. is_row e \<and> prefix s (row_name lower e)) d))"
proof (induction d)
  case (Cons e d)
  have "length s \<le> length n \<and> take (length s) n = s \<longleftrightarrow> prefix s n" for n
    by (auto simp: prefix_def) (metis append_take_drop_id)
  then show ?case by (simp add: Cons.IH Let_def)
qed simp

lemma is_row_display [simp]: "is_row (e\<lparr>display := s\<rparr>) = is_row e"
  by (simp add: is_row_def className_def)

lemma elem_id_display [simp]: "elem_id (e\<lparr>display := s\<rparr>) = elem_id e"
  by (simp add: elem_id_def)

lemma length_setDisplay [simp]: "length (setDisplay s i d) = length d"
  by (simp add: setDisplay_def)

lemma filter_setDisplay:
  "i < length d \<Longrightarrow> \<not> is_row (d ! i) \<Longrightarrow> filter is_row (setDisplay s i d) = filter is_row d"
  by (simp add: setDisplay_def change_def upd_conv_take_nth_drop)
    (metis (no_types, lifting) append_Cons append_Nil filter.simps(2) filter_append id_take_nth_drop)

lemma child_elems_rows: "filter is_row (child_elems s e c rs) = []"
  by (induction s e c rs rule: child_elems.induct) (simp_all add: is_row_def)

lemma entry_elems_rows:
  "filter is_row (change 0 (\<lambda>x. x\<lparr>parent := Some r\<rparr>) (entry_elems b e (eid, name, rs))) =
    [hd (change 0 (\<lambda>x. x\<lparr>parent := Some r\<rparr>) (entry_elems b e (eid, name, rs)))]"
proof -
  let ?f = "\<lambda>x. x\<lparr>parent := Some r\<rparr>" and ?es = "entry_elems b e (eid, name, rs)"
  have es: "?es \<noteq> []" "is_row (?f (hd ?es))"
    by (simp_all add: is_row_def className_def attr_class_def)
  have "filter is_row (tl ?es) = []"
  proof (cases "\<exists>href target scope. rs = [(href, target, scope)]")
    case True
    then show ?thesis by (auto simp: is_row_def className_def attr_class_def)
  next
    case False
    then have "tl ?es = drop 1 (take 4 ?es) @ child_elems (b + 3) e 0 rs"
      by (auto split: list.split)
    moreover have "filter is_row (drop 1 (take 4 ?es)) = []"
      by (auto simp: is_row_def className_def attr_class_def split: list.split)
    ultimately show ?thesis by (simp only: filter_append child_elems_rows append_Nil)
  qed
  with es show ?thesis by (cases ?es) (simp_all add: change_Cons del: entry_elems.simps)
qed

lemma rows_of_rows_elems:
  "map (\<lambda>e. (elem_id e, display e)) (filter is_row (rows_elems r b e data)) =
    map (\<lambda>(eid, name, rs). (Some (js ''SR_'' @ eid), '''')) data"
proof (induction data arbitrary: b e)
  case (Cons entry data)
  obtain eid name rs where en: "entry = (eid, name, rs)" by (cases entry) auto
  have "elem_id (hd (change 0 (\<lambda>x. x\<lparr>parent := Some r\<rparr>) (entry_elems b e (eid, name, rs)))) = Some (js ''SR_'' @ eid)"
    "display (hd (change 0 (\<lambda>x. x\<lparr>parent := Some r\<rparr>) (entry_elems b e (eid, name, rs)))) = ''''"
    by (simp_all add: change_Cons elem_id_def attr_class_def)
  then show ?case using Cons.IH by (simp add: en entry_elems_rows del: entry_elems.simps)
qed simp

lemma results_doc_rows: "filter is_row (change 2 (\<lambda>x. x\<lparr>kids := ks\<rparr>) results_doc) = []"
  by (simp add: results_doc_def change_def is_row_def className_def numeral_2_eq_2)

lemma rows_of_results_dom:
  "map (\<lambda>e. (elem_id e, display e)) (filter is_row (results_dom data)) =
    map (\<lambda>(eid, name, rs). (Some (js ''SR_'' @ eid), '''')) data"
  by (simp add: results_dom_def results_doc_rows rows_of_rows_elems)

text \<open>The index is written by Doxygen: the id of an entry is the code of its name in small letters.\<close>

definition index_data :: "(js_string \<times> js_string \<times> (js_string \<times> nat \<times> js_string) list) list \<Rightarrow> entry list" where
  "index_data ix = map (\<lambda>(nm, label, rs). (convertToId (map ascii_lower nm), label, rs)) ix"

lemma ascii_lower_ascii: "ascii c \<Longrightarrow> ascii (ascii_lower c)"
  by (auto simp: ascii_def ascii_lower_def word_less_nat_alt word_le_nat_alt unat_word_ariths)

lemma row_name_index:
  assumes "lowers_ascii lower" and "list_all ascii nm"
    and "elem_id e = Some (js ''SR_'' @ convertToId (map ascii_lower nm))"
  shows "row_name lower e = convertToId (map ascii_lower nm)"
proof -
  let ?i = "convertToId (map ascii_lower nm)"
  have "list_all ascii (map ascii_lower nm)"
    using assms(2) by (induction nm) (simp_all add: ascii_lower_ascii)
  then have low: "list_all lowered ?i" by (rule convertToId_lowered)
  then have "list_all ascii ?i" "map ascii_lower ?i = ?i"
    by (induction ?i) (auto simp: lowered_def list_all_iff map_idI)
  then have "lower (js ''SR_'' @ ?i) = js ''sr_'' @ ?i"
    using assms(1) by (simp add: lowers_asciiD ascii_def) (simp add: ascii_lower_def)
  then show ?thesis
    by (simp add: row_name_def assms(3) strip_sr_def)
qed

section \<open>Ids\<close>

declare js_simps [simp del] add_2_eq_Suc [simp del] add_2_eq_Suc' [simp del]

text \<open>Where the elements of entry \<open>j\<close> are, and the ids they have.\<close>

abbreviation hung :: "nat \<Rightarrow> elem list \<Rightarrow> elem list" where
  "hung r es \<equiv> change 0 (\<lambda>x. x\<lparr>parent := Some r\<rparr>) es"

definition entry_length :: "entry \<Rightarrow> nat" where
  "entry_length = (\<lambda>(eid, name, rs). 4 + (if length rs = 1 then 0 else length rs))"

lemma length_entry: "length (entry_elems b e entry) = entry_length entry"
  by (cases entry) (auto simp: entry_length_def split: list.split)

lemma length_bases [simp]: "length (bases b data) = length data"
  by (induction data arbitrary: b) simp_all

lemma bases_ge: "j < length data \<Longrightarrow> b \<le> bases b data ! j"
proof (induction data arbitrary: b j)
  case (Cons entry data)
  show ?case
  proof (cases j)
    case (Suc i)
    with Cons.prems Cons.IH [of i "b + length (entry_elems b 0 entry)"] show ?thesis by simp
  qed simp
qed simp

lemma rows_elems_nth:
  assumes "j < length data" and "k < entry_length (data ! j)"
  shows "bases b data ! j - b + k < length (rows_elems r b e data) \<and>
    rows_elems r b e data ! (bases b data ! j - b + k) =
      hung r (entry_elems (bases b data ! j) (e + j) (data ! j)) ! k"
  using assms
proof (induction data arbitrary: b e j)
  case (Cons entry data)
  let ?n = "length (entry_elems b 0 entry)"
  have n: "length (entry_elems b e entry) = ?n" by (rule length_entry_elems)
  show ?case
  proof (cases j)
    case 0
    with Cons.prems n show ?thesis by (simp add: nth_append length_entry)
  next
    case (Suc i)
    have "bases (b + ?n) data ! i \<ge> b + ?n" using Cons.prems Suc by (intro bases_ge) simp
    then have "bases (b + ?n) data ! i - b + k = ?n + (bases (b + ?n) data ! i - (b + ?n) + k)" by simp
    with Cons.IH [of i "b + ?n" "Suc e"] Cons.prems Suc n show ?thesis by (simp add: nth_append)
  qed
qed simp

lemma rows_elems_cover:
  assumes "i < length (rows_elems r b e data)"
  shows "\<exists>j k. j < length data \<and> k < entry_length (data ! j) \<and> i = bases b data ! j - b + k"
  using assms
proof (induction data arbitrary: b e i)
  case (Cons entry data)
  let ?n = "length (entry_elems b 0 entry)"
  have n: "length (entry_elems b e entry) = ?n" by (rule length_entry_elems)
  show ?case
  proof (cases "i < ?n")
    case True
    then show ?thesis by (intro exI [of _ 0] exI [of _ i]) (simp add: length_entry)
  next
    case False
    with Cons.prems n have "i - ?n < length (rows_elems r (b + ?n) (Suc e) data)" by simp
    from Cons.IH [OF this] obtain j k where jk: "j < length data" "k < entry_length (data ! j)"
      "i - ?n = bases (b + ?n) data ! j - (b + ?n) + k" by auto
    moreover have "bases (b + ?n) data ! j \<ge> b + ?n" using jk(1) by (rule bases_ge)
    ultimately show ?thesis using False by (intro exI [of _ "Suc j"] exI [of _ k]) auto
  qed
qed simp

lemma child_elems_id: "k < length rs \<Longrightarrow> elem_id (child_elems s e c rs ! k) = Some (item_child (int e) (c + k))"
proof (induction s e c rs arbitrary: k rule: child_elems.induct)
  case (2 s e c href target scope rs)
  then show ?case by (cases k) (auto simp: elem_id_def attr_class_def attr_keys_def attr_target_def)
qed simp

definition entry_id :: "nat \<Rightarrow> js_string \<Rightarrow> nat \<Rightarrow> js_string option" where
  "entry_id e eid k = (if k = 0 then Some (js ''SR_'' @ eid) else if k = 2 then Some (item (int e))
     else if 4 \<le> k then Some (item_child (int e) (k - 4)) else None)"

lemma attr_id_link: "map_of (attr_class c @ attr_keys a @ [(''id'', x)]) ''id'' = Some x"
  "map_of (attr_class c) ''id'' = None" "map_of (attr_target t @ [(''href'', h)]) ''id'' = None"
  by (simp_all add: attr_class_def attr_keys_def attr_target_def)

lemma single_or_not: "(\<exists>href target scope. rs = [(href, target, scope)]) \<longleftrightarrow> length rs = 1"
  by (cases rs) (auto simp: neq_Nil_conv)

lemma entry_elems_id:
  assumes "k < entry_length (eid, name, rs)"
  shows "elem_id (hung r (entry_elems b e (eid, name, rs)) ! k) = entry_id e eid k"
proof -
  consider "k = 0" | "k = 1" | "k = 2" | "k = 3" | m where "k = m + 4" "length rs \<noteq> 1" "m < length rs"
  proof (cases "k < 4")
    case True
    then have "k = 0 \<or> k = 1 \<or> k = 2 \<or> k = 3" by linarith
    with that(1-4) show thesis by blast
  next
    case False
    with assms show thesis by (intro that(5) [of "k - 4"]) (auto simp: entry_length_def split: if_splits)
  qed
  then show ?thesis
  proof cases
    case 1 then show ?thesis by (simp add: change_Cons entry_id_def elem_id_def attr_id_link map_add_def)
  next
    case 2 then show ?thesis by (simp add: change_Cons entry_id_def elem_id_def attr_id_link)
  next
    case 3 then show ?thesis
      by (simp add: change_Cons entry_id_def elem_id_def attr_id_link map_add_def attr_class_def attr_target_def attr_keys_def split: list.split)
  next
    case 4 then show ?thesis
      by (simp add: change_Cons entry_id_def elem_id_def attr_id_link numeral_3_eq_3 split: list.split)
  next
    case (5 m)
    then have "hung r (entry_elems b e (eid, name, rs)) ! k = child_elems (b + 3) e 0 rs ! m"
      by (auto simp: change_Cons nth_append split: list.split)
    with 5 show ?thesis by (simp add: entry_id_def child_elems_id)
  qed
qed

text \<open>Ids of items and of their children are all different.\<close>

lemma digit_no_underscore: "k < 10 \<Longrightarrow> digit k \<noteq> 95"
  by (auto simp: digit_def word_unat_eq_iff unat_word_ariths unat_of_nat take_bit_nat_def)

lemma digits_no_underscore: "95 \<notin> set (toString 10 n)"
proof (induction n rule: less_induct)
  case (less n)
  show ?case
  proof (cases "n < 10")
    case True
    with digit_no_underscore [of n] show ?thesis by (simp add: toString_digit)
  next
    case False
    then have "95 \<notin> set (toString 10 (n div 10))" by (intro less.IH) simp
    moreover have "toString 10 n = toString 10 (n div 10) @ [digit (n mod 10)]"
      using False by (subst toString.simps) simp
    ultimately show ?thesis using digit_no_underscore [of "n mod 10"] by simp
  qed
qed

lemma decimal_no_underscore: "c \<in> set (decimal i) \<Longrightarrow> c \<noteq> 95"
  using digits_no_underscore by (auto simp: decimal_def js_simps split: if_splits)

lemma cut_underscore: "takeWhile (\<lambda>c. c \<noteq> 95) (decimal i @ 95 # xs) = decimal i"
  using decimal_no_underscore by (subst takeWhile_append2) auto

lemma item_child_inj: "item_child i c = item_child j k \<longleftrightarrow> i = j \<and> c = k"
proof
  assume eq: "item_child i c = item_child j k"
  then have "decimal i @ 95 # 99 # decimal (int c) = decimal j @ 95 # 99 # decimal (int k)"
    by (simp add: item_child_def item_def js_simps)
  moreover from this have "decimal i = decimal j" using cut_underscore by metis
  ultimately show "i = j \<and> c = k" by (simp add: decimal_inj)
qed simp

lemma item_not_child: "item i \<noteq> item_child j k"
proof
  assume "item i = item_child j k"
  then have "decimal i = decimal j @ 95 # 99 # decimal (int k)" by (simp add: item_child_def item_def js_simps)
  then have "95 \<in> set (decimal i)" by simp
  then show False using decimal_no_underscore by blast
qed

lemma row_not_item: "js ''SR_'' @ eid \<noteq> item i" "js ''SR_'' @ eid \<noteq> item_child i c"
  by (simp_all add: item_def item_child_def js_simps)

lemmas ids_differ = item_child_inj item_not_child item_not_child [symmetric] row_not_item
  row_not_item [symmetric] item_inj

section \<open>The page under its displays\<close>

text \<open>Everything the page's script does after \<open>createResults\<close> changes displays only.\<close>

definition bare :: "dom \<Rightarrow> dom" where
  "bare d = map (\<lambda>e. e\<lparr>display := ''''\<rparr>) d"

definition on_page :: "entry list \<Rightarrow> dom \<Rightarrow> bool" where
  "on_page data d \<longleftrightarrow> bare d = bare (results_dom data)"

definition row_at :: "entry list \<Rightarrow> nat \<Rightarrow> nat" where
  "row_at data j = bases 5 data ! j"

lemma bare_nth: "i < length d \<Longrightarrow> bare d ! i = (d ! i)\<lparr>display := ''''\<rparr>"
  by (simp add: bare_def)

lemma length_bare [simp]: "length (bare d) = length d"
  by (simp add: bare_def)

lemma bare_setDisplay [simp]: "bare (setDisplay s i d) = bare d"
proof (cases "i < length d")
  case True
  then show ?thesis by (simp add: bare_def setDisplay_def change_def map_update) (simp add: list_update_same_conv)
qed (simp add: bare_def setDisplay_def change_def list_update_beyond not_less)

lemma on_page_setDisplay [simp]: "on_page data (setDisplay s i d) = on_page data d"
  by (simp add: on_page_def)

lemma on_page_results: "on_page data (results_dom data)"
  by (simp add: on_page_def)

lemma bare_elem:
  assumes "bare d = bare d'" and "i < length d'"
  shows "elem_id (d ! i) = elem_id (d' ! i)" "parent (d ! i) = parent (d' ! i)" "kids (d ! i) = kids (d' ! i)"
    "tag (d ! i) = tag (d' ! i)" "attrs (d ! i) = attrs (d' ! i)"
proof -
  have "length d = length d'" using assms(1) length_bare by metis
  with assms have "(d ! i)\<lparr>display := ''''\<rparr> = (d' ! i)\<lparr>display := ''''\<rparr>" by (metis bare_nth)
  moreover have "elem_id e = elem_id (e\<lparr>display := ''''\<rparr>)" "parent e = parent (e\<lparr>display := ''''\<rparr>)"
    "kids e = kids (e\<lparr>display := ''''\<rparr>)" "tag e = tag (e\<lparr>display := ''''\<rparr>)" "attrs e = attrs (e\<lparr>display := ''''\<rparr>)" for e
    by simp_all
  ultimately show "elem_id (d ! i) = elem_id (d' ! i)" "parent (d ! i) = parent (d' ! i)"
    "kids (d ! i) = kids (d' ! i)" "tag (d ! i) = tag (d' ! i)" "attrs (d ! i) = attrs (d' ! i)" by metis+
qed

lemma bare_ids: "bare d = bare d' \<Longrightarrow> getElementById x d = getElementById x d'"
  by (rule getElementById_cong) (metis bare_elem(1) length_bare nth_equalityI length_map nth_map)

lemma results_dom_nth:
  assumes "j < length data" and "k < entry_length (data ! j)"
  shows "row_at data j + k < length (results_dom data)"
    "results_dom data ! (row_at data j + k) = hung 2 (entry_elems (row_at data j) j (data ! j)) ! k"
proof -
  have ge: "5 \<le> row_at data j" using bases_ge [OF assms(1)] by (simp add: row_at_def)
  have r: "bases 5 data ! j - 5 + k < length (rows_elems 2 5 0 data)"
    "rows_elems 2 5 0 data ! (bases 5 data ! j - 5 + k) = hung 2 (entry_elems (bases 5 data ! j) j (data ! j)) ! k"
    using rows_elems_nth [OF assms, of 5 2 0] by simp_all
  moreover have "bases 5 data ! j - 5 + k = row_at data j + k - 5" using ge by (simp add: row_at_def)
  ultimately show "row_at data j + k < length (results_dom data)"
    "results_dom data ! (row_at data j + k) = hung 2 (entry_elems (row_at data j) j (data ! j)) ! k"
    using ge by (simp_all add: results_dom_def nth_append row_at_def)
qed

lemma results_dom_head:
  assumes "i < 5"
  shows "elem_id (results_dom data ! i) = [Some (js ''SRIndex''), Some (js ''Loading''), Some (js ''SRResults''),
    Some (js ''Searching''), Some (js ''NoMatches'')] ! i"
proof -
  have "elem_id (results_dom data ! i) = elem_id (results_doc ! i)"
    using assms by (simp add: results_dom_def nth_append nth_change) (simp add: elem_id_def)
  moreover have "map elem_id results_doc = [Some (js ''SRIndex''), Some (js ''Loading''), Some (js ''SRResults''),
      Some (js ''Searching''), Some (js ''NoMatches'')]"
    by (simp add: results_doc_def elem_id_def)
  ultimately show ?thesis using assms by (metis nth_map results_doc_length)
qed

lemma results_dom_cover:
  assumes "i < length (results_dom data)"
  shows "i < 5 \<or> (\<exists>j k. j < length data \<and> k < entry_length (data ! j) \<and> i = row_at data j + k)"
proof (cases "i < 5")
  case False
  with assms have "i - 5 < length (rows_elems 2 5 0 data)" by (simp add: results_dom_def)
  from rows_elems_cover [OF this] obtain j k where jk: "j < length data" "k < entry_length (data ! j)"
    "i - 5 = bases 5 data ! j - 5 + k" by auto
  moreover have "5 \<le> bases 5 data ! j" using jk(1) by (rule bases_ge)
  ultimately show ?thesis using False by (intro disjI2 exI [of _ j] exI [of _ k]) (auto simp: row_at_def)
qed simp

text \<open>A lookup by id goes to the element of the entry that has it.\<close>

lemma results_dom_id:
  assumes "j < length data" and "k < entry_length (data ! j)"
  shows "elem_id (results_dom data ! (row_at data j + k)) = entry_id j (fst (data ! j)) k"
proof -
  obtain eid name rs where en: "data ! j = (eid, name, rs)" by (cases "data ! j") auto
  with assms show ?thesis by (simp add: results_dom_nth entry_elems_id del: entry_elems.simps)
qed

lemma page_lookup:
  assumes "on_page data d" and "j < length data" and "k < entry_length (data ! j)"
    and "entry_id j (fst (data ! j)) k = Some x"
    and "\<And>i m. i < length data \<Longrightarrow> entry_id i (fst (data ! i)) m = Some x \<Longrightarrow> i = j \<and> m = k"
    and "x \<notin> {js ''SRIndex'', js ''Loading'', js ''SRResults'', js ''Searching'', js ''NoMatches''}"
  shows "getElementById x d = Some (row_at data j + k)"
proof -
  have "getElementById x (results_dom data) = Some (row_at data j + k)"
  proof (rule getElementById_unique)
    fix i assume i: "i < length (results_dom data)" "elem_id (results_dom data ! i) = Some x"
    from results_dom_cover [OF i(1)] show "i = row_at data j + k"
    proof
      assume "i < 5"
      then have "i \<in> {0, 1, 2, 3, 4}" by auto
      with results_dom_head [OF \<open>i < 5\<close>] i(2) assms(6) show ?thesis by (auto simp del: js_simps)
    next
      assume "\<exists>j k. j < length data \<and> k < entry_length (data ! j) \<and> i = row_at data j + k"
      with i(2) assms(5) show ?thesis by (auto simp: results_dom_id)
    qed
  qed (use assms(2-4) in \<open>simp_all add: results_dom_nth(1) results_dom_id\<close>)
  with assms(1) show ?thesis using bare_ids by (metis on_page_def)
qed

lemma page_no_lookup:
  assumes "on_page data d" and "\<And>j k. j < length data \<Longrightarrow> k < entry_length (data ! j) \<Longrightarrow> entry_id j (fst (data ! j)) k \<noteq> Some x"
    and "x \<notin> {js ''SRIndex'', js ''Loading'', js ''SRResults'', js ''Searching'', js ''NoMatches''}"
  shows "getElementById x d = None"
proof -
  have "elem_id (results_dom data ! i) \<noteq> Some x" if i: "i < length (results_dom data)" for i
    using results_dom_cover [OF i]
  proof
    assume "i < 5"
    then have "i \<in> {0, 1, 2, 3, 4}" by auto
    with results_dom_head [OF \<open>i < 5\<close>] assms(3) show ?thesis by (auto simp del: js_simps)
  qed (use assms(2) in \<open>auto simp: results_dom_id\<close>)
  then have "getElementById x (results_dom data) = None" by (simp add: getElementById_None)
  with assms(1) show ?thesis using bare_ids by (metis on_page_def)
qed
end
