(* ===== verification/ResultsKeys.thy ===== *)
theory ResultsKeys
  imports Results
begin

text \<open>
  Lookups on a results page, whatever is shown of it: items, their children and rows by id, the nearest
  shown item before and after a row, and the walk of \<open>FindChildElement\<close>.
\<close>


section \<open>Lookups on the page\<close>

lemma entry_length_ge: "4 \<le> entry_length entry"
  by (cases entry) (simp add: entry_length_def)

lemma item_at: "on_page data d \<Longrightarrow> j < length data \<Longrightarrow> getElementById (item (int j)) d = Some (row_at data j + 2)"
  using entry_length_ge [of "data ! j"]
  by (intro page_lookup)
    (auto simp: entry_id_def ids_differ split: if_splits, simp_all add: item_def js_simps)

lemma item_none: "on_page data d \<Longrightarrow> (\<And>j. j < length data \<Longrightarrow> n \<noteq> int j) \<Longrightarrow> getElementById (item n) d = None"
  by (rule page_no_lookup) (auto simp: entry_id_def ids_differ split: if_splits, simp_all add: item_def js_simps)

lemma row_lookup:
  assumes "on_page data d" and "j < length data" and "distinct (map fst data)"
  shows "getElementById (js ''SR_'' @ fst (data ! j)) d = Some (row_at data j)"
proof -
  have "getElementById (js ''SR_'' @ fst (data ! j)) d = Some (row_at data j + 0)"
  proof (rule page_lookup [OF assms(1,2)])
    fix i m assume "i < length data" "entry_id i (fst (data ! i)) m = Some (js ''SR_'' @ fst (data ! j))"
    then have "m = 0" "fst (data ! i) = fst (data ! j)" by (auto simp: entry_id_def ids_differ split: if_splits)
    with \<open>i < length data\<close> assms(2,3) show "i = j \<and> m = 0"
      using nth_eq_iff_index_eq [OF assms(3), of i j] by simp
  next
    show "0 < entry_length (data ! j)" using entry_length_ge [of "data ! j"] by simp
  qed (simp_all add: entry_id_def js_simps)
  then show ?thesis by simp
qed

lemma entry_children: "length rs \<noteq> 1 \<Longrightarrow> c < length rs \<Longrightarrow> c + 4 < entry_length (eid, name, rs)"
  by (simp add: entry_length_def)

lemma child_at:
  assumes "on_page data d" and "j < length data" and "c + 4 < entry_length (data ! j)"
  shows "getElementById (item_child (int j) c) d = Some (row_at data j + (c + 4))"
  using assms by (intro page_lookup)
    (auto simp: entry_id_def ids_differ split: if_splits, simp_all add: item_child_def item_def js_simps)

lemma child_none:
  assumes "on_page data d" and "\<And>j. j < length data \<Longrightarrow> n = int j \<Longrightarrow> entry_length (data ! j) \<le> c + 4"
  shows "getElementById (item_child n c) d = None"
proof (rule page_no_lookup [OF assms(1)])
  fix j k assume "j < length data" "k < entry_length (data ! j)"
  with assms(2) [of j] show "entry_id j (fst (data ! j)) k \<noteq> Some (item_child n c)"
    by (auto simp: entry_id_def ids_differ split: if_splits)
qed (simp add: item_child_def item_def js_simps)

text \<open>The frame of an entry.\<close>

lemma page_nth:
  assumes "on_page data d" and "j < length data" and "k < entry_length (data ! j)"
  shows "row_at data j + k < length d"
    "parent (d ! (row_at data j + k)) = parent (hung 2 (entry_elems (row_at data j) j (data ! j)) ! k)"
    "kids (d ! (row_at data j + k)) = kids (hung 2 (entry_elems (row_at data j) j (data ! j)) ! k)"
    "tag (d ! (row_at data j + k)) = tag (hung 2 (entry_elems (row_at data j) j (data ! j)) ! k)"
    "attrs (d ! (row_at data j + k)) = attrs (hung 2 (entry_elems (row_at data j) j (data ! j)) ! k)"
    "elem_id (d ! (row_at data j + k)) = entry_id j (fst (data ! j)) k"
  using assms bare_elem [of d "results_dom data" "row_at data j + k"] results_dom_nth [OF assms(2,3)]
    results_dom_id [OF assms(2,3)]
  by (auto simp: on_page_def) (metis length_bare)

lemma hung_fields:
  "parent (hung r (entry_elems b e en) ! 0) = Some r" "parent (hung r (entry_elems b e en) ! 1) = Some b"
  "parent (hung r (entry_elems b e en) ! 2) = Some (Suc b)" "parent (hung r (entry_elems b e en) ! 3) = Some (Suc b)"
  "kids (hung r (entry_elems b e en) ! 0) = [Suc b]" "kids (hung r (entry_elems b e en) ! 1) = [b + 2, b + 3]"
  "kids (hung r (entry_elems b e en) ! 2) = []" "tag (hung r (entry_elems b e en) ! 0) = ''DIV''"
  "tag (hung r (entry_elems b e en) ! 1) = ''DIV''" "tag (hung r (entry_elems b e en) ! 2) = ''A''"
  "attrs (hung r (entry_elems b e en) ! 0) = attr_class ''SRResult'' @ [(''id'', js ''SR_'' @ fst en)]"
  "attrs (hung r (entry_elems b e en) ! 1) = attr_class ''SREntry''"
  by (cases en; simp add: change_Cons numeral_3_eq_3 split: list.split)+

lemma entry_frame:
  assumes "on_page data d" and "j < length data"
  shows "parent (d ! row_at data j) = Some 2" "parent (d ! Suc (row_at data j)) = Some (row_at data j)"
    "parent (d ! (row_at data j + 2)) = Some (Suc (row_at data j))"
    "parent (d ! (row_at data j + 3)) = Some (Suc (row_at data j))"
    "kids (d ! row_at data j) = [Suc (row_at data j)]"
    "kids (d ! Suc (row_at data j)) = [row_at data j + 2, row_at data j + 3]"
    "kids (d ! (row_at data j + 2)) = []"
    "tag (d ! row_at data j) = ''DIV''" "tag (d ! Suc (row_at data j)) = ''DIV''" "tag (d ! (row_at data j + 2)) = ''A''"
    "className (d ! (row_at data j)) = Some (js ''SRResult'')"
    "className (d ! Suc (row_at data j)) = Some (js ''SREntry'')"
    "elem_id (d ! row_at data j) = Some (js ''SR_'' @ fst (data ! j))"
proof -
  have l: "4 \<le> entry_length (data ! j)" by (rule entry_length_ge)
  have n0: "0 < entry_length (data ! j)" "1 < entry_length (data ! j)" "2 < entry_length (data ! j)"
    "3 < entry_length (data ! j)" using l by simp_all
  note n = page_nth [OF assms n0(1)] page_nth [OF assms n0(2)] page_nth [OF assms n0(3)] page_nth [OF assms n0(4)]
  show "parent (d ! row_at data j) = Some 2" "kids (d ! row_at data j) = [Suc (row_at data j)]"
    "tag (d ! row_at data j) = ''DIV''" "className (d ! (row_at data j)) = Some (js ''SRResult'')"
    "elem_id (d ! row_at data j) = Some (js ''SR_'' @ fst (data ! j))"
    using n(2-6) unfolding className_def hung_fields
    by (simp_all add: attr_class_def entry_id_def)
  show "parent (d ! Suc (row_at data j)) = Some (row_at data j)"
    "kids (d ! Suc (row_at data j)) = [row_at data j + 2, row_at data j + 3]"
    "tag (d ! Suc (row_at data j)) = ''DIV''" "className (d ! Suc (row_at data j)) = Some (js ''SREntry'')"
    using n(8-11) unfolding className_def hung_fields by (simp_all add: attr_class_def)
  show "parent (d ! (row_at data j + 2)) = Some (Suc (row_at data j))" "kids (d ! (row_at data j + 2)) = []"
    "tag (d ! (row_at data j + 2)) = ''A''"
    using n(14-16) unfolding hung_fields by simp_all
  show "parent (d ! (row_at data j + 3)) = Some (Suc (row_at data j))"
    using n(20) unfolding hung_fields by simp
qed

lemma item_shown_at:
  "on_page data d \<Longrightarrow> j < length data \<Longrightarrow>
    item_shown d (row_at data j + 2) = Inr (display (d ! row_at data j) = ''block'')"
  by (simp add: item_shown_def entry_frame)

section \<open>The nearest item\<close>

definition next_shown :: "entry list \<Rightarrow> dom \<Rightarrow> nat \<Rightarrow> nat option" where
  "next_shown data d i = find (\<lambda>j. display (d ! row_at data j) = ''block'') [i..<length data]"

definition prev_shown :: "entry list \<Rightarrow> dom \<Rightarrow> nat \<Rightarrow> nat option" where
  "prev_shown data d i = find (\<lambda>j. display (d ! row_at data j) = ''block'') (rev [0..<i])"

lemma NavNext_shown:
  assumes "on_page data d"
  shows "NavNext d (int i) = Inr (map_option (\<lambda>j. row_at data j + 2) (next_shown data d i))"
proof (induction "length data - i" arbitrary: i)
  case 0
  then have "getElementById (item (int i)) d = None" by (intro item_none [OF assms]) auto
  with 0 show ?case by (simp add: NavNext.simps [of d "int i"] next_shown_def)
next
  case (Suc n)
  then have i: "i < length data" by simp
  have "NavNext d (int (Suc i)) = Inr (map_option (\<lambda>j. row_at data j + 2) (next_shown data d (Suc i)))"
    using Suc by (intro Suc.hyps(1)) simp
  moreover have "int (Suc i) = int i + 1" by simp
  ultimately have "NavNext d (int i + 1) = Inr (map_option (\<lambda>j. row_at data j + 2) (next_shown data d (Suc i)))"
    by metis
  then show ?case
    using i assms by (simp add: NavNext.simps [of d "int i"] item_at item_shown_at next_shown_def upt_conv_Cons)
qed

lemma NavPrev_shown:
  assumes "on_page data d" and "i \<le> length data"
  shows "NavPrev d (int i - 1) = Inr (map_option (\<lambda>j. row_at data j + 2) (prev_shown data d i))"
  using assms(2)
proof (induction i)
  case 0
  have "getElementById (item (- 1)) d = None" by (intro item_none [OF assms(1)]) auto
  then show ?case by (simp add: NavPrev.simps [of d "-1"] prev_shown_def)
next
  case (Suc i)
  then have "NavPrev d (int i - 1) = Inr (map_option (\<lambda>j. row_at data j + 2) (prev_shown data d i))" by simp
  then show ?case
    using Suc.prems assms(1) by (simp add: NavPrev.simps [of d "int i"] item_at item_shown_at prev_shown_def)
qed

section \<open>Children of an entry\<close>

definition several :: "entry list \<Rightarrow> nat \<Rightarrow> bool" where
  "several data j \<longleftrightarrow> length (snd (snd (data ! j))) \<noteq> 1"

lemma fourth:
  assumes "on_page data d" and "j < length data"
  shows "className (d ! (row_at data j + 3)) = Some (js (if several data j then ''SRChildren'' else ''SRScope''))"
    "tag (d ! (row_at data j + 3)) = (if several data j then ''DIV'' else ''SPAN'')"
proof -
  obtain eid name rs where en: "data ! j = (eid, name, rs)" by (cases "data ! j") auto
  have l: "3 < entry_length (data ! j)" using entry_length_ge [of "data ! j"] by simp
  have "attrs (hung 2 (entry_elems (row_at data j) j (data ! j)) ! 3) = attr_class (if several data j then ''SRChildren'' else ''SRScope'')"
    "tag (hung 2 (entry_elems (row_at data j) j (data ! j)) ! 3) = (if several data j then ''DIV'' else ''SPAN'')"
    by (auto simp: en several_def change_Cons numeral_3_eq_3 split: list.split)
  with page_nth(4,5) [OF assms l] show
    "className (d ! (row_at data j + 3)) = Some (js (if several data j then ''SRChildren'' else ''SRScope''))"
    "tag (d ! (row_at data j + 3)) = (if several data j then ''DIV'' else ''SPAN'')"
    by (simp_all add: className_def attr_class_def)
qed

lemma class_names: "js ''SREntry'' \<noteq> js ''SRChildren''" "js ''SRResult'' \<noteq> js ''SRChildren''"
  "js ''SRScope'' \<noteq> js ''SRChildren''"
  by (simp_all add: js_simps)

lemma FindChild_page:
  assumes "on_page data d" and "j < length data" and "distinct (map fst data)"
  shows "FindChildElement (js ''SR_'' @ fst (data ! j)) d =
    Some (Inr (if several data j then Some (row_at data j + 3) else None))"
proof -
  let ?r = "row_at data j"
  note f = entry_frame [OF assms(1,2)] fourth [OF assms(1,2)]
  have sib: "nextSibling d (Suc ?r) = None" "nextSibling d (?r + 2) = Some (?r + 3)" "nextSibling d (?r + 3) = None"
    using f by (simp_all add: nextSibling_def)
  have "walk d ?r (Some (Suc ?r)) = walk d ?r (Some (?r + 2))"
    using f class_names by (subst walk.simps) (simp add: is_children_def)
  also have "\<dots> = walk d ?r (Some (?r + 3))"
    using f sib by (subst walk.simps) (simp add: is_children_def)
  also have "\<dots> = Some (if several data j then Some (?r + 3) else None)"
  proof (cases "several data j")
    case True
    then show ?thesis using f by (subst walk.simps) (simp add: is_children_def)
  next
    case False
    have "climb d ?r (Some (Suc ?r)) = climb d ?r (Some ?r)"
      using f sib by (subst climb.simps) simp
    also have "\<dots> = Some (Some ?r)" by (subst climb.simps) simp
    finally have "climb d ?r (Some (Suc ?r)) = Some (Some ?r)" .
    moreover have "walk d ?r (Some ?r) = Some None" by (subst walk.simps) simp
    ultimately show ?thesis using False f sib
      by (subst walk.simps) (simp add: is_children_def)
  qed
  finally show ?thesis
    using row_lookup [OF assms] f by (simp add: FindChildElement_def)
qed

end
