(* ===== verification/ResultsWalk.thy ===== *)
theory ResultsWalk
  imports ResultsKeys
begin

text \<open>
  The arrow keys on a results page: what \<open>Nav\<close> and \<open>NavChild\<close> do for Up and Down, as a walk along the
  list of the places that can have the focus.
\<close>

text \<open>Whether the children of an entry are open, and how many it has.\<close>

definition opened :: "entry list \<Rightarrow> dom \<Rightarrow> nat \<Rightarrow> bool" where
  "opened data d j \<longleftrightarrow> several data j \<and> display (d ! (row_at data j + 3)) = ''block''"

definition child_count :: "entry list \<Rightarrow> nat \<Rightarrow> nat" where
  "child_count data j = (if several data j then length (snd (snd (data ! j))) else 0)"

lemma child_count_length: "entry_length (data ! j) = 4 + child_count data j"
  by (cases "data ! j") (simp add: entry_length_def child_count_def several_def)

lemma child_lookup:
  assumes "on_page data d" and "j < length data"
  shows "getElementById (item_child (int j) c) d =
    (if c < child_count data j then Some (row_at data j + (c + 4)) else None)"
proof (cases "c < child_count data j")
  case True
  with child_at [OF assms, of c] show ?thesis by (simp add: child_count_length)
next
  case False
  have "getElementById (item_child (int j) c) d = None"
    by (rule child_none [OF assms(1)]) (use False in \<open>simp add: child_count_length\<close>)
  with False show ?thesis by simp
qed

lemma last_child_page:
  assumes "on_page data d" and "j < length data"
  shows "last_child d (int j) c f = (if c < child_count data j then row_at data j + (3 + child_count data j) else f)"
proof (induction "child_count data j - c" arbitrary: c f)
  case 0
  then show ?case using assms by (simp add: last_child.simps [of d "int j" c f] child_lookup)
next
  case (Suc n)
  then have "last_child d (int j) (Suc c) (row_at data j + (c + 4)) =
      (if Suc c < child_count data j then row_at data j + (3 + child_count data j) else row_at data j + (c + 4))"
    by (intro Suc.hyps(1)) simp
  moreover have "c + 4 = 3 + child_count data j" if "\<not> Suc c < child_count data j"
    using that Suc.hyps(2) by simp
  ultimately show ?case
    using assms Suc.hyps(2) by (simp add: last_child.simps [of d "int j" c f] child_lookup)
qed

lemma row_children_page:
  assumes "on_page data d" and "j < length data" and "distinct (map fst data)"
  shows "row_children d (row_at data j + 2) = Some (Inr (if several data j then Some (row_at data j + 3) else None))"
    "row_children_of d (int j) = Some (Inr (if several data j then Some (row_at data j + 3) else None))"
    "open_children d (if several data j then Some (row_at data j + 3) else None) = opened data d j"
  using assms FindChild_page [OF assms]
  by (simp_all add: row_children_def row_children_of_def row_id_def entry_frame item_at open_children_def opened_def)

section \<open>The keys\<close>

definition down :: key where
  "down = \<lparr>key_type = KeyDownType, keyCode = 40\<rparr>"

definition up :: key where
  "up = \<lparr>key_type = KeyDownType, keyCode = 38\<rparr>"

definition pressed :: "nat \<Rightarrow> focus \<Rightarrow> results_page \<Rightarrow> results_page" where
  "pressed k f p = p\<lparr>repeatOn := False, lastKey := k, focused := f\<rparr>"

lemma focused_same: "p\<lparr>repeatOn := False, lastKey := k\<rparr> = pressed k (focused p) p"
  by (simp add: pressed_def)

lemma Nav_down:
  assumes "on_page data (doc p)" and "j < length data" and "distinct (map fst data)"
  shows "Nav down (int j) p = Some (Inr (False, pressed 40
    (if opened data (doc p) j \<and> 0 < child_count data j then OnElement (row_at data j + 4)
     else case next_shown data (doc p) (Suc j) of None \<Rightarrow> focused p | Some i \<Rightarrow> OnElement (row_at data i + 2)) p))"
proof -
  have n: "int j + 1 = int (Suc j)" by simp
  note r = row_children_page [OF assms] child_lookup [OF assms(1,2), of 0] NavNext_shown [OF assms(1), of "Suc j", folded n]
  show ?thesis
    using r by (simp add: Nav_def down_def ProcessKeys_def Let_def move_focus_def pressed_def split: option.split)
qed

lemma Nav_up:
  assumes "on_page data (doc p)" and "j < length data" and "distinct (map fst data)"
  shows "Nav up (int j) p = Some (Inr (False, pressed 38
    (case prev_shown data (doc p) j of
       None \<Rightarrow> OnSearchField
     | Some i \<Rightarrow> OnElement (if opened data (doc p) i \<and> 0 < child_count data (j - 1)
         then row_at data (j - 1) + (3 + child_count data (j - 1)) else row_at data i + 2)) p))"
proof (cases "prev_shown data (doc p) j")
  case None
  then show ?thesis
    using NavPrev_shown [OF assms(1), of j] assms(2)
    by (simp add: Nav_def up_def ProcessKeys_def Let_def move_focus_def pressed_def)
next
  case (Some i)
  then have i: "i < j" by (auto simp: prev_shown_def find_Some_iff rev_nth)
  then have n: "int j - 1 = int (j - 1)" by simp
  have i': "i < length data" using i assms(2) by simp
  have "j - 1 < length data" using assms(2) by simp
  note r = row_children_page [OF assms(1) i' assms(3)] last_child_page [OF assms(1) this, of 0, folded n]
    NavPrev_shown [OF assms(1), of j]
  have key: "keyCode up = 38" "ProcessKeys up p = (True, p\<lparr>repeatOn := False, lastKey := 38\<rparr>)"
    by (simp_all add: up_def ProcessKeys_def Let_def)
  show ?thesis
    using r(4,5) Some assms(2) unfolding Nav_def key
    by (simp add: r(1,3) Let_def move_focus_def pressed_def)
qed

lemma NavChild_down:
  assumes "on_page data (doc p)" and "j < length data"
  shows "NavChild down (int j) c p = Inr (False, pressed 40
    (if Suc c < child_count data j then OnElement (row_at data j + (Suc c + 4))
     else case next_shown data (doc p) (Suc j) of None \<Rightarrow> focused p | Some i \<Rightarrow> OnElement (row_at data i + 2)) p)"
proof -
  have n: "int j + 1 = int (Suc j)" by simp
  note r = child_lookup [OF assms(1,2), of "Suc c"] NavNext_shown [OF assms(1), of "Suc j", folded n]
  show ?thesis
    using r by (simp add: NavChild_def down_def ProcessKeys_def Let_def move_focus_def pressed_def split: option.split)
qed

lemma NavChild_up:
  assumes "on_page data (doc p)" and "j < length data" and "c < child_count data j"
  shows "NavChild up (int j) c p = Inr (False, pressed 38
    (OnElement (if c = 0 then row_at data j + 2 else row_at data j + (c + 3))) p)"
  using child_lookup [OF assms(1,2), of "c - 1"] item_at [OF assms(1,2)] assms(3)
  by (cases c) (simp_all add: NavChild_def up_def ProcessKeys_def Let_def move_focus_def pressed_def)

section \<open>Walking with the arrow keys\<close>

text \<open>
  What can have the focus: the link of an entry, or one of its open children.  \<open>stops\<close> lists them in
  the order in which they stand on the page.
\<close>

datatype stop = Link nat | Child nat nat

fun stop_elem :: "entry list \<Rightarrow> stop \<Rightarrow> nat" where
  "stop_elem data (Link j) = row_at data j + 2"
| "stop_elem data (Child j c) = row_at data j + (c + 4)"

definition visible :: "entry list \<Rightarrow> dom \<Rightarrow> nat \<Rightarrow> bool" where
  "visible data d j \<longleftrightarrow> display (d ! row_at data j) = ''block''"

definition entry_stops :: "entry list \<Rightarrow> dom \<Rightarrow> nat \<Rightarrow> stop list" where
  "entry_stops data d j = (if visible data d j
     then Link j # (if opened data d j then map (Child j) [0..<child_count data j] else []) else [])"

definition stops_from :: "entry list \<Rightarrow> dom \<Rightarrow> nat \<Rightarrow> stop list" where
  "stops_from data d i = concat (map (entry_stops data d) [i..<length data])"

definition stops :: "entry list \<Rightarrow> dom \<Rightarrow> stop list" where
  "stops data d = stops_from data d 0"

definition arrow :: "key \<Rightarrow> stop \<Rightarrow> results_page \<Rightarrow> (bool \<times> results_page) result option" where
  "arrow e s p = (case s of Link j \<Rightarrow> Nav e (int j) p | Child j c \<Rightarrow> Some (NavChild e (int j) c p))"

lemma next_shown_Cons: "i < length data \<Longrightarrow>
    next_shown data d i = (if visible data d i then Some i else next_shown data d (Suc i))"
  by (simp add: next_shown_def visible_def upt_conv_Cons)

lemma stops_from_next: "stops_from data d i =
    (case next_shown data d i of None \<Rightarrow> [] | Some j \<Rightarrow> entry_stops data d j @ stops_from data d (Suc j))"
proof (induction "length data - i" arbitrary: i)
  case 0
  then show ?case by (simp add: stops_from_def next_shown_def)
next
  case (Suc n)
  then have i: "i < length data" by simp
  then have "stops_from data d i = entry_stops data d i @ stops_from data d (Suc i)"
    by (simp add: stops_from_def upt_conv_Cons)
  moreover have "stops_from data d (Suc i) = (case next_shown data d (Suc i) of None \<Rightarrow> []
      | Some j \<Rightarrow> entry_stops data d j @ stops_from data d (Suc j))"
    using Suc by (intro Suc.hyps(1)) simp
  ultimately show ?case using i by (simp add: next_shown_Cons entry_stops_def)
qed

lemma stops_from_hd: "stops_from data d i = s # ys \<Longrightarrow> next_shown data d i \<noteq> None \<and> s = Link (the (next_shown data d i))"
proof -
  assume s: "stops_from data d i = s # ys"
  then obtain j where j: "next_shown data d i = Some j" by (auto simp: stops_from_next split: option.splits)
  then have "visible data d j" by (auto simp: next_shown_def find_Some_iff visible_def)
  with s j show ?thesis by (simp add: stops_from_next entry_stops_def split: if_splits)
qed

definition stop_entry :: "stop \<Rightarrow> nat" where
  "stop_entry s = (case s of Link j \<Rightarrow> j | Child j c \<Rightarrow> j)"

lemma entry_stops_entry: "s \<in> set (entry_stops data d j) \<Longrightarrow> stop_entry s = j"
  by (auto simp: entry_stops_def stop_entry_def split: if_splits)

lemma distinct_entry_stops: "distinct (entry_stops data d j)"
  by (auto simp: entry_stops_def distinct_map inj_on_def)

lemma distinct_stops_upt: "distinct (concat (map (entry_stops data d) [i..<k]))"
proof (induction k)
  case (Suc k)
  show ?case
  proof (cases "i \<le> k")
    case True
    then show ?thesis using Suc distinct_entry_stops by (auto dest!: entry_stops_entry)
  qed simp
qed simp

text \<open>What precedes and what follows an entry among the stops.\<close>

lemma stops_split:
  assumes "j < length data"
  shows "stops data d = concat (map (entry_stops data d) [0..<j]) @ entry_stops data d j @ stops_from data d (Suc j)"
proof -
  have "[0..<length data] = [0..<j] @ j # [Suc j..<length data]"
    using assms upt_add_eq_append [of 0 j "length data - j"] by (simp add: upt_conv_Cons)
  then show ?thesis by (simp add: stops_def stops_from_def)
qed

lemma stop_inside: "s \<in> set (stops data d) \<Longrightarrow>
    \<exists>j < length data. visible data d j \<and> s \<in> set (entry_stops data d j)"
  by (auto simp: stops_def stops_from_def entry_stops_def split: if_splits)

lemma distinct_cut: "distinct (xs @ s # ys) \<Longrightarrow> xs @ s # ys = xs' @ s # ys' \<Longrightarrow> xs = xs' \<and> ys = ys'"
  by (metis append_Cons_eq_iff distinct_append not_distinct_conv_prefix distinct.simps(2))

lemma focus_after: "(case stops_from data d i of [] \<Rightarrow> f | t # _ \<Rightarrow> OnElement (stop_elem data t)) =
    (case next_shown data d i of None \<Rightarrow> f | Some j \<Rightarrow> OnElement (row_at data j + 2))"
proof (cases "next_shown data d i")
  case None
  then show ?thesis by (simp add: stops_from_next)
next
  case (Some j)
  then have "visible data d j" by (auto simp: next_shown_def find_Some_iff visible_def)
  with Some show ?thesis by (simp add: stops_from_next [of data d i] entry_stops_def)
qed

lemma stop_cases:
  assumes "stops data d = xs @ s # ys"
  obtains (link) j where "j < length data" "visible data d j" "s = Link j"
      "xs = concat (map (entry_stops data d) [0..<j])"
      "ys = (if opened data d j then map (Child j) [0..<child_count data j] else []) @ stops_from data d (Suc j)"
    | (child) j c where "j < length data" "visible data d j" "opened data d j" "s = Child j c" "c < child_count data j"
      "xs = concat (map (entry_stops data d) [0..<j]) @ Link j # map (Child j) [0..<c]"
      "ys = map (Child j) [Suc c..<child_count data j] @ stops_from data d (Suc j)"
proof -
  have "s \<in> set (stops data d)" using assms by simp
  then obtain j where j: "j < length data" "visible data d j" "s \<in> set (entry_stops data d j)"
    using stop_inside by blast
  have dist: "distinct (xs @ s # ys)"
    using distinct_stops_upt [of data d 0 "length data"] assms by (simp add: stops_def stops_from_def)
  let ?A = "concat (map (entry_stops data d) [0..<j])"
  have eq: "xs @ s # ys = ?A @ entry_stops data d j @ stops_from data d (Suc j)"
    using stops_split [OF j(1)] assms by simp
  show thesis
  proof (cases s)
    case (Link i)
    with j(3) have "i = j" by (auto simp: entry_stops_def split: if_splits)
    with Link eq j(2) have "xs @ s # ys = ?A @ s #
        ((if opened data d j then map (Child j) [0..<child_count data j] else []) @ stops_from data d (Suc j))"
      by (simp add: entry_stops_def)
    from distinct_cut [OF dist this] Link \<open>i = j\<close> j show thesis by (intro link) auto
  next
    case (Child i c)
    with j(2,3) have ic: "i = j" "opened data d j" "c < child_count data j"
      by (auto simp: entry_stops_def split: if_splits)
    have "[0..<child_count data j] = [0..<c] @ c # [Suc c..<child_count data j]"
      using ic(3) upt_add_eq_append [of 0 c "child_count data j - c"] by (simp add: upt_conv_Cons)
    with Child eq j(2) ic(1,2) have "xs @ s # ys = (?A @ Link j # map (Child j) [0..<c]) @ s #
        (map (Child j) [Suc c..<child_count data j] @ stops_from data d (Suc j))"
      by (simp add: entry_stops_def)
    from distinct_cut [OF dist this] Child ic j show thesis by (intro child) auto
  qed
qed

text \<open>C9: The Down key takes the focus through the visible links and open children of the page in their
  order, and stays on the last one.\<close>
theorem down_walks:
  assumes "on_page data (doc p)" and "distinct (map fst data)" and "stops data (doc p) = xs @ s # ys"
  shows "arrow down s p = Some (Inr (False, pressed 40
    (case ys of [] \<Rightarrow> focused p | t # _ \<Rightarrow> OnElement (stop_elem data t)) p))"
  using assms(3)
proof (cases rule: stop_cases)
  case (link j)
  note n = Nav_down [OF assms(1) link(1) assms(2)]
  show ?thesis
  proof (cases "opened data (doc p) j \<and> 0 < child_count data j")
    case True
    then show ?thesis using n link(3,5) by (simp add: arrow_def upt_conv_Cons)
  next
    case False
    then have "ys = stops_from data (doc p) (Suc j)" using link(5) by auto
    with False n link(3) show ?thesis by (auto simp: arrow_def focus_after)
  qed
next
  case (child j c)
  note n = NavChild_down [OF assms(1) child(1), of c]
  show ?thesis
  proof (cases "Suc c < child_count data j")
    case True
    then show ?thesis using n child(4,7) by (simp add: arrow_def upt_conv_Cons)
  next
    case False
    then have "ys = stops_from data (doc p) (Suc j)" using child(7) by simp
    with False n child(4) show ?thesis by (simp add: arrow_def focus_after)
  qed
qed

lemma prev_shown_Suc: "prev_shown data d (Suc j) = (if visible data d j then Some j else prev_shown data d j)"
  by (simp add: prev_shown_def visible_def)

lemma hidden_stops: "\<not> visible data d j \<Longrightarrow> entry_stops data d j = []"
  by (simp add: entry_stops_def)

lemma stops_before: "concat (map (entry_stops data d) [0..<j]) =
    (case prev_shown data d j of None \<Rightarrow> [] | Some i \<Rightarrow> concat (map (entry_stops data d) [0..<i]) @ entry_stops data d i)"
proof (induction j)
  case (Suc j)
  then show ?case by (cases "visible data d j") (simp_all add: prev_shown_Suc hidden_stops)
qed (simp add: prev_shown_def)

lemma prev_shown_between: "prev_shown data d j = Some i \<Longrightarrow> i < j \<and> visible data d i \<and> (\<forall>k. i < k \<and> k < j \<longrightarrow> \<not> visible data d k)"
proof (induction j)
  case (Suc j)
  then show ?case by (cases "visible data d j") (auto simp: prev_shown_Suc less_Suc_eq)
qed (simp add: prev_shown_def)

text \<open>C29: When every row with open children is followed by a row that is shown, the Up key goes back through the
  same places, and from the first one to the search field.\<close>
theorem up_walks_back:
  assumes "on_page data (doc p)" and "distinct (map fst data)" and "stops data (doc p) = xs @ s # ys"
    and "\<forall>i. visible data (doc p) i \<and> opened data (doc p) i \<and> Suc i < length data \<longrightarrow> visible data (doc p) (Suc i)"
  shows "arrow up s p = Some (Inr (False, pressed 38
    (if xs = [] then OnSearchField else OnElement (stop_elem data (last xs))) p))"
  using assms(3)
proof (cases rule: stop_cases)
  case (link j)
  note n = Nav_up [OF assms(1) link(1) assms(2)]
  show ?thesis
  proof (cases "prev_shown data (doc p) j")
    case None
    then have "xs = []" using link(4) stops_before [of data "doc p" j] by simp
    with None n link(3) show ?thesis by (simp add: arrow_def)
  next
    case (Some i)
    then have xs: "xs = concat (map (entry_stops data (doc p)) [0..<i]) @ entry_stops data (doc p) i"
      using link(4) stops_before [of data "doc p" j] by simp
    note b = prev_shown_between [OF Some]
    have "j - 1 = i" if "opened data (doc p) i"
    proof (rule ccontr)
      assume "j - 1 \<noteq> i"
      with b have "Suc i < j" by auto
      moreover from this link(1) b that assms(4) have "visible data (doc p) (Suc i)" by auto
      ultimately show False using b by auto
    qed
    with n Some link(3) xs b show ?thesis
      by (auto simp: arrow_def entry_stops_def last_map)
  qed
next
  case (child j c)
  note n = NavChild_up [OF assms(1) child(1,5)]
  show ?thesis
    using n child(4,6) by (cases c) (simp_all add: arrow_def add.commute)
qed

text \<open>C36: Otherwise the focus can get lost: from a link whose shown predecessor is open but not next to it, Up
  goes to the last child of the hidden row in between.\<close>
theorem up_gets_lost:
  assumes "on_page data (doc p)" and "j < length data" and "distinct (map fst data)"
    and "prev_shown data (doc p) j = Some i" and "opened data (doc p) i" and "i < j - 1" and "several data (j - 1)"
    and "snd (snd (data ! (j - 1))) \<noteq> []"
  shows "arrow up (Link j) p = Some (Inr (False, pressed 38
      (OnElement (stop_elem data (Child (j - 1) (child_count data (j - 1) - 1)))) p)) \<and>
    \<not> visible data (doc p) (j - 1)"
proof -
  have "0 < child_count data (j - 1)" using assms(7,8) by (simp add: child_count_def)
  moreover from this have "stop_elem data (Child (j - 1) (child_count data (j - 1) - 1)) =
      row_at data (j - 1) + (3 + child_count data (j - 1))" by simp
  ultimately show ?thesis
    using Nav_up [OF assms(1-3)] assms(4-6) prev_shown_between [OF assms(4)] by (simp add: arrow_def)
qed

section \<open>A page with a hidden row\<close>

definition three_entries :: "entry list" where
  "three_entries = [(js ''a'', js ''a'', [(js ''1'', 1, js ''x''), (js ''2'', 1, js ''y'')]),
    (js ''b'', js ''b'', [(js ''3'', 1, js ''x''), (js ''4'', 1, js ''y'')]), (js ''c'', js ''c'', [(js ''5'', 1, js ''z'')])]"

text \<open>The rows and, for the first entry, the children shown as the arguments say.\<close>

definition three_page :: "string \<Rightarrow> results_page" where
  "three_page s = new_results (setDisplay ''block'' 8 (setDisplay ''block'' 17 (setDisplay s 11
    (setDisplay ''block'' 5 (results_dom three_entries)))))"

lemma three_on_page: "on_page three_entries (doc (three_page s))"
  by (simp add: three_page_def new_results_def on_page_results)

lemma three_rows: "length three_entries = 3" "row_at three_entries 0 = 5" "row_at three_entries (Suc 0) = 11"
  "row_at three_entries 2 = 17" "distinct (map fst three_entries)"
  by (simp_all add: three_entries_def row_at_def js_simps)

lemma three_length: "length (results_dom three_entries) = 21"
  by (simp add: results_dom_def three_entries_def)

lemma three_displays: "display (doc (three_page s) ! 5) = ''block''" "display (doc (three_page s) ! 8) = ''block''"
  "display (doc (three_page s) ! 11) = s" "display (doc (three_page s) ! 17) = ''block''"
  by (simp_all add: three_page_def new_results_def setDisplay_def nth_change three_length)

lemma three_several: "several three_entries 0" "several three_entries (Suc 0)" "\<not> several three_entries 2"
  "child_count three_entries 0 = 2" "child_count three_entries (Suc 0) = 2" "child_count three_entries 2 = 0"
  by (simp_all add: several_def child_count_def three_entries_def)

lemma three_visible: "visible three_entries (doc (three_page s)) 0" "opened three_entries (doc (three_page s)) 0"
  "visible three_entries (doc (three_page s)) (Suc 0) = (s = ''block'')" "visible three_entries (doc (three_page s)) 2"
  "\<not> opened three_entries (doc (three_page s)) (Suc 0)" "\<not> opened three_entries (doc (three_page s)) 2"
proof -
  have "display (doc (three_page s) ! 14) = ''''"
    by (simp add: three_page_def new_results_def setDisplay_def nth_change three_length)
      (simp add: results_dom_def three_entries_def nth_append change_Cons)
  then show "visible three_entries (doc (three_page s)) 0" "opened three_entries (doc (three_page s)) 0"
    "visible three_entries (doc (three_page s)) (Suc 0) = (s = ''block'')" "visible three_entries (doc (three_page s)) 2"
    "\<not> opened three_entries (doc (three_page s)) (Suc 0)" "\<not> opened three_entries (doc (three_page s)) 2"
    by (simp_all add: visible_def opened_def three_rows three_displays three_several)
qed

lemma three_stops: "stops three_entries (doc (three_page ''block'')) =
    [Link 0, Child 0 0] @ Child 0 1 # [Link 1, Link 2]"
proof -
  have u: "[0..<3] = [0, 1, 2 :: nat]" "[0..<2] = [0, 1 :: nat]" by (simp_all add: numeral_3_eq_3 numeral_2_eq_2)
  show ?thesis
    by (simp add: stops_def stops_from_def three_rows u entry_stops_def three_visible three_several)
qed

theorem down_walks_witness:
  "arrow down (Child 0 1) (three_page ''block'') =
    Some (Inr (False, pressed 40 (OnElement (stop_elem three_entries (Link 1))) (three_page ''block'')))"
  using down_walks [OF three_on_page three_rows(5) three_stops] by simp

theorem up_walks_back_witness:
  "arrow up (Child 0 1) (three_page ''block'') =
    Some (Inr (False, pressed 38 (OnElement (stop_elem three_entries (Child 0 0))) (three_page ''block'')))"
proof -
  have "visible three_entries (doc (three_page ''block'')) (Suc i)" if "Suc i < length three_entries" for i
    using that three_visible [of "''block''"] by (cases i) (auto simp: three_rows less_Suc_eq numeral_3_eq_3 numeral_2_eq_2)
  then show ?thesis using up_walks_back [OF three_on_page three_rows(5) three_stops] by simp
qed

theorem up_gets_lost_witness:
  "arrow up (Link 2) (three_page ''none'') =
      Some (Inr (False, pressed 38 (OnElement (stop_elem three_entries (Child 1 1))) (three_page ''none''))) \<and>
    \<not> visible three_entries (doc (three_page ''none'')) 1"
proof -
  have "prev_shown three_entries (doc (three_page ''none'')) 2 = Some 0"
    using three_visible [of "''none''"] by (simp add: prev_shown_Suc numeral_2_eq_2)
  moreover have "snd (snd (three_entries ! Suc 0)) \<noteq> []" by (simp add: three_entries_def)
  ultimately show ?thesis
    using up_gets_lost [OF three_on_page [of "''none''"], of 2 0] three_visible [of "''none''"]
    by (simp add: three_rows three_several)
qed

end
