(* ===== verification/ResultsPage.thy ===== *)
theory ResultsPage
  imports ResultsWalk
begin

text \<open>
  The document \<open>createResults\<close> builds is well formed, and \<open>Toggle\<close> opens and closes the children of a row.
\<close>


section \<open>The document that is built\<close>

text \<open>Ids name one element each, and what an element has as a child has it as its parent.\<close>

definition unique_ids :: "dom \<Rightarrow> bool" where
  "unique_ids d \<longleftrightarrow> (\<forall>i < length d. \<forall>j < length d. elem_id (d ! i) \<noteq> None \<and> elem_id (d ! i) = elem_id (d ! j) \<longrightarrow> i = j)"

definition linked :: "dom \<Rightarrow> bool" where
  "linked d \<longleftrightarrow> (\<forall>i < length d. \<forall>k \<in> set (kids (d ! i)). k < length d \<and> parent (d ! k) = Some i)"

lemma entry_id_inj:
  assumes "distinct (map fst data)" and "i < length data" and "j < length data"
    and "entry_id i (fst (data ! i)) m = Some x" and "entry_id j (fst (data ! j)) k = Some x"
  shows "i = j \<and> m = k"
  using assms nth_eq_iff_index_eq [OF assms(1), of i j]
  by (auto simp: entry_id_def ids_differ split: if_splits)

lemma entry_id_head: "entry_id j eid k \<notin> Some ` {js ''SRIndex'', js ''Loading'', js ''SRResults'', js ''Searching'', js ''NoMatches''}"
  by (auto simp: entry_id_def item_def item_child_def js_simps)

lemma head_ids: "i < 5 \<Longrightarrow> elem_id (results_dom data ! i) \<in>
    Some ` {js ''SRIndex'', js ''Loading'', js ''SRResults'', js ''Searching'', js ''NoMatches''}"
proof -
  assume i: "i < 5"
  then have "i \<in> {0, 1, 2, 3, 4}" by auto
  with results_dom_head [OF i] show ?thesis by auto
qed

lemma head_ids_inj: "i < 5 \<Longrightarrow> j < 5 \<Longrightarrow> elem_id (results_dom data ! i) = elem_id (results_dom data ! j) \<Longrightarrow> i = j"
proof -
  assume i: "i < 5" and j: "j < 5" and eq: "elem_id (results_dom data ! i) = elem_id (results_dom data ! j)"
  have "distinct [Some (js ''SRIndex''), Some (js ''Loading''), Some (js ''SRResults''), Some (js ''Searching''), Some (js ''NoMatches'')]"
    by (simp add: js_simps)
  from nth_eq_iff_index_eq [OF this, of i j] eq i j results_dom_head [OF i] results_dom_head [OF j]
  show ?thesis by simp
qed

lemma results_unique_ids:
  assumes "distinct (map fst data)"
  shows "unique_ids (results_dom data)"
  unfolding unique_ids_def
proof (intro allI impI, elim conjE)
  fix i j assume ij: "i < length (results_dom data)" "j < length (results_dom data)"
    and ne: "elem_id (results_dom data ! i) \<noteq> None" and eq: "elem_id (results_dom data ! i) = elem_id (results_dom data ! j)"
  from results_dom_cover [OF ij(1)] results_dom_cover [OF ij(2)]
  consider (heads) "i < 5" "j < 5"
    | (left) a m where "i < 5" "a < length data" "m < entry_length (data ! a)" "j = row_at data a + m"
    | (right) a m where "j < 5" "a < length data" "m < entry_length (data ! a)" "i = row_at data a + m"
    | (rows) a m b n where "a < length data" "m < entry_length (data ! a)" "i = row_at data a + m"
        "b < length data" "n < entry_length (data ! b)" "j = row_at data b + n" by metis
  then show "i = j"
  proof cases
    case heads
    then show ?thesis using head_ids_inj eq by blast
  next
    case left
    then show ?thesis using head_ids [OF left(1), of data] eq entry_id_head by (simp add: results_dom_id)
  next
    case right
    then show ?thesis using head_ids [OF right(1), of data] eq entry_id_head
      by (metis results_dom_id)
  next
    case rows
    with eq ne obtain x where "entry_id a (fst (data ! a)) m = Some x" "entry_id b (fst (data ! b)) n = Some x"
      by (auto simp: results_dom_id)
    from entry_id_inj [OF assms rows(1,4) this] rows show ?thesis by simp
  qed
qed

lemma fourth_kids: "kids (hung r (entry_elems b e (eid, name, rs)) ! 3) =
    (if length rs = 1 then [] else block (b + 4) (length rs))"
  by (auto simp: change_Cons numeral_3_eq_3 split: list.split)

lemma child_elems_links: "k < length rs \<Longrightarrow> parent (child_elems s e c rs ! k) = Some s \<and> kids (child_elems s e c rs ! k) = []"
proof (induction s e c rs arbitrary: k rule: child_elems.induct)
  case (2 s e c href target scope rs)
  then show ?case by (cases k) auto
qed simp

lemma children_links:
  assumes "k + 4 < entry_length (eid, name, rs)"
  shows "parent (hung r (entry_elems b e (eid, name, rs)) ! (k + 4)) = Some (b + 3)"
    "kids (hung r (entry_elems b e (eid, name, rs)) ! (k + 4)) = []"
proof -
  have k: "length rs \<noteq> 1" "k < length rs" using assms by (auto simp: entry_length_def split: if_splits)
  then have "hung r (entry_elems b e (eid, name, rs)) ! (k + 4) = child_elems (b + 3) e 0 rs ! k"
    by (auto simp: change_Cons nth_append split: list.split)
  with child_elems_links [OF k(2), of "b + 3" e 0] show
    "parent (hung r (entry_elems b e (eid, name, rs)) ! (k + 4)) = Some (b + 3)"
    "kids (hung r (entry_elems b e (eid, name, rs)) ! (k + 4)) = []" by simp_all
qed

lemma entry_linked:
  assumes "j < length data" and "k < entry_length (data ! j)"
    and "x \<in> set (kids (results_dom data ! (row_at data j + k)))"
  shows "x < length (results_dom data) \<and> parent (results_dom data ! x) = Some (row_at data j + k)"
proof -
  let ?r = "row_at data j" and ?d = "results_dom data"
  note f = entry_frame [OF on_page_results assms(1)]
  have l: "?r + m < length ?d" if "m < entry_length (data ! j)" for m
    using results_dom_nth [OF assms(1) that] by simp
  have four: "4 \<le> entry_length (data ! j)" by (rule entry_length_ge)
  obtain eid name rs where en: "data ! j = (eid, name, rs)" by (cases "data ! j") auto
  consider "k = 0" | "k = 1" | "k = 2" | "k = 3" | m where "k = m + 4"
  proof (cases "k < 4")
    case True
    then have "k = 0 \<or> k = 1 \<or> k = 2 \<or> k = 3" by linarith
    with that(1-4) show thesis by blast
  next
    case False
    then show thesis by (intro that(5) [of "k - 4"]) simp
  qed
  then show ?thesis
  proof cases
    case 1
    then show ?thesis using f assms(3) l [of 1] four by auto
  next
    case 2
    then show ?thesis using f assms(3) l [of 2] l [of 3] four by auto
  next
    case 3
    then show ?thesis using f assms(3) by auto
  next
    case 4
    then have "kids (?d ! (?r + k)) = (if length rs = 1 then [] else block (?r + 4) (length rs))"
      using results_dom_nth(2) [OF assms(1,2)] fourth_kids by (simp add: en)
    with assms(3) have "length rs \<noteq> 1" "x - (?r + 4) < length rs" "x = ?r + (x - (?r + 4) + 4)"
      by (auto simp: block_def split: if_splits)
    moreover from this have m: "x - (?r + 4) + 4 < entry_length (data ! j)" by (simp add: en entry_length_def)
    ultimately show ?thesis
      using results_dom_nth [OF assms(1) m] children_links [OF m [unfolded en]] 4 by (simp add: en)
  next
    case (5 m)
    with assms results_dom_nth(2) [OF assms(1,2)] children_links(2) [of m eid name rs 2 ?r j] show ?thesis
      by (simp add: en)
  qed
qed

lemma head_linked:
  assumes "i < 5" and "x \<in> set (kids (results_dom data ! i))"
  shows "x < length (results_dom data) \<and> parent (results_dom data ! x) = Some i"
proof -
  have h: "kids (results_dom data ! i) = (if i = 2 then bases 5 data else kids (results_doc ! i))"
    "parent (results_dom data ! i) = parent (results_doc ! i)" if "i < 5" for i
    using that by (simp_all add: results_dom_def nth_append nth_change)
  have k: "kids (results_doc ! i) = (if i = 0 then [1, 2, 3, 4] else [])"
    "i \<noteq> 0 \<Longrightarrow> parent (results_doc ! i) = Some 0" if "i < 5" for i
  proof -
    have "i \<in> {0, 1, 2, 3, 4}" using that by auto
    then show "kids (results_doc ! i) = (if i = 0 then [1, 2, 3, 4] else [])"
      "i \<noteq> 0 \<Longrightarrow> parent (results_doc ! i) = Some 0" by (auto simp: results_doc_def)
  qed
  show ?thesis
  proof (cases "i = 2")
    case True
    with assms(2) h(1) [of 2] obtain j where "j < length data" "x = row_at data j"
      by (auto simp: in_set_conv_nth row_at_def)
    with True results_dom_nth(1) [of j data 0] entry_length_ge [of "data ! j"] entry_frame(1) [OF on_page_results]
    show ?thesis by simp
  next
    case False
    with assms h(1) k(1) have "i = 0" "x \<in> {1, 2, 3, 4}" by (auto split: if_splits)
    then show ?thesis using h(2) [of x] k(2) [of x] by (auto simp: results_dom_def)
  qed
qed

text \<open>C17: From an index whose entries have different ids, createResults builds a document in which every id names
  one element and the links between parents and children agree, with a row for each entry.\<close>
theorem results_well_formed:
  assumes "distinct (map fst data)"
  shows "\<exists>d. createResults data results_doc = Inr d \<and> unique_ids d \<and> linked d \<and>
    map elem_id (filter is_row d) = map (\<lambda>en. Some (js ''SR_'' @ fst en)) data"
proof -
  have "linked (results_dom data)"
    unfolding linked_def
  proof (intro allI impI ballI)
    fix i x assume i: "i < length (results_dom data)" and x: "x \<in> set (kids (results_dom data ! i))"
    from results_dom_cover [OF i] x show "x < length (results_dom data) \<and> parent (results_dom data ! x) = Some i"
      using head_linked entry_linked by blast
  qed
  moreover have "map elem_id (filter is_row (results_dom data)) = map (\<lambda>en. Some (js ''SR_'' @ fst en)) data"
    using arg_cong [OF rows_of_results_dom, of "map fst" data] by (simp add: comp_def case_prod_unfold)
  ultimately show ?thesis
    using createResults_eq results_unique_ids [OF assms] by blast
qed

theorem results_well_formed_witness:
  "\<exists>d. createResults three_entries results_doc = Inr d \<and> unique_ids d \<and> linked d \<and>
    map elem_id (filter is_row d) = [Some (js ''SR_a''), Some (js ''SR_b''), Some (js ''SR_c'')]"
  using results_well_formed [OF three_rows(5)] by (simp add: three_entries_def js_simps)

section \<open>Opening and closing\<close>

lemma row_not_children:
  assumes "on_page data d" and "i < length data" and "j < length data"
  shows "row_at data i \<noteq> row_at data j + 3"
  using entry_frame(11) [OF assms(1,2)] fourth(1) [OF assms(1,3)] by (auto simp: js_simps split: if_splits)

lemma row_at_inj:
  assumes "on_page data d" and "i < length data" and "j < length data" and "distinct (map fst data)"
    and "row_at data i = row_at data j"
  shows "i = j"
proof -
  have "fst (data ! i) = fst (data ! j)"
    using entry_frame(13) [OF assms(1,2)] entry_frame(13) [OF assms(1,3)] assms(5) by simp
  with assms(2-4) show ?thesis by (simp add: distinct_conv_nth) metis
qed

lemma toggled:
  assumes "on_page data (doc p)" and "j < length data" and "distinct (map fst data)"
  shows "\<exists>d. Toggle (js ''SR_'' @ fst (data ! j)) p = Some (Inr (p\<lparr>doc := d\<rparr>)) \<and> on_page data d \<and>
    (opened data d j \<longleftrightarrow> several data j \<and> \<not> opened data (doc p) j) \<and>
    (\<forall>i < length data. i \<noteq> j \<longrightarrow> opened data d i = opened data (doc p) i) \<and>
    (\<forall>i < length data. visible data d i = visible data (doc p) i) \<and>
    (\<forall>k. k \<noteq> row_at data j + 3 \<longrightarrow> d ! k = doc p ! k) \<and> (\<not> several data j \<longrightarrow> d = doc p)"
proof (cases "several data j")
  case False
  then show ?thesis using FindChild_page [OF assms] assms(1)
    by (intro exI [of _ "doc p"]) (simp add: Toggle_def opened_def)
next
  case True
  let ?i = "row_at data j + 3"
  let ?d = "setDisplay (if display (doc p ! ?i) = ''block'' then ''none'' else ''block'') ?i (doc p)"
  have len: "?i < length (doc p)"
    using page_nth(1) [OF assms(1,2), of 3] entry_length_ge [of "data ! j"] by simp
  have "Toggle (js ''SR_'' @ fst (data ! j)) p = Some (Inr (p\<lparr>doc := ?d\<rparr>))"
    using FindChild_page [OF assms] True by (simp add: Toggle_def)
  moreover have "on_page data ?d" using assms(1) by simp
  moreover have "opened data ?d j \<longleftrightarrow> several data j \<and> \<not> opened data (doc p) j"
    using True len by (simp add: opened_def setDisplay_def nth_change)
  moreover have "visible data ?d i = visible data (doc p) i" if "i < length data" for i
    using row_not_children [OF assms(1) that assms(2)] page_nth(1) [OF assms(1) that, of 0] entry_length_ge [of "data ! i"]
    by (simp add: visible_def setDisplay_def nth_change)
  moreover have same: "?d ! k = doc p ! k" if "k \<noteq> ?i" for k
    using that by (simp add: setDisplay_def change_def)
  moreover have "opened data ?d i = opened data (doc p) i" if "i < length data" "i \<noteq> j" for i
  proof -
    have "row_at data i + 3 \<noteq> ?i" using row_at_inj [OF assms(1) that(1) assms(2,3)] that(2) by auto
    then have "?d ! (row_at data i + 3) = doc p ! (row_at data i + 3)" by (rule same)
    then show ?thesis by (simp only: opened_def)
  qed
  ultimately show ?thesis using True by (intro exI [of _ ?d]) blast
qed

text \<open>C30: Toggle returns; it opens the children of an entry with several results when they are closed and
  closes them when they are open, and leaves the rest alone: the children of every other entry stay
  open or closed, every row stays shown or hidden, in fact no other element of the page changes, and
  nothing at all does for an entry with a single result.\<close>
theorem toggle_children:
  assumes "on_page data (doc p)" and "j < length data" and "distinct (map fst data)"
  shows "\<exists>d. Toggle (js ''SR_'' @ fst (data ! j)) p = Some (Inr (p\<lparr>doc := d\<rparr>)) \<and> on_page data d \<and>
    (opened data d j \<longleftrightarrow> several data j \<and> \<not> opened data (doc p) j) \<and>
    (\<forall>i < length data. i \<noteq> j \<longrightarrow> opened data d i = opened data (doc p) i) \<and>
    (\<forall>i < length data. visible data d i = visible data (doc p) i) \<and>
    (\<forall>k. k \<noteq> row_at data j + 3 \<longrightarrow> d ! k = doc p ! k) \<and> (\<not> several data j \<longrightarrow> d = doc p)"
  using assms by (rule toggled)

theorem toggle_children_witness:
  "\<exists>d. Toggle (js ''SR_a'') (three_page ''block'') = Some (Inr ((three_page ''block'')\<lparr>doc := d\<rparr>)) \<and>
    \<not> opened three_entries d 0 \<and> visible three_entries d 2 \<and>
    opened three_entries d 1 = opened three_entries (doc (three_page ''block'')) 1"
  using toggle_children [OF three_on_page [of "''block''"], of 0] three_visible [of "''block''"] three_rows(1,5)
  by (auto simp: three_entries_def js_simps)

end
