(* ===== verification/ResultsFilter.thy ===== *)
theory ResultsFilter
  imports Results
begin

text \<open>
  The filter of the results page: after \<open>createResults\<close> has built the rows of an index, \<open>Search\<close> shows those
  whose names begin with the word of the query.
\<close>

section \<open>What the filter shows\<close>

definition query :: "(js_string \<Rightarrow> js_string) \<Rightarrow> js_string \<Rightarrow> js_string \<Rightarrow> js_string" where
  "query unescape location search = (if search = [] then unescape (drop 1 location) else search)"

definition trim :: "js_string \<Rightarrow> js_string" where
  "trim s = strip_trailing (strip_leading s)"

type_synonym index_entry = "js_string \<times> js_string \<times> (js_string \<times> nat \<times> js_string) list"

text \<open>An entry is asked for when its name begins with the word, capitals and outer spaces aside.\<close>

definition asked :: "js_string \<Rightarrow> index_entry \<Rightarrow> bool" where
  "asked q = (\<lambda>(nm, label, rs). prefix (map ascii_lower (trim q)) (map ascii_lower nm))"

lemma list_all_trim: "list_all P s \<Longrightarrow> list_all P (trim s)"
  by (auto simp: trim_def strip_trailing_def strip_leading_def list_all_iff dest!: set_dropWhileD)

lemma search_word_ascii:
  assumes "lowers_ascii lower" and "list_all ascii (query unescape location search)"
  shows "search_word lower unescape location search =
    convertToId (map ascii_lower (trim (query unescape location search)))"
  using assms(1) list_all_trim [OF assms(2)]
  by (simp add: search_word_def query_def trim_def lowers_asciiD Let_def split del: if_split)

definition searched :: "(js_string \<Rightarrow> js_string) \<Rightarrow> js_string \<Rightarrow> elem \<Rightarrow> elem" where
  "searched lower s e =
    (if is_row e then e\<lparr>display := if prefix s (row_name lower e) then ''block'' else ''none''\<rparr> else e)"

lemma bare_searched [simp]: "bare (map (searched lower s) d) = bare d"
  by (simp add: bare_def searched_def)

lemma length_filter_map_eq: "map f xs = map g ys \<Longrightarrow> length (filter (P \<circ> f) xs) = length (filter (P \<circ> g) ys)"
  by (metis length_map filter_map)

lemma row_names:
  assumes "lowers_ascii lower" and "list_all (\<lambda>(nm, _). list_all ascii nm) ix"
  shows "map (\<lambda>e. (elem_id e, row_name lower e)) (filter is_row (results_dom (index_data ix))) =
    map (\<lambda>(nm, _). let x = convertToId (map ascii_lower nm) in (Some (js ''SR_'' @ x), x)) ix"
proof -
  have "map elem_id (filter is_row (results_dom (index_data ix))) =
      map (\<lambda>(eid, _). Some (js ''SR_'' @ eid)) (index_data ix)"
    using arg_cong [OF rows_of_results_dom, of "map fst" "index_data ix"]
    by (simp add: comp_def case_prod_unfold)
  then have l: "list_all2 (\<lambda>e en. elem_id e = Some (js ''SR_'' @ convertToId (map ascii_lower (fst en))))
      (filter is_row (results_dom (index_data ix))) ix"
    by (simp add: list_all2_conv_all_nth index_data_def case_prod_unfold comp_def list_eq_iff_nth_eq)
  have "list_all2 (\<lambda>e en. (elem_id e, row_name lower e) = (let x = convertToId (map ascii_lower (fst en)) in (Some (js ''SR_'' @ x), x)))
      (filter is_row (results_dom (index_data ix))) ix"
    using l assms row_name_index [OF assms(1)]
    by (auto simp: list_all2_conv_all_nth list_all_length case_prod_unfold Let_def)
  then show ?thesis by (simp add: list_all2_conv_all_nth list_eq_iff_nth_eq case_prod_unfold)
qed

lemma status_ids:
  assumes "on_page data d"
  shows "getElementById (js ''Searching'') d = Some 3" "getElementById (js ''NoMatches'') d = Some 4"
proof -
  have h: "getElementById x (change 2 (\<lambda>x. x\<lparr>kids := bases 5 data\<rparr>) results_doc) = getElementById x results_doc" for x
    by (rule getElementById_cong) (simp add: change_def results_doc_def elem_id_def)
  have "getElementById x (results_dom data) = Some i" if "getElementById x results_doc = Some i" for x i
    unfolding results_dom_def by (rule getElementById_append) (simp only: h that)
  then have "getElementById (js ''Searching'') (results_dom data) = Some 3"
    "getElementById (js ''NoMatches'') (results_dom data) = Some 4"
    using results_doc_ids by blast+
  then show "getElementById (js ''Searching'') d = Some 3" "getElementById (js ''NoMatches'') d = Some 4"
    using bare_ids [of d "results_dom data"] assms by (simp_all add: on_page_def)
qed

lemma not_rows: "on_page data d \<Longrightarrow> \<not> is_row (d ! 3) \<and> \<not> is_row (d ! 4)"
proof -
  assume "on_page data d"
  then have "bare d = bare (results_dom data)" by (simp add: on_page_def)
  then have "tag (d ! i) = tag (results_doc ! i)" "attrs (d ! i) = attrs (results_doc ! i)" if "i \<in> {3, 4}" for i
    using that bare_elem [of d "results_dom data" i] by (auto simp: results_dom_def nth_append nth_change)
  then show ?thesis by (simp add: is_row_def className_def) (simp add: results_doc_def js_simps)
qed

lemma rows_bare:
  assumes "on_page data d"
  shows "map (\<lambda>e. (elem_id e, row_name lower e)) (filter is_row d) =
    map (\<lambda>e. (elem_id e, row_name lower e)) (filter is_row (results_dom data))"
proof -
  have h: "map (\<lambda>e. (elem_id e, row_name lower e)) (filter is_row d) =
      map (\<lambda>e. (elem_id e, row_name lower e)) (filter is_row (bare d))" for d
    by (simp add: bare_def filter_map comp_def row_name_def)
  show ?thesis using assms h [of d] h [of "results_dom data"] by (simp add: on_page_def)
qed

lemma is_row_searched [simp]: "is_row (searched lower s e) = is_row e"
  by (simp add: searched_def)

lemma searched_rows:
  assumes "map (\<lambda>e. (elem_id e, row_name lower e)) (filter is_row d) = map (\<lambda>en. (F en, G en)) ix"
  shows "map (\<lambda>e. (elem_id e, display e)) (filter is_row (map (searched lower s) d)) =
      map (\<lambda>en. (F en, if prefix s (G en) then ''block'' else ''none'')) ix"
    "length (filter (\<lambda>e. is_row e \<and> prefix s (row_name lower e)) d) = length (filter (\<lambda>en. prefix s (G en)) ix)"
proof -
  have "map (\<lambda>e. (elem_id e, display e)) (filter is_row (map (searched lower s) d)) =
      map (\<lambda>(x, n). (x, if prefix s n then ''block'' else ''none'')) (map (\<lambda>e. (elem_id e, row_name lower e)) (filter is_row d))"
    by (auto simp: filter_map comp_def searched_def)
  with assms show "map (\<lambda>e. (elem_id e, display e)) (filter is_row (map (searched lower s) d)) =
      map (\<lambda>en. (F en, if prefix s (G en) then ''block'' else ''none'')) ix"
    by (simp add: comp_def)
  have "filter (\<lambda>e. is_row e \<and> prefix s (row_name lower e)) d = filter (\<lambda>e. prefix s (row_name lower e)) (filter is_row d)"
    by (simp add: conj_commute)
  moreover have "length (filter (\<lambda>e. prefix s (row_name lower e)) (filter is_row d)) =
      length (filter (\<lambda>en. prefix s (G en)) ix)"
    using length_filter_map_eq [OF assms, of "\<lambda>(x, n). prefix s n"] by (simp add: comp_def)
  ultimately show "length (filter (\<lambda>e. is_row e \<and> prefix s (row_name lower e)) d) = length (filter (\<lambda>en. prefix s (G en)) ix)"
    by simp
qed

definition row_code :: "index_entry \<Rightarrow> js_string" where
  "row_code = (\<lambda>(nm, label, rs). convertToId (map ascii_lower nm))"

lemma asked_prefix: "prefix (convertToId (map ascii_lower (trim q))) (row_code en) = asked q en"
  by (cases en) (simp add: row_code_def asked_def convertToId_prefix)

lemma search_rows_searched: "search_rows lower s d =
    (map (searched lower s) d, length (filter (\<lambda>e. is_row e \<and> prefix s (row_name lower e)) d))"
  by (simp add: search_rows_eq searched_def [abs_def])

lemma Search_page:
  assumes "on_page data (doc p)"
  shows "Search lower unescape location search p =
    (let s = search_word lower unescape location search;
         matches = length (filter (\<lambda>e. is_row e \<and> prefix s (row_name lower e)) (doc p));
         d = setDisplay (if matches = 0 then ''block'' else ''none'') 4 (setDisplay ''none'' 3 (map (searched lower s) (doc p)))
     in Inr (True, p\<lparr>doc := d, lastMatchCount := matches\<rparr>))"
proof -
  let ?s = "search_word lower unescape location search"
  have "on_page data (map (searched lower ?s) (doc p))" using assms by (simp add: on_page_def)
  then show ?thesis
    by (simp add: Search_def search_rows_searched show_status_def status_ids [of data] Let_def)
qed

lemma Search_filtered:
  assumes "lowers_ascii lower" and "list_all (\<lambda>(nm, _). list_all ascii nm) ix"
    and "list_all ascii (query unescape location search)" and "on_page (index_data ix) (doc p)"
  shows "\<exists>d. Search lower unescape location search p =
      Inr (True, p\<lparr>doc := d, lastMatchCount := length (filter (asked (query unescape location search)) ix)\<rparr>) \<and>
    on_page (index_data ix) d \<and>
    map (\<lambda>e. (elem_id e, display e)) (filter is_row d) =
      map (\<lambda>en. (Some (js ''SR_'' @ row_code en),
        if asked (query unescape location search) en then ''block'' else ''none'')) ix \<and>
    display (d ! 3) = ''none'' \<and>
    display (d ! 4) = (if \<exists>en \<in> set ix. asked (query unescape location search) en then ''none'' else ''block'')"
proof -
  let ?q = "query unescape location search" and ?s = "search_word lower unescape location search"
  let ?d = "map (searched lower ?s) (doc p)"
  have s: "?s = convertToId (map ascii_lower (trim ?q))" using assms(1,3) by (rule search_word_ascii)
  have n: "map (\<lambda>e. (elem_id e, row_name lower e)) (filter is_row (doc p)) =
      map (\<lambda>en. (Some (js ''SR_'' @ row_code en), row_code en)) ix"
    using rows_bare [OF assms(4)] row_names [OF assms(1,2)]
    by (simp add: row_code_def case_prod_unfold Let_def)
  note r = searched_rows [OF n, of ?s, unfolded s asked_prefix, folded s]
  have on: "on_page (index_data ix) ?d" using assms(4) by (simp add: on_page_def)
  have long: "5 \<le> length (doc p)"
    using assms(4) length_bare [of "doc p"] length_bare [of "results_dom (index_data ix)"]
    by (simp add: on_page_def results_dom_def)
  let ?e = "setDisplay (if length (filter (asked ?q) ix) = 0 then ''block'' else ''none'') 4 (setDisplay ''none'' 3 ?d)"
  have "Search lower unescape location search p = Inr (True, p\<lparr>doc := ?e, lastMatchCount := length (filter (asked ?q) ix)\<rparr>)"
    unfolding Search_page [OF assms(4)] Let_def r(2) by (rule refl)
  moreover have "filter is_row ?e = filter is_row ?d"
    using not_rows [OF on] not_rows [of "index_data ix" "setDisplay ''none'' 3 ?d"] on long
    by (simp add: filter_setDisplay del: length_0_conv)
  moreover have "display (?e ! 3) = ''none''"
    "display (?e ! 4) = (if \<exists>en \<in> set ix. asked ?q en then ''none'' else ''block'')"
    using long by (auto simp: setDisplay_def nth_change filter_empty_conv)
  ultimately show ?thesis using r(1) on by (intro exI [of _ ?e]) simp
qed

text \<open>C14: Searching a results page shows exactly the rows of the index whose names begin with the word,
  capitals and outer spaces aside, counts them, and says so when there are none.\<close>
theorem search_filters:
  assumes "lowers_ascii lower" and "list_all (\<lambda>(nm, _). list_all ascii nm) ix"
    and "list_all ascii (query unescape location search)" and "on_page (index_data ix) (doc p)"
  shows "\<exists>d. Search lower unescape location search p =
      Inr (True, p\<lparr>doc := d, lastMatchCount := length (filter (asked (query unescape location search)) ix)\<rparr>) \<and>
    on_page (index_data ix) d \<and>
    map (\<lambda>e. (elem_id e, display e)) (filter is_row d) =
      map (\<lambda>en. (Some (js ''SR_'' @ row_code en),
        if asked (query unescape location search) en then ''block'' else ''none'')) ix \<and>
    display (d ! 3) = ''none'' \<and>
    display (d ! 4) = (if \<exists>en \<in> set ix. asked (query unescape location search) en then ''none'' else ''block'')"
  using assms by (rule Search_filtered)

text \<open>A small index: Alpha with one result, Beta with two and alpine with one.\<close>

definition small_index :: "index_entry list" where
  "small_index = [(js ''Alpha'', js ''Alpha'', [(js ''a.html'', 1, js ''one'')]),
    (js ''Beta'', js ''Beta'', [(js ''b.html'', 1, js ''first''), (js ''c.html'', 1, js ''second'')]),
    (js ''alpine'', js ''alpine'', [(js ''d.html'', 0, js ''two'')])]"

lemma lowers_ascii_map: "lowers_ascii (map ascii_lower)"
  by (simp add: lowers_ascii_def)

theorem search_filters_witness:
  "\<exists>d. Search (map ascii_lower) (\<lambda>s. s) [] (js '' AL '') (new_results (results_dom (index_data small_index))) =
      Inr (True, (new_results (results_dom (index_data small_index)))\<lparr>doc := d, lastMatchCount := 2\<rparr>) \<and>
    map display (filter is_row d) = [''block'', ''none'', ''block''] \<and> display (d ! 4) = ''none''"
proof -
  let ?p = "new_results (results_dom (index_data small_index))"
  have a: "list_all (\<lambda>(nm, _). list_all ascii nm) small_index"
    "list_all ascii (query (\<lambda>s. s) [] (js '' AL ''))"
    by (simp_all add: small_index_def query_def js_simps ascii_def)
  have q: "query (\<lambda>s. s) [] (js '' AL '') = js '' AL ''" by (simp add: query_def js_simps)
  have f: "map (asked (js '' AL '')) small_index = [True, False, True]"
    by (simp add: small_index_def asked_def trim_def strip_trailing_def strip_leading_def space_def js_simps ascii_lower_def)
  then have n: "length (filter (asked (js '' AL '')) small_index) = 2" "\<exists>en \<in> set small_index. asked (js '' AL '') en"
    by (simp_all add: small_index_def)
  have p: "on_page (index_data small_index) (doc ?p)" by (simp add: new_results_def on_page_results)
  from search_filters [OF lowers_ascii_map a p, unfolded q n(1)] obtain d where
    d: "Search (map ascii_lower) (\<lambda>s. s) [] (js '' AL '') ?p = Inr (True, ?p\<lparr>doc := d, lastMatchCount := 2\<rparr>)"
    "map (\<lambda>e. (elem_id e, display e)) (filter is_row d) = map (\<lambda>en. (Some (js ''SR_'' @ row_code en),
        if asked (js '' AL '') en then ''block'' else ''none'')) small_index"
    "display (d ! 4) = (if \<exists>en \<in> set small_index. asked (js '' AL '') en then ''none'' else ''block'')"
    by (elim exE conjE) (rule that; assumption)
  have "map display (filter is_row d) = map snd (map (\<lambda>e. (elem_id e, display e)) (filter is_row d))"
    by simp
  also have "\<dots> = map (\<lambda>b. if b then ''block'' else ''none'') (map (asked (js '' AL '')) small_index)"
    unfolding d(2) by simp
  also have "\<dots> = [''block'', ''none'', ''block'']"
    unfolding f by simp
  finally have "map display (filter is_row d) = [''block'', ''none'', ''block'']" .
  moreover have "display (d ! 4) = ''none''" using d(3) unfolding if_P [OF n(2)] .
  ultimately show ?thesis using d(1) by (intro exI [of _ d] conjI)
qed

end
