(* ===== verification/ResultsUse.thy ===== *)
theory ResultsUse
  imports ResultsPage ResultsFilter
begin

text \<open>
  The results page as its user sees it: after any sequence of searches, clicks and keys every handler
  returns, and only displays have changed.
\<close>


section \<open>The page in use\<close>

text \<open>
  The page after any searches, clicks and keys: a click toggles the row it is on, and the handlers
  \<open>Nav\<close> and \<open>NavChild\<close> run with the numbers \<open>createResults\<close> wrote into the links.
\<close>

inductive page_runs :: "(js_string \<Rightarrow> js_string) \<Rightarrow> (js_string \<Rightarrow> js_string) \<Rightarrow> entry list \<Rightarrow> results_page \<Rightarrow> bool"
  for lower unescape data where
  opened_page: "createResults data results_doc = Inr d \<Longrightarrow> page_runs lower unescape data (new_results d)"
| searching: "page_runs lower unescape data p \<Longrightarrow> Search lower unescape location s p = Inr (b, q) \<Longrightarrow>
    page_runs lower unescape data q"
| toggling: "page_runs lower unescape data p \<Longrightarrow> j < length data \<Longrightarrow>
    Toggle (js ''SR_'' @ fst (data ! j)) p = Some (Inr q) \<Longrightarrow> page_runs lower unescape data q"
| on_link: "page_runs lower unescape data p \<Longrightarrow> j < length data \<Longrightarrow>
    Nav e (int j) p = Some (Inr (b, q)) \<Longrightarrow> page_runs lower unescape data q"
| on_child: "page_runs lower unescape data p \<Longrightarrow> j < length data \<Longrightarrow> c < child_count data j \<Longrightarrow>
    NavChild e (int j) c p = Inr (b, q) \<Longrightarrow> page_runs lower unescape data q"

lemma search_rows_bare: "bare (fst (search_rows lower s d)) = bare d"
  by (simp add: search_rows_eq bare_def)

lemma Search_on_page:
  assumes "on_page data (doc p)"
  shows "\<exists>q. Search lower unescape location s p = Inr (True, q) \<and> on_page data (doc q)"
proof -
  let ?d = "fst (search_rows lower (search_word lower unescape location s) (doc p))"
  have "on_page data ?d" using assms search_rows_bare by (simp add: on_page_def)
  then show ?thesis
    by (simp add: Search_def show_status_def status_ids [of data] case_prod_unfold)
qed

lemma ProcessKeys_doc: "ProcessKeys e p = (go, q) \<Longrightarrow> doc q = doc p \<and> closings q = closings p"
  by (auto simp: ProcessKeys_def Let_def split: key_type.splits if_splits)

lemma NavNext_total: "on_page data d \<Longrightarrow> \<exists>f. NavNext d (int j + 1) = Inr f"
  using NavNext_shown [of data d "Suc j"] by (simp add: add.commute)

lemma set_children_page: "on_page data (doc p) \<Longrightarrow> \<exists>b q. set_children s f p = (b, q) \<and> on_page data (doc q)"
  by (auto simp: set_children_def split: option.split)

lemma move_focus_page: "on_page data (doc p) \<Longrightarrow> \<exists>b q. move_focus f p = (b, q) \<and> on_page data (doc q)"
  by (auto simp: move_focus_def)

lemma Nav_total:
  assumes "on_page data (doc p)" and "j < length data" and "distinct (map fst data)"
  shows "\<exists>b q. Nav e (int j) p = Some (Inr (b, q)) \<and> on_page data (doc q)"
proof -
  obtain go q where pk: "ProcessKeys e p = (go, q)" by (cases "ProcessKeys e p") auto
  with assms(1) have on: "on_page data (doc q)" using ProcessKeys_doc by simp
  note rc = row_children_page(2) [OF on assms(2,3)]
  obtain f where f: "NavNext (doc q) (int j + 1) = Inr f" using NavNext_total [OF on] by blast
  have up: "thenRun (Some (NavPrev (doc q) (int j - 1))) (\<lambda>focusItem. case focusItem of
        None \<Rightarrow> Some (Inr (move_focus OnSearchField q))
      | Some f \<Rightarrow> thenRun (row_children (doc q) f) (\<lambda>child.
          Some (Inr (move_focus (OnElement (if open_children (doc q) child
            then last_child (doc q) (int j - 1) 0 f else f)) q)))) =
      Some (Inr (move_focus fo q))" if "fo = (case prev_shown data (doc q) j of None \<Rightarrow> OnSearchField
        | Some i \<Rightarrow> OnElement (if opened data (doc q) i then last_child (doc q) (int j - 1) 0 (row_at data i + 2)
            else row_at data i + 2))" for fo
  proof (cases "prev_shown data (doc q) j")
    case None
    then show ?thesis using that NavPrev_shown [OF on, of j] assms(2) by simp
  next
    case (Some i)
    with assms(2) have "i < length data" using prev_shown_between [OF Some] by simp
    from row_children_page(1,3) [OF on this assms(3)] Some that NavPrev_shown [OF on, of j] assms(2)
    show ?thesis by simp
  qed
  show ?thesis
    unfolding Nav_def pk using assms(1) on up [OF refl] rc f
    by (auto simp: Let_def escape_results_def set_children_page move_focus_page split: option.splits)
qed

lemma NavChild_total:
  assumes "on_page data (doc p)" and "j < length data" and "c < child_count data j"
  shows "\<exists>b q. NavChild e (int j) c p = Inr (b, q) \<and> on_page data (doc q)"
proof -
  obtain go q where pk: "ProcessKeys e p = (go, q)" by (cases "ProcessKeys e p") auto
  with assms(1) have on: "on_page data (doc q)" using ProcessKeys_doc by simp
  obtain f where f: "NavNext (doc q) (int j + 1) = Inr f" using NavNext_total [OF on] by blast
  have c: "getElementById (item_child (int j) k) (doc q) =
      (if k < child_count data j then Some (row_at data j + (k + 4)) else None)" for k
    by (rule child_lookup [OF on assms(2)])
  show ?thesis
    unfolding NavChild_def pk using assms(1,3) on f
    by (auto simp: Let_def escape_results_def c item_at [OF on assms(2)] move_focus_page split: option.splits)
qed

lemma page_runs_on_page:
  assumes "page_runs lower unescape data p" and "distinct (map fst data)"
  shows "on_page data (doc p)"
  using assms(1)
proof induction
  case (opened_page d)
  then show ?case using on_page_results [of data] by (auto simp: createResults_eq new_results_def)
next
  case (searching p location s b q)
  then show ?case using Search_on_page [of data p lower unescape location s] by auto
next
  case (toggling p j q)
  then show ?case using toggled [OF toggling.IH toggling.hyps(2) assms(2)] by auto
next
  case (on_link p j e b q)
  then show ?case using Nav_total [OF on_link.IH on_link.hyps(2) assms(2), of e] by auto
next
  case (on_child p j c e b q)
  then show ?case using NavChild_total [OF on_child.IH on_child.hyps(2,3), of e] by auto
qed

text \<open>C6: However the page is used, searches, clicks and keys return without an exception and change nothing of
  the document but what is displayed.\<close>
theorem page_safe:
  assumes "page_runs lower unescape data p" and "distinct (map fst data)" and "j < length data"
  shows "bare (doc p) = bare (results_dom data) \<and>
    (\<exists>q. Search lower unescape location s p = Inr (True, q)) \<and>
    (\<exists>q. Toggle (js ''SR_'' @ fst (data ! j)) p = Some (Inr q)) \<and>
    (\<exists>r. Nav e (int j) p = Some (Inr r)) \<and>
    (c < child_count data j \<longrightarrow> (\<exists>r. NavChild e (int j) c p = Inr r))"
proof -
  note on = page_runs_on_page [OF assms(1,2)]
  show ?thesis
    using on Search_on_page [OF on, of lower unescape location s] toggled [OF on assms(3,2)]
      Nav_total [OF on assms(3,2), of e] NavChild_total [OF on assms(3), of c e]
    by (auto simp: on_page_def)
qed

theorem page_safe_witness:
  "(\<exists>q. Toggle (js ''SR_b'') (new_results (results_dom three_entries)) = Some (Inr q)) \<and>
    (\<exists>r. NavChild up 1 1 (new_results (results_dom three_entries)) = Inr r)"
proof -
  have "page_runs (map ascii_lower) (\<lambda>s. s) three_entries (new_results (results_dom three_entries))"
    by (rule opened_page) (rule createResults_eq)
  from page_safe [OF this three_rows(5), of 1 "[]" "[]" up 1] show ?thesis
    by (simp add: three_rows three_several) (simp add: three_entries_def js_simps)
qed

end
