(* ===== verification/Escape.thy ===== *)
theory Escape
  imports JsString
begin

text \<open>
  JavaScript's \<open>escape\<close> and \<open>unescape\<close>, through which the typed word travels in the address of the results
  page: \<open>SearchBox.Search\<close> writes it with the one and \<open>SearchResults.Search\<close> reads it with the other.
\<close>

definition unreserved :: "16 word \<Rightarrow> bool" where
  "unreserved c \<longleftrightarrow> 97 \<le> c \<and> c \<le> 122 \<or> 65 \<le> c \<and> c \<le> 90 \<or> 48 \<le> c \<and> c \<le> 57 \<or>
     c \<in> set (js ''@*_+-./'')"

text \<open>A digit in capitals, and \<open>n\<close> digits of a number.\<close>

definition hex_digit :: "nat \<Rightarrow> 16 word" where
  "hex_digit n = (if n < 10 then 48 + word_of_nat n else 55 + word_of_nat n)"

fun hex_digits :: "nat \<Rightarrow> nat \<Rightarrow> js_string" where
  "hex_digits 0 n = []"
| "hex_digits (Suc k) n = hex_digits k (n div 16) @ [hex_digit (n mod 16)]"

definition escape_unit :: "16 word \<Rightarrow> js_string" where
  "escape_unit c =
     (if unreserved c then [c]
      else if unat c < 256 then js ''%'' @ hex_digits 2 (unat c)
      else js ''%u'' @ hex_digits 4 (unat c))"

definition escape :: "js_string \<Rightarrow> js_string" where
  "escape s = concat (map escape_unit s)"

text \<open>The value of a digit, in capitals or small letters.\<close>

definition hex_value :: "16 word \<Rightarrow> nat option" where
  "hex_value c =
     (if 48 \<le> c \<and> c \<le> 57 then Some (unat c - 48)
      else if 65 \<le> c \<and> c \<le> 70 then Some (unat c - 55)
      else if 97 \<le> c \<and> c \<le> 102 then Some (unat c - 87)
      else None)"

fun hex_number :: "nat \<Rightarrow> js_string \<Rightarrow> nat option" where
  "hex_number n [] = Some n"
| "hex_number n (c # s) = (case hex_value c of None \<Rightarrow> None | Some v \<Rightarrow> hex_number (16 * n + v) s)"

text \<open>A unit that starts an escape sequence: what it stands for, and what remains.\<close>

definition unescape_head :: "js_string \<Rightarrow> (nat \<times> js_string) option" where
  "unescape_head s =
     (case s of
        c # r \<Rightarrow>
          if c \<noteq> 37 then None
          else if take 1 r = js ''u'' \<and> 5 \<le> length r \<and> hex_number 0 (take 4 (drop 1 r)) \<noteq> None
            then Some (the (hex_number 0 (take 4 (drop 1 r))), drop 5 r)
          else if 2 \<le> length r \<and> hex_number 0 (take 2 r) \<noteq> None
            then Some (the (hex_number 0 (take 2 r)), drop 2 r)
          else None
      | [] \<Rightarrow> None)"

lemma unescape_head_shorter: "unescape_head (c # r) = Some (n, s) \<Longrightarrow> length s \<le> length r"
  by (auto simp: unescape_head_def split: if_splits)

function unescape :: "js_string \<Rightarrow> js_string" where
  "unescape [] = []"
| "unescape (c # r) = (case unescape_head (c # r) of
     Some (n, s) \<Rightarrow> word_of_nat n # unescape s
   | None \<Rightarrow> c # unescape r)"
  by pat_completeness auto
termination
  by (relation "measure length") (auto dest: unescape_head_shorter)

lemma hex_value_digit: "n < 16 \<Longrightarrow> hex_value (hex_digit n) = Some n"
proof -
  assume n: "n < 16"
  have u: "unat (hex_digit n) = (if n < 10 then 48 + n else 55 + n)"
    using n by (simp add: hex_digit_def unat_word_ariths unat_of_nat take_bit_nat_def)
  with n show ?thesis by (simp add: hex_value_def word_le_nat_alt)
qed

lemma hex_number_append: "hex_number n (s @ t) = (case hex_number n s of None \<Rightarrow> None | Some m \<Rightarrow> hex_number m t)"
  by (induction s arbitrary: n) (auto split: option.split)

lemma hex_number_digits: "n < 16 ^ k \<Longrightarrow> hex_number m (hex_digits k n) = Some (16 ^ k * m + n)"
proof (induction k arbitrary: n)
  case (Suc k)
  then have "n div 16 < 16 ^ k" by (simp add: less_mult_imp_div_less mult.commute)
  from Suc.IH [OF this] show ?case
    by (simp add: hex_number_append hex_value_digit algebra_simps)
qed simp

lemma length_hex_digits [simp]: "length (hex_digits k n) = k"
  by (induction k arbitrary: n) simp_all

lemma hex_digit_not_u: "n < 16 \<Longrightarrow> hex_digit n \<noteq> 117"
  using hex_value_digit [of n] by (auto simp: hex_value_def)

lemma unescape_unit: "unescape (escape_unit c @ s) = c # unescape s"
proof -
  consider (keep) "unreserved c" | (two) "\<not> unreserved c" "unat c < 256" | (four) "\<not> unreserved c" "\<not> unat c < 256"
    by blast
  then show ?thesis
  proof cases
    case keep
    then have "c \<noteq> 37" by (auto simp: unreserved_def)
    with keep show ?thesis by (simp add: escape_unit_def unescape_head_def)
  next
    case two
    have n: "hex_number 0 (hex_digits 2 (unat c)) = Some (unat c)"
      using two(2) hex_number_digits [of "unat c" 2 0] by simp
    have "take 1 (hex_digits 2 (unat c) @ s) \<noteq> js ''u''"
      using two(2) hex_digit_not_u [of "unat c div 16"] by (simp add: numeral_2_eq_2 less_mult_imp_div_less)
    with two n show ?thesis by (simp add: escape_unit_def unescape_head_def)
  next
    case four
    have "unat c < 16 ^ 4" using unsigned_less [of c, where 'a = nat] by simp
    then have "hex_number 0 (hex_digits 4 (unat c)) = Some (unat c)"
      using hex_number_digits [of "unat c" 4 0] by simp
    with four show ?thesis by (simp add: escape_unit_def unescape_head_def)
  qed
qed

interpretation escape_code: unit_code escape_unit unescape
  by unfold_locales (simp_all add: unescape_unit)

lemma unescape_escape: "unescape (escape s) = s"
  by (simp add: escape_def escape_code.decode)

text \<open>What is written contains neither \<open>?\<close> nor \<open>#\<close>, which end the parts of an address.\<close>

lemma hex_digit_plain: "n < 16 \<Longrightarrow> hex_digit n \<noteq> 63 \<and> hex_digit n \<noteq> 35"
  using hex_value_digit [of n] by (auto simp: hex_value_def)

lemma hex_digits_plain: "set (hex_digits k n) \<inter> {63, 35} = {}"
proof (induction k arbitrary: n)
  case (Suc k)
  then show ?case using hex_digit_plain [of "n mod 16"] by simp
qed simp

lemma escape_unit_plain: "set (escape_unit c) \<inter> {63, 35} = {}"
proof (cases "unreserved c")
  case True
  then have "c \<noteq> 63" "c \<noteq> 35" by (auto simp: unreserved_def)
  with True show ?thesis by (simp add: escape_unit_def)
next
  case False
  with hex_digits_plain [of 2 "unat c"] hex_digits_plain [of 4 "unat c"] show ?thesis
    by (simp add: escape_unit_def del: hex_digits.simps)
qed

lemma escape_plain: "set (escape s) \<inter> {63, 35} = {}"
  using escape_unit_plain by (induction s) (simp_all add: escape_def Int_Un_distrib2)

end
