(* ===== verification/SearchBox.thy ===== *)
theory SearchBox
  imports SearchResults Escape
begin

text \<open>
  The search panel of the documentation's pages (the class SearchBox of html/search/search.js) with the
  elements of a page that it works on, the pending timeouts of the browser and the frame with the results.
  The layout of the page is the browser's: an argument that gives the geometry of each element in each
  state of the panel.
\<close>

section \<open>The page\<close>

datatype el = Body | SearchBoxEl | SearchFieldEl | SearchSelectEl | SearchSelectWindowEl | ResultsEl | ResultsWindowEl
  | OtherEl nat

record geom =
  offsetLeft :: int
  offsetTop :: int
  offsetWidth :: int
  offsetHeight :: int
  clientWidth :: int
  offsetParent :: "el option"

text \<open>What a timeout calls: \<open>searchBox.Search()\<close> or \<open>searchBox.CloseSelectionWindow()\<close>.\<close>

datatype call = CallSearch | CallCloseSelectionWindow

record timeout =
  tid :: nat
  call :: call
  delay :: nat

text \<open>A child of the selection window; a node of text has no class.\<close>

record choice =
  choice_class :: string
  onclick :: js_string
  mark :: js_string         \<comment> \<open>\<open>firstChild.innerHTML\<close>\<close>
  label :: js_string

datatype panel_focus = NoFocus | FieldFocus | ChoiceFocus nat | ResultFocus nat

text \<open>\<open>left\<close>, \<open>top\<close>, \<open>width\<close> and \<open>position\<close> of a style, where set.\<close>

record window_style =
  win_display :: string
  win_left :: "int option"
  win_top :: "int option"
  win_width :: "int option"
  win_position :: string

record panel =
  resultsPath :: js_string
  insideFrame :: bool
  searchLabel :: js_string
  keyTimeout :: nat
  hideTimeout :: nat
  lastSearchValue :: js_string
  lastResultsPage :: js_string
  searchIndex :: nat
  searchActive :: bool
  \<comment> \<open>the document\<close>
  field_value :: js_string          \<comment> \<open>\<open>MSearchField\<close>\<close>
  box_class :: string               \<comment> \<open>\<open>MSearchBox\<close>\<close>
  close_display :: string           \<comment> \<open>\<open>MSearchClose\<close>\<close>
  select_window :: window_style     \<comment> \<open>\<open>MSearchSelectWindow\<close>\<close>
  results_window :: window_style    \<comment> \<open>\<open>MSearchResultsWindow\<close>\<close>
  results_width :: "int option"     \<comment> \<open>\<open>MSearchResults\<close>\<close>
  choices :: "choice list"          \<comment> \<open>the children of \<open>MSearchSelectWindow\<close>\<close>
  on_focus :: panel_focus
  \<comment> \<open>the browser\<close>
  timeouts :: "timeout list"
  next_tid :: nat
  location :: js_string             \<comment> \<open>\<open>window.frames.MSearchResults.location\<close>\<close>
  results_frame :: "results_page option"  \<comment> \<open>\<open>window.frames.MSearchResults.searchResults\<close>\<close>

type_synonym layout = "panel \<Rightarrow> el \<Rightarrow> geom"

section \<open>getXPos and getYPos\<close>

partial_function (option) sum_offsets :: "el option \<Rightarrow> (geom \<Rightarrow> int) \<Rightarrow> (el \<Rightarrow> geom) \<Rightarrow> int \<Rightarrow> int option" where
  "sum_offsets it off g x = (case it of
     None \<Rightarrow> Some x
   | Some i \<Rightarrow> if i = Body then Some x else sum_offsets (offsetParent (g i)) off g (x + off (g i)))"

definition getXPos :: "(el \<Rightarrow> geom) \<Rightarrow> el \<Rightarrow> int option" where
  "getXPos g it = (if offsetWidth (g it) \<noteq> 0 then sum_offsets (Some it) offsetLeft g 0 else Some 0)"

definition getYPos :: "(el \<Rightarrow> geom) \<Rightarrow> el \<Rightarrow> int option" where
  "getYPos g it = (if offsetWidth (g it) \<noteq> 0 then sum_offsets (Some it) offsetTop g 0 else Some 0)"

section \<open>Timeouts\<close>

definition setTimeout :: "call \<Rightarrow> nat \<Rightarrow> panel \<Rightarrow> nat \<times> panel" where
  "setTimeout c ms p =
     (next_tid p, p\<lparr>timeouts := timeouts p @ [\<lparr>tid = next_tid p, call = c, delay = ms\<rparr>], next_tid := Suc (next_tid p)\<rparr>)"

definition clearTimeout :: "nat \<Rightarrow> panel \<Rightarrow> panel" where
  "clearTimeout k p = p\<lparr>timeouts := filter (\<lambda>t. tid t \<noteq> k) (timeouts p)\<rparr>"

definition keyTimeoutLength :: nat where
  "keyTimeoutLength = 500"

definition closeSelectionTimeout :: nat where
  "closeSelectionTimeout = 300"

section \<open>Activation and focus\<close>

definition Activate :: "bool \<Rightarrow> panel \<Rightarrow> panel" where
  "Activate isActive p =
     (if isActive \<or> win_display (results_window p) = ''block'' then
        let p1 = p\<lparr>box_class := ''MSearchBoxActive''\<rparr> in
        if field_value p1 = searchLabel p1 then p1\<lparr>field_value := [], searchActive := True\<rparr> else p1
      else p\<lparr>box_class := ''MSearchBoxInactive'', field_value := searchLabel p, searchActive := False,
        lastSearchValue := [], lastResultsPage := []\<rparr>)"

definition OnSearchFieldFocus :: "bool \<Rightarrow> panel \<Rightarrow> panel" where
  "OnSearchFieldFocus isActive p = Activate isActive p"

text \<open>
  Moving the focus to or from the search field calls the handlers that \<open>initMenu\<close> gives it, at once:
  \<open>onfocus="searchBox.OnSearchFieldFocus(true)" onblur="searchBox.OnSearchFieldFocus(false)"\<close>.
\<close>

definition move_to :: "panel_focus \<Rightarrow> panel \<Rightarrow> panel" where
  "move_to f p =
     (let p1 = p\<lparr>on_focus := f\<rparr> in
      if on_focus p = f then p
      else if on_focus p = FieldFocus then OnSearchFieldFocus False p1
      else if f = FieldFocus then OnSearchFieldFocus True p1
      else p1)"

definition blur_field :: "panel \<Rightarrow> panel" where
  "blur_field p = (if on_focus p = FieldFocus then move_to NoFocus p else p)"

section \<open>The selection window\<close>

definition set_select :: "(window_style \<Rightarrow> window_style) \<Rightarrow> panel \<Rightarrow> panel" where
  "set_select f p = p\<lparr>select_window := f (select_window p)\<rparr>"

definition set_results :: "(window_style \<Rightarrow> window_style) \<Rightarrow> panel \<Rightarrow> panel" where
  "set_results f p = p\<lparr>results_window := f (results_window p)\<rparr>"

definition stop_hide_timer :: "panel \<Rightarrow> panel" where
  "stop_hide_timer p = (if hideTimeout p \<noteq> 0 then (clearTimeout (hideTimeout p) p)\<lparr>hideTimeout := 0\<rparr> else p)"

definition OnSearchSelectShow :: "layout \<Rightarrow> panel \<Rightarrow> (bool \<times> panel) option" where
  "OnSearchSelectShow lay p =
     Option.bind (getXPos (lay p) SearchSelectEl) (\<lambda>left0.
     Option.bind (getYPos (lay p) SearchSelectEl) (\<lambda>top0.
       if insideFrame p then
         let left1 = left0 + offsetWidth (lay p SearchSelectEl) + 6;
             top1 = top0 + offsetHeight (lay p SearchSelectEl);
             p1 = set_select (\<lambda>w. w\<lparr>win_display := ''block''\<rparr>) p;
             left2 = left1 - offsetWidth (lay p1 SearchSelectWindowEl);
             p2 = set_select (\<lambda>w. w\<lparr>win_left := Some left2, win_top := Some top1\<rparr>) p1
         in Some (False, stop_hide_timer p2)
       else
         let top1 = top0 + offsetHeight (lay p SearchSelectEl);
             p1 = set_select (\<lambda>w. w\<lparr>win_display := ''block''\<rparr>) p;
             p2 = set_select (\<lambda>w. w\<lparr>win_left := Some left0, win_top := Some top1\<rparr>) p1
         in Some (False, stop_hide_timer p2)))"

definition OnSearchSelectHide :: "panel \<Rightarrow> panel" where
  "OnSearchSelectHide p =
     (case setTimeout CallCloseSelectionWindow closeSelectionTimeout p of (t, p1) \<Rightarrow> p1\<lparr>hideTimeout := t\<rparr>)"

definition CloseSelectionWindow :: "panel \<Rightarrow> panel" where
  "CloseSelectionWindow p = set_select (\<lambda>w. w\<lparr>win_display := ''none''\<rparr>) p"

definition is_choice :: "choice \<Rightarrow> bool" where
  "is_choice c \<longleftrightarrow> choice_class c = ''SelectItem''"

definition SelectItemCount :: "panel \<Rightarrow> nat" where
  "SelectItemCount p = length (filter is_choice (choices p))"

fun set_marks :: "nat \<Rightarrow> nat \<Rightarrow> choice list \<Rightarrow> choice list" where
  "set_marks sel j [] = []"
| "set_marks sel j (c # cs) =
     (if is_choice c then c\<lparr>mark := if j = sel then js ''&#8226;'' else js ''&#160;''\<rparr> # set_marks sel (Suc j) cs
      else c # set_marks sel j cs)"

definition SelectItemSet :: "nat \<Rightarrow> panel \<Rightarrow> panel" where
  "SelectItemSet sel p = p\<lparr>choices := set_marks sel 0 (choices p)\<rparr>"

section \<open>Searching\<close>

text \<open>The tables of html/search/searchdata.js.\<close>

definition indexSectionsWithContent :: "js_string list" where
  "indexSectionsWithContent = [js ''abcdefghilmnprstv'', js ''s'', js ''t'', js ''abefhrt'', js ''bcefghlmnpsv'',
     js ''cdhlprs'', js ''s'', js ''bilp'', js ''pr'']"

definition indexSectionNames :: "js_string list" where
  "indexSectionNames = [js ''all'', js ''classes'', js ''namespaces'', js ''files'', js ''functions'',
     js ''variables'', js ''typedefs'', js ''defines'', js ''pages'']"

definition indexSectionLabels :: "js_string list" where
  "indexSectionLabels = [js ''All'', js ''Classes'', js ''Namespaces'', js ''Files'', js ''Functions'',
     js ''Variables'', js ''Typedefs'', js ''Macros'', js ''Pages'']"

text \<open>\<open>String.prototype.indexOf\<close>; None for \<open>-1\<close>.\<close>

fun indexOf :: "js_string \<Rightarrow> js_string \<Rightarrow> nat option" where
  "indexOf s t = (if prefix t s then Some 0
     else case s of [] \<Rightarrow> None | _ # r \<Rightarrow> map_option Suc (indexOf r t))"

definition nth_opt :: "'a list \<Rightarrow> nat \<Rightarrow> 'a option" where
  "nth_opt xs i = (if i < length xs then Some (xs ! i) else None)"

text \<open>
  The page of results for what is in the field.  \<open>toLowerCase\<close> and the comparison of a string with the number
  1 are arguments; a comparison of the code with a bound is false for the NaN of an empty string.
\<close>

definition index_char :: "(js_string \<Rightarrow> js_string) \<Rightarrow> (js_string \<Rightarrow> bool) \<Rightarrow> js_string \<Rightarrow> js_string" where
  "index_char lower above_one searchValue =
     (let idxChar = lower (take 1 searchValue) in
      case lower searchValue of
        [] \<Rightarrow> idxChar
      | code # _ \<Rightarrow> if 0xD800 \<le> code \<and> code \<le> 0xDBFF \<and> above_one searchValue then take 2 searchValue else idxChar)"

definition results_page_of ::
    "(js_string \<Rightarrow> js_string) \<Rightarrow> (js_string \<Rightarrow> bool) \<Rightarrow> js_string \<Rightarrow> panel \<Rightarrow> (js_string \<times> js_string) result" where
  "results_page_of lower above_one searchValue p =
     andThen (deref (nth_opt indexSectionsWithContent (searchIndex p))) (\<lambda>chars.
     case indexOf chars (index_char lower above_one searchValue) of
       Some idx \<Rightarrow>
         let hexCode = toString 16 idx;
             resultsPage = resultsPath p @ js ''/'' @ indexSectionNames ! searchIndex p @ js ''_'' @ hexCode @ js ''.html''
         in Inr (resultsPage, resultsPage @ js ''?'' @ escape searchValue)
     | None \<Rightarrow>
         let resultsPage = resultsPath p @ js ''/nomatches.html'' in Inr (resultsPage, resultsPage))"

definition show_results :: "layout \<Rightarrow> panel \<Rightarrow> panel option" where
  "show_results lay p =
     (if win_display (results_window p) \<noteq> ''block'' then
        let p1 = p\<lparr>close_display := ''inline''\<rparr> in
        if insideFrame p1 then
          let p2 = set_results (\<lambda>w. w\<lparr>win_position := ''relative'', win_display := ''block''\<rparr>) p1;
              width = clientWidth (lay p2 Body) - 8
          in Some ((set_results (\<lambda>w. w\<lparr>win_width := Some width\<rparr>) p2)\<lparr>results_width := Some width\<rparr>)
        else
          Option.bind (getXPos (lay p1) SearchBoxEl) (\<lambda>left0.
          Option.bind (getYPos (lay p1) SearchBoxEl) (\<lambda>top0.
            let left1 = left0 + 150;
                top1 = top0 + 20;
                p2 = set_results (\<lambda>w. w\<lparr>win_display := ''block''\<rparr>) p1;
                left2 = left1 - offsetWidth (lay p2 ResultsEl)
            in Some (set_results (\<lambda>w. w\<lparr>win_top := Some top1, win_left := Some left2\<rparr>) p2)))
      else Some p)"

text \<open>
  A handler that raises leaves what it has changed so far: the outcome is the exception, if there is one, and
  the panel.  That it does not come to an end is the outcome None.
\<close>

type_synonym outcome = "(js_error option \<times> panel) option"

definition then_do :: "outcome \<Rightarrow> (panel \<Rightarrow> panel) \<Rightarrow> outcome" where
  "then_do r f = map_option (\<lambda>(e, p). case e of None \<Rightarrow> (None, f p) | Some x \<Rightarrow> (Some x, p)) r"

definition SearchBox_Search ::
    "(js_string \<Rightarrow> js_string) \<Rightarrow> (js_string \<Rightarrow> bool) \<Rightarrow> layout \<Rightarrow> panel \<Rightarrow> outcome" where
  "SearchBox_Search lower above_one lay p0 =
     (let p = p0\<lparr>keyTimeout := 0\<rparr>;
          searchValue = strip_leading (field_value p)
      in case results_page_of lower above_one searchValue p of
        Inl e \<Rightarrow> Some (Some e, p)
      | Inr (resultsPage, resultsPageWithSearch) \<Rightarrow>
          map_option (\<lambda>p1. (None, p1\<lparr>lastSearchValue := searchValue, lastResultsPage := resultsPage\<rparr>))
            (show_results lay (p\<lparr>location := resultsPageWithSearch\<rparr>)))"

definition OnSelectItem ::
    "(js_string \<Rightarrow> js_string) \<Rightarrow> (js_string \<Rightarrow> bool) \<Rightarrow> layout \<Rightarrow> nat \<Rightarrow> panel \<Rightarrow> outcome" where
  "OnSelectItem lower above_one lay sel p =
     (let p1 = SelectItemSet sel (p\<lparr>searchIndex := sel\<rparr>);
          searchValue = strip_all (field_value p1)
      in if searchValue \<noteq> [] \<and> searchActive p1 then SearchBox_Search lower above_one lay p1
         else Some (None, p1))"

text \<open>It returns false always.\<close>

definition OnSearchSelectKey ::
    "(js_string \<Rightarrow> js_string) \<Rightarrow> (js_string \<Rightarrow> bool) \<Rightarrow> layout \<Rightarrow> nat \<Rightarrow> panel \<Rightarrow> outcome" where
  "OnSearchSelectKey lower above_one lay kc p =
     (if kc = 40 \<and> searchIndex p < SelectItemCount p then
        (let p1 = p\<lparr>searchIndex := searchIndex p + 1\<rparr> in OnSelectItem lower above_one lay (searchIndex p1) p1)
      else if kc = 38 \<and> 0 < searchIndex p then
        (let p1 = p\<lparr>searchIndex := searchIndex p - 1\<rparr> in OnSelectItem lower above_one lay (searchIndex p1) p1)
      else if kc = 13 \<or> kc = 27 then
        then_do (OnSelectItem lower above_one lay (searchIndex p) p) (\<lambda>p1. move_to FieldFocus (CloseSelectionWindow p1))
      else Some (None, p))"

section \<open>Typing\<close>

definition hide_results :: "panel \<Rightarrow> panel" where
  "hide_results p = (set_results (\<lambda>w. w\<lparr>win_display := ''none''\<rparr>) p)\<lparr>close_display := ''none''\<rparr>"

definition CloseResultsWindow :: "panel \<Rightarrow> panel" where
  "CloseResultsWindow p = Activate False (hide_results p)"

record field_key =
  key_code :: nat
  shiftKey :: bool

definition kill_key_timer :: "panel \<Rightarrow> panel" where
  "kill_key_timer p = (if keyTimeout p \<noteq> 0 then (clearTimeout (keyTimeout p) p)\<lparr>keyTimeout := 0\<rparr> else p)"

text \<open>The number of the first child with the class, for \<open>child.focus()\<close>.\<close>

fun first_choice :: "nat \<Rightarrow> choice list \<Rightarrow> nat option" where
  "first_choice i [] = None"
| "first_choice i (c # cs) = (if is_choice c then Some i else first_choice (Suc i) cs)"

text \<open>From the comment \<open>strip whitespaces\<close> to the end of the handler.\<close>

definition field_changed :: "panel \<Rightarrow> panel" where
  "field_changed p =
     (let searchValue = strip_all (field_value p) in
      if searchValue \<noteq> lastSearchValue p then
        if searchValue \<noteq> [] then
          (case setTimeout CallSearch keyTimeoutLength p of (t, p1) \<Rightarrow> p1\<lparr>keyTimeout := t\<rparr>)
        else (hide_results p)\<lparr>lastSearchValue := []\<rparr>
      else p)"

definition OnSearchFieldChange :: "layout \<Rightarrow> field_key \<Rightarrow> panel \<Rightarrow> outcome" where
  "OnSearchFieldChange lay e p0 =
     (let p = kill_key_timer p0 in
      if key_code e = 40 \<or> key_code e = 13 then
        if shiftKey e then
          map_option (\<lambda>(_, p1). (None, case first_choice 0 (choices p1) of
              Some i \<Rightarrow> move_to (ChoiceFocus i) p1
            | None \<Rightarrow> p1)) (OnSearchSelectShow lay p)
        else (case results_frame p of
            Some r \<Rightarrow> (case NavNext (doc r) 0 of
                Inl x \<Rightarrow> Some (Some x, p)
              | Inr None \<Rightarrow> Some (None, field_changed p)
              | Inr (Some i) \<Rightarrow> Some (None, field_changed (move_to (ResultFocus i) p)))
          | None \<Rightarrow> Some (None, field_changed p))
      else if key_code e = 27 then
        Some (None, Activate False ((hide_results (blur_field p))\<lparr>lastSearchValue := []\<rparr>))
      else Some (None, field_changed p))"

section \<open>Setting up\<close>

definition new_panel :: "js_string \<Rightarrow> bool \<Rightarrow> js_string \<Rightarrow> choice list \<Rightarrow> panel" where
  "new_panel path inFrame lbl cs =
     \<lparr>resultsPath = path, insideFrame = inFrame, searchLabel = lbl, keyTimeout = 0, hideTimeout = 0,
      lastSearchValue = [], lastResultsPage = [], searchIndex = 0, searchActive = False,
      field_value = lbl, box_class = ''MSearchBoxInactive'', close_display = '''',
      select_window = \<lparr>win_display = '''', win_left = None, win_top = None, win_width = None, win_position = ''''\<rparr>,
      results_window = \<lparr>win_display = '''', win_left = None, win_top = None, win_width = None, win_position = ''''\<rparr>,
      results_width = None, choices = cs, on_focus = NoFocus, timeouts = [], next_tid = 1,
      location = js ''javascript:void(0)'', results_frame = None\<rparr>"

definition select_item :: "nat \<Rightarrow> choice" where
  "select_item key = \<lparr>choice_class = ''SelectItem'', onclick = js ''searchBox.OnSelectItem('' @ decimal (int key) @ js '')'',
     mark = js ''&#160;'', label = indexSectionLabels ! key\<rparr>"

definition init_search ::
    "(js_string \<Rightarrow> js_string) \<Rightarrow> (js_string \<Rightarrow> bool) \<Rightarrow> layout \<Rightarrow> panel \<Rightarrow> outcome" where
  "init_search lower above_one lay p =
     OnSelectItem lower above_one lay 0
       (p\<lparr>choices := choices p @ map select_item [0..<length indexSectionLabels]\<rparr>)"

text \<open>A timeout that has passed is removed from those pending and its call is made.\<close>

definition fire ::
    "(js_string \<Rightarrow> js_string) \<Rightarrow> (js_string \<Rightarrow> bool) \<Rightarrow> layout \<Rightarrow> timeout \<Rightarrow> panel \<Rightarrow> outcome" where
  "fire lower above_one lay t p0 =
     (let p = p0\<lparr>timeouts := filter (\<lambda>u. tid u \<noteq> tid t) (timeouts p0)\<rparr> in
      case call t of
        CallSearch \<Rightarrow> SearchBox_Search lower above_one lay p
      | CallCloseSelectionWindow \<Rightarrow> Some (None, CloseSelectionWindow p))"

end
