(* ===== verification/Panel.thy ===== *)
theory Panel
  imports SearchBox ResultsFilter
begin

text \<open>
  From the search field to the rows that are shown: the page of results that \<open>SearchBox.Search\<close> opens, with
  the word in its address, and the filter that runs on it.
\<close>

declare js_simps [simp del]

section \<open>The layout\<close>

text \<open>What a browser guarantees: following the parents of an element comes to an end.\<close>

definition laid_out :: "layout \<Rightarrow> bool" where
  "laid_out lay \<longleftrightarrow> (\<forall>p e. getXPos (lay p) e \<noteq> None \<and> getYPos (lay p) e \<noteq> None)"

lemma laid_outD: "laid_out lay \<Longrightarrow> (\<exists>x. getXPos (lay p) e = Some x) \<and> (\<exists>y. getYPos (lay p) e = Some y)"
  by (auto simp: laid_out_def)

text \<open>A layout in which every element lies directly in the page.\<close>

definition flat_layout :: layout where
  "flat_layout p e = \<lparr>offsetLeft = 1, offsetTop = 2, offsetWidth = 3, offsetHeight = 4, clientWidth = 100, offsetParent = None\<rparr>"

lemma flat_laid_out: "laid_out flat_layout"
  by (simp add: laid_out_def getXPos_def getYPos_def sum_offsets.simps flat_layout_def)

lemma show_results_Some:
  assumes "laid_out lay"
  shows "\<exists>q. show_results lay p = Some q \<and> location q = location p \<and> win_display (results_window q) = ''block'' \<and>
    field_value q = field_value p \<and> searchIndex q = searchIndex p"
proof -
  note l = laid_outD [OF assms, of "p\<lparr>close_display := ''inline''\<rparr>" SearchBoxEl]
  then obtain x y where "getXPos (lay (p\<lparr>close_display := ''inline''\<rparr>)) SearchBoxEl = Some x"
    "getYPos (lay (p\<lparr>close_display := ''inline''\<rparr>)) SearchBoxEl = Some y" by blast
  then show ?thesis by (simp add: show_results_def Let_def set_results_def)
qed

lemma SearchBox_Search_Some:
  assumes "laid_out lay" and "results_page_of lower above_one (strip_leading (field_value p)) (p\<lparr>keyTimeout := 0\<rparr>) = Inr (r, w)"
  shows "\<exists>q. SearchBox_Search lower above_one lay p = Some (None, q) \<and> location q = w \<and> lastResultsPage q = r \<and>
    win_display (results_window q) = ''block''"
proof -
  from show_results_Some [OF assms(1), of "p\<lparr>keyTimeout := 0, location := w\<rparr>"] obtain q where
    "show_results lay (p\<lparr>keyTimeout := 0, location := w\<rparr>) = Some q" "location q = w" "win_display (results_window q) = ''block''"
    by auto
  then show ?thesis using assms(2) by (simp add: SearchBox_Search_def Let_def)
qed

section \<open>The address\<close>

text \<open>\<open>window.location.search\<close>: the part of an address from the question mark to the hash.\<close>

definition location_search :: "js_string \<Rightarrow> js_string" where
  "location_search s = dropWhile (\<lambda>c. c \<noteq> 63) (takeWhile (\<lambda>c. c \<noteq> 35) s)"

lemma location_search_query:
  assumes "set path \<inter> {63, 35} = {}"
  shows "location_search (path @ js ''?'' @ escape s) = js ''?'' @ escape s"
proof -
  have "takeWhile (\<lambda>c. c \<noteq> 35) (path @ js ''?'' @ escape s) = path @ js ''?'' @ escape s"
    using assms escape_plain [of s] by (intro takeWhile_eq_all_conv [THEN iffD2] ballI) (auto simp: js_simps)
  moreover have "dropWhile (\<lambda>c. c \<noteq> 63) (path @ js ''?'' @ escape s) = js ''?'' @ escape s"
    using assms by (subst dropWhile_append2) (auto simp: js_simps)
  ultimately show ?thesis by (simp only: location_search_def)
qed

lemma digit_plain: "n < 16 \<Longrightarrow> digit n \<noteq> 63 \<and> digit n \<noteq> 35"
  by (auto simp: digit_def word_unat_eq_iff unat_word_ariths unat_of_nat take_bit_nat_def)

lemma toString_plain: "set (toString 16 n) \<inter> {63, 35} = {}"
proof (induction n rule: less_induct)
  case (less n)
  show ?case
  proof (cases "n < 16")
    case True
    with digit_plain [of n] show ?thesis by (simp add: toString_digit)
  next
    case False
    then have "set (toString 16 (n div 16)) \<inter> {63, 35} = {}" by (intro less.IH) simp
    moreover have "toString 16 n = toString 16 (n div 16) @ [digit (n mod 16)]"
      using False by (subst toString.simps) simp
    ultimately show ?thesis using digit_plain [of "n mod 16"] by simp
  qed
qed

lemma section_name_plain: "i < length indexSectionsWithContent \<Longrightarrow> set (indexSectionNames ! i) \<inter> {63, 35} = {}"
proof -
  assume "i < length indexSectionsWithContent"
  then have "indexSectionNames ! i \<in> set indexSectionNames"
    by (intro nth_mem) (simp add: indexSectionsWithContent_def indexSectionNames_def)
  moreover have "list_all (\<lambda>s. set s \<inter> {63, 35} = {}) indexSectionNames"
    by (simp add: indexSectionNames_def js_simps)
  ultimately show ?thesis by (simp add: list_all_iff)
qed

section \<open>Sections and pages\<close>

lemma indexOf_char: "indexOf s [c] = Some k \<Longrightarrow> k < length s \<and> s ! k = c"
proof (induction s arbitrary: k)
  case (Cons a s)
  then show ?case by (cases "a = c") auto
qed simp

lemma indexOf_char_None: "indexOf s [c] = None \<longleftrightarrow> c \<notin> set s"
  by (induction s) auto

declare indexOf.simps [simp del]

text \<open>The first letter of an entry's name, and the entries on the page of a letter.\<close>

definition first_letter :: "index_entry \<Rightarrow> 16 word" where
  "first_letter en = ascii_lower (hd (fst en))"

definition page_index :: "16 word \<Rightarrow> index_entry list \<Rightarrow> index_entry list" where
  "page_index c ix = filter (\<lambda>en. first_letter en = c) ix"

lemma strip_leading_idem: "strip_leading (strip_leading s) = strip_leading s"
  by (simp add: strip_leading_def)

lemma asked_strip: "asked (strip_leading s) = asked s"
  by (simp add: asked_def trim_def strip_leading_idem)

lemma trim_hd: "trim s \<noteq> [] \<Longrightarrow> strip_leading s \<noteq> [] \<and> hd (trim s) = hd (strip_leading s)"
proof -
  assume t: "trim s \<noteq> []"
  have p: "prefix (strip_trailing w) w" for w
    unfolding strip_trailing_def using suffix_dropWhile [of _ "rev w"] by (simp add: suffix_to_prefix)
  from p [of "strip_leading s"] t obtain r where "strip_leading s = trim s @ r" by (auto simp: trim_def prefix_def)
  with t show ?thesis by (cases "trim s") auto
qed

lemma asked_letter:
  assumes "trim s \<noteq> []" and "asked s en"
  shows "fst en \<noteq> [] \<and> first_letter en = ascii_lower (hd (strip_leading s))"
proof -
  have "prefix (map ascii_lower (trim s)) (map ascii_lower (fst en))" using assms(2) by (simp add: asked_def case_prod_unfold)
  with assms(1) trim_hd [OF assms(1)] show ?thesis
    by (cases "trim s"; cases "fst en") (auto simp: first_letter_def)
qed

lemma page_index_asked:
  assumes "trim s \<noteq> []"
  shows "filter (asked s) (page_index (ascii_lower (hd (strip_leading s))) ix) = filter (asked s) ix"
  using asked_letter [OF assms] by (auto simp: page_index_def intro: filter_cong)

text \<open>The rows that are shown on a page.\<close>

definition shown_rows :: "results_page \<Rightarrow> js_string option list" where
  "shown_rows m = map elem_id (filter (\<lambda>e. is_row e \<and> display e = ''block'') (doc m))"

lemma shown_rows_of:
  assumes "map (\<lambda>e. (elem_id e, display e)) (filter is_row (doc m)) =
    map (\<lambda>en. (F en, if P en then ''block'' else ''none'')) ix"
  shows "shown_rows m = map F (filter P ix)"
proof -
  have "shown_rows m = map fst (filter (\<lambda>(x, s). s = ''block'') (map (\<lambda>e. (elem_id e, display e)) (filter is_row (doc m))))"
    by (simp add: shown_rows_def filter_map comp_def conj_commute)
  also have "\<dots> = map F (filter P ix)"
    unfolding assms by (simp add: filter_map comp_def if_distrib [of "\<lambda>s. s = ''block''"] cong: if_cong)
  finally show ?thesis .
qed

lemma index_char_ascii:
  assumes "lowers_ascii lower" and "list_all ascii s" and "s \<noteq> []"
  shows "index_char lower above_one s = [ascii_lower (hd s)]"
proof -
  obtain c r where s: "s = c # r" using assms(3) by (cases s) auto
  have "lower s = ascii_lower c # map ascii_lower r" "lower (take 1 s) = [ascii_lower c]"
    using assms(1,2) by (simp_all add: s lowers_asciiD)
  moreover have "\<not> 0xD800 \<le> ascii_lower c"
    using assms(2) ascii_lower_ascii [of c] by (simp add: s ascii_def word_less_nat_alt word_le_nat_alt)
  ultimately show ?thesis by (simp add: index_char_def s)
qed

lemma take_leading_ascii: "list_all ascii s \<Longrightarrow> list_all ascii (strip_leading s)"
  by (auto simp: strip_leading_def list_all_iff dest: set_dropWhileD)

text \<open>C3: The page of results that Search opens for a word shows exactly the entries of the section whose names
  begin with it, although it holds only those with the same first letter; where there is no page for the
  letter, no entry begins with the word.\<close>
theorem search_finds_all:
  assumes "lowers_ascii lower" and "laid_out lay" and "list_all ascii (field_value p)" and "trim (field_value p) \<noteq> []"
    and "searchIndex p < length indexSectionsWithContent" and "set (resultsPath p) \<inter> {63, 35} = {}"
    and "list_all (\<lambda>(nm, _). list_all ascii nm) ix"
    and "\<forall>en \<in> set ix. first_letter en \<in> set (indexSectionsWithContent ! searchIndex p)"
  shows "\<exists>q. SearchBox_Search lower above_one lay p = Some (None, q) \<and> win_display (results_window q) = ''block'' \<and>
    (case indexOf (indexSectionsWithContent ! searchIndex p) [ascii_lower (hd (strip_leading (field_value p)))] of
       None \<Rightarrow> location q = resultsPath p @ js ''/nomatches.html'' \<and> filter (asked (field_value p)) ix = []
     | Some k \<Rightarrow> let page = page_index (indexSectionsWithContent ! searchIndex p ! k) ix in
         lastResultsPage q = resultsPath p @ js ''/'' @ indexSectionNames ! searchIndex p @ js ''_'' @ toString 16 k @ js ''.html'' \<and>
         (\<exists>m. Search lower unescape (location_search (location q)) [] (new_results (results_dom (index_data page))) = Inr (True, m) \<and>
           shown_rows m = map (\<lambda>en. Some (js ''SR_'' @ row_code en)) (filter (asked (field_value p)) ix)))"
proof -
  let ?v = "field_value p" and ?chars = "indexSectionsWithContent ! searchIndex p"
  let ?w = "strip_leading ?v" and ?c = "ascii_lower (hd (strip_leading (field_value p)))"
  have w: "?w \<noteq> []" "list_all ascii ?w" using trim_hd [OF assms(4)] take_leading_ascii [OF assms(3)] by auto
  have ch: "index_char lower above_one ?w = [?c]" by (rule index_char_ascii [OF assms(1) w(2,1)])
  have n: "nth_opt indexSectionsWithContent (searchIndex p) = Some ?chars" using assms(5) by (simp add: nth_opt_def)
  have pages: "results_page_of lower above_one ?w (p\<lparr>keyTimeout := 0\<rparr>) = (case indexOf ?chars [?c] of
      None \<Rightarrow> Inr (resultsPath p @ js ''/nomatches.html'', resultsPath p @ js ''/nomatches.html'')
    | Some k \<Rightarrow> let r = resultsPath p @ js ''/'' @ indexSectionNames ! searchIndex p @ js ''_'' @ toString 16 k @ js ''.html''
        in Inr (r, r @ js ''?'' @ escape ?w))"
    by (simp add: results_page_of_def n ch deref_def Let_def split: option.split)
  show ?thesis
  proof (cases "indexOf ?chars [?c]")
    case None
    then have "?c \<notin> set ?chars" by (simp add: indexOf_char_None)
    with assms(8) asked_letter [OF assms(4)] have "filter (asked ?v) ix = []"
      by (auto simp: filter_empty_conv)
    with SearchBox_Search_Some [OF assms(2), of lower above_one p] pages None show ?thesis by auto
  next
    case (Some k)
    let ?r = "resultsPath p @ js ''/'' @ indexSectionNames ! searchIndex p @ js ''_'' @ toString 16 k @ js ''.html''"
    let ?page = "page_index (?chars ! k) ix"
    have k: "?chars ! k = ?c" using indexOf_char [OF Some] by simp
    from SearchBox_Search_Some [OF assms(2), of lower above_one p ?r "?r @ js ''?'' @ escape ?w"] pages Some obtain q where
      q: "SearchBox_Search lower above_one lay p = Some (None, q)" "location q = ?r @ js ''?'' @ escape ?w"
        "lastResultsPage q = ?r" "win_display (results_window q) = ''block''"
      by (auto simp: Let_def)
    have "set ?r \<inter> {63, 35} = {}"
      using assms(5,6) section_name_plain [of "searchIndex p"] toString_plain [of k] by (auto simp: js_simps)
    from location_search_query [OF this, of ?w] have loc: "location_search (location q) = js ''?'' @ escape ?w"
      by (simp only: q(2))
    have query: "query unescape (location_search (location q)) [] = ?w"
      unfolding loc by (simp add: query_def unescape_escape js_simps)
    have "list_all (\<lambda>(nm, _). list_all ascii nm) ?page" using assms(7) by (auto simp: page_index_def list_all_iff)
    from Search_filtered [OF assms(1) this, of unescape "location_search (location q)" "[]", unfolded query, OF w(2),
        of "new_results (results_dom (index_data ?page))"]
    obtain d where d: "Search lower unescape (location_search (location q)) [] (new_results (results_dom (index_data ?page))) =
        Inr (True, (new_results (results_dom (index_data ?page)))\<lparr>doc := d, lastMatchCount := length (filter (asked ?w) ?page)\<rparr>)"
      "map (\<lambda>e. (elem_id e, display e)) (filter is_row d) =
        map (\<lambda>en. (Some (js ''SR_'' @ row_code en), if asked ?w en then ''block'' else ''none'')) ?page"
      using on_page_results by (auto simp: new_results_def)
    let ?m = "(new_results (results_dom (index_data ?page)))\<lparr>doc := d, lastMatchCount := length (filter (asked ?w) ?page)\<rparr>"
    have "shown_rows ?m = map (\<lambda>en. Some (js ''SR_'' @ row_code en)) (filter (asked ?v) ix)"
      using shown_rows_of [of ?m, simplified, OF d(2)] page_index_asked [OF assms(4), of ix] k by (simp add: asked_strip)
    with d(1) q Some show ?thesis by (intro exI [of _ q]) (auto simp: Let_def)
  qed
qed

definition typed_panel :: "js_string \<Rightarrow> panel" where
  "typed_panel s = (new_panel (js ''search'') False (js ''Search'') [])\<lparr>field_value := s, on_focus := FieldFocus\<rparr>"

theorem search_finds_all_witness:
  "\<exists>q m. SearchBox_Search (map ascii_lower) (\<lambda>_. False) flat_layout (typed_panel (js '' AL'')) = Some (None, q) \<and>
    lastResultsPage q = js ''search/all_0.html'' \<and>
    Search (map ascii_lower) unescape (location_search (location q)) []
      (new_results (results_dom (index_data (page_index 97 small_index)))) = Inr (True, m) \<and>
    shown_rows m = [Some (js ''SR_alpha''), Some (js ''SR_alpine'')]"
proof -
  let ?p = "typed_panel (js '' AL'')" and ?chars = "indexSectionsWithContent ! 0"
  have p: "field_value ?p = js '' AL''" "searchIndex ?p = 0" "resultsPath ?p = js ''search''"
    by (simp_all add: typed_panel_def new_panel_def)
  have lead: "strip_leading (js '' AL'') = js ''AL''" by (simp add: strip_leading_def space_def js_simps)
  have trm: "trim (js '' AL'') = js ''AL''"
    by (simp add: trim_def lead) (simp add: strip_trailing_def space_def js_simps)
  have chars: "?chars = js ''abcdefghilmnprstv''" "?chars ! 0 = 97"
    by (simp_all add: indexSectionsWithContent_def js_simps)
  have h: "list_all ascii (field_value ?p)" "trim (field_value ?p) \<noteq> []"
    "searchIndex ?p < length indexSectionsWithContent" "set (resultsPath ?p) \<inter> {63, 35} = {}"
    "list_all (\<lambda>(nm, _). list_all ascii nm) small_index"
    "\<forall>en \<in> set small_index. first_letter en \<in> set (indexSectionsWithContent ! searchIndex ?p)"
    unfolding p trm chars
    by (simp_all add: small_index_def ascii_def js_simps indexSectionsWithContent_def first_letter_def ascii_lower_def)
  have low: "ascii_lower (hd (strip_leading (js '' AL''))) = 97"
    by (simp add: lead) (simp add: js_simps ascii_lower_def)
  have idx: "indexOf ?chars [97] = Some 0" by (simp add: chars(1) js_simps indexOf.simps)
  have found: "map (\<lambda>en. Some (js ''SR_'' @ row_code en)) (filter (asked (js '' AL'')) small_index) =
      [Some (js ''SR_alpha''), Some (js ''SR_alpine'')]"
    unfolding asked_def trm
    by (simp add: small_index_def row_code_def js_simps ascii_lower_def convertUnit_def id_char_def)
  have r: "js ''search'' @ js ''/'' @ indexSectionNames ! 0 @ js ''_'' @ toString 16 0 @ js ''.html'' = js ''search/all_0.html''"
    by (simp add: indexSectionNames_def toString_digit digit_def js_simps)
  from search_finds_all [OF lowers_ascii_map flat_laid_out h, of "\<lambda>_. False"]
  show ?thesis unfolding p low idx option.case Let_def found r chars(2) by blast
qed

end
