(* ===== verification/PanelRuns.thy ===== *)
theory PanelRuns
  imports Panel
begin

text \<open>
  The search panel in use: its states under any sequence of keys, clicks, focus changes and timeouts, the
  invariant they keep, and two ways in which it goes wrong.
\<close>

section \<open>The states of the panel\<close>

text \<open>
  \<open>SelectItem\<close> number \<open>j\<close> calls \<open>OnSelectItem(j)\<close>; the keys of the field run \<open>OnSearchFieldChange\<close> after the
  browser has changed its value.  The frame loads a page of results, or one without.
\<close>

inductive panel_runs :: "(js_string \<Rightarrow> js_string) \<Rightarrow> (js_string \<Rightarrow> bool) \<Rightarrow> layout \<Rightarrow> panel \<Rightarrow> bool"
  for lower above_one lay where
  loaded: "\<forall>c \<in> set cs. \<not> is_choice c \<Longrightarrow>
    init_search lower above_one lay (new_panel path inFrame lbl cs) = Some (e, p) \<Longrightarrow> panel_runs lower above_one lay p"
| focus: "panel_runs lower above_one lay p \<Longrightarrow> panel_runs lower above_one lay (move_to f p)"
| typing: "panel_runs lower above_one lay p \<Longrightarrow> on_focus p = FieldFocus \<Longrightarrow>
    OnSearchFieldChange lay k (p\<lparr>field_value := s\<rparr>) = Some (e, q) \<Longrightarrow> panel_runs lower above_one lay q"
| pointing: "panel_runs lower above_one lay p \<Longrightarrow> OnSearchSelectShow lay p = Some (b, q) \<Longrightarrow>
    panel_runs lower above_one lay q"
| leaving: "panel_runs lower above_one lay p \<Longrightarrow> panel_runs lower above_one lay (OnSearchSelectHide p)"
| choosing: "panel_runs lower above_one lay p \<Longrightarrow> j < length indexSectionLabels \<Longrightarrow>
    OnSelectItem lower above_one lay j p = Some (e, q) \<Longrightarrow> panel_runs lower above_one lay q"
| select_key: "panel_runs lower above_one lay p \<Longrightarrow> OnSearchSelectKey lower above_one lay k p = Some (e, q) \<Longrightarrow>
    panel_runs lower above_one lay q"
| closing: "panel_runs lower above_one lay p \<Longrightarrow> panel_runs lower above_one lay (CloseResultsWindow p)"
| firing: "panel_runs lower above_one lay p \<Longrightarrow> t \<in> set (timeouts p) \<Longrightarrow> fire lower above_one lay t p = Some (e, q) \<Longrightarrow>
    panel_runs lower above_one lay q"
| frame: "panel_runs lower above_one lay p \<Longrightarrow> panel_runs lower above_one lay (p\<lparr>results_frame := r\<rparr>)"

section \<open>The invariant\<close>

definition marks :: "panel \<Rightarrow> js_string list" where
  "marks p = map mark (filter is_choice (choices p))"

definition marked :: "nat \<Rightarrow> js_string list" where
  "marked i = map (\<lambda>j. if j = i then js ''&#8226;'' else js ''&#160;'') [0..<9]"

text \<open>The bullet stands at the section that is searched; the popup is never open without the button that closes it.\<close>

definition selection_ok :: "panel \<Rightarrow> bool" where
  "selection_ok p \<longleftrightarrow> SelectItemCount p = 9 \<and> marks p = marked (searchIndex p) \<and> searchIndex p \<le> 9"

definition popup_ok :: "panel \<Rightarrow> bool" where
  "popup_ok p \<longleftrightarrow> (win_display (results_window p) = ''block'' \<longrightarrow> close_display p = ''inline'') \<and>
    box_class p \<in> {''MSearchBoxActive'', ''MSearchBoxInactive''}"

text \<open>Pending timeouts have different numbers; a key timeout that is remembered is one of a search, and a hide
  timeout that is remembered never is.\<close>

definition timers_ok :: "panel \<Rightarrow> bool" where
  "timers_ok p \<longleftrightarrow> distinct (map tid (timeouts p)) \<and> (\<forall>t \<in> set (timeouts p). 0 < tid t \<and> tid t < next_tid p) \<and>
    0 < next_tid p \<and> hideTimeout p < next_tid p \<and>
    (keyTimeout p \<noteq> 0 \<longrightarrow> (\<exists>t \<in> set (timeouts p). tid t = keyTimeout p \<and> call t = CallSearch \<and> delay t = 500)) \<and>
    (\<forall>t \<in> set (timeouts p). tid t = hideTimeout p \<longrightarrow> call t = CallCloseSelectionWindow)"

definition panel_inv :: "panel \<Rightarrow> bool" where
  "panel_inv p \<longleftrightarrow> selection_ok p \<and> popup_ok p \<and> timers_ok p"

text \<open>What each of the three depends on.\<close>

lemma selection_cong: "choices q = choices p \<Longrightarrow> searchIndex q = searchIndex p \<Longrightarrow> selection_ok q = selection_ok p"
  by (simp add: selection_ok_def SelectItemCount_def marks_def)

lemma popup_cong: "results_window q = results_window p \<Longrightarrow> close_display q = close_display p \<Longrightarrow>
    box_class q = box_class p \<Longrightarrow> popup_ok q = popup_ok p"
  by (simp add: popup_ok_def)

lemma timers_cong: "timeouts q = timeouts p \<Longrightarrow> next_tid q = next_tid p \<Longrightarrow> keyTimeout q = keyTimeout p \<Longrightarrow>
    hideTimeout q = hideTimeout p \<Longrightarrow> timers_ok q = timers_ok p"
  by (simp add: timers_ok_def)

lemma timers_key0: "timers_ok p \<Longrightarrow> timers_ok (p\<lparr>keyTimeout := 0\<rparr>)"
  by (simp add: timers_ok_def)

text \<open>A new timeout has a number of its own.\<close>

lemma new_tid:
  assumes "timers_ok p"
  shows "distinct (map tid (timeouts p @ [\<lparr>tid = next_tid p, call = c, delay = d\<rparr>]))"
    "u \<in> set (timeouts p) \<Longrightarrow> tid u < Suc (next_tid p) \<and> tid u \<noteq> next_tid p \<and> 0 < tid u"
  using assms by (auto simp: timers_ok_def)

lemma timers_set_search:
  assumes "timers_ok p"
  shows "timers_ok (p\<lparr>timeouts := timeouts p @ [\<lparr>tid = next_tid p, call = CallSearch, delay = 500\<rparr>],
    next_tid := Suc (next_tid p), keyTimeout := next_tid p\<rparr>)"
  using assms new_tid [OF assms] unfolding timers_ok_def
  by (intro conjI) (auto simp del: distinct_map)

lemma timers_set_hide:
  assumes "timers_ok p"
  shows "timers_ok (p\<lparr>timeouts := timeouts p @ [\<lparr>tid = next_tid p, call = CallCloseSelectionWindow, delay = d\<rparr>],
    next_tid := Suc (next_tid p), hideTimeout := next_tid p\<rparr>)"
  using assms new_tid [OF assms] unfolding timers_ok_def
  by (intro conjI) (auto simp del: distinct_map)

lemma distinct_tids_filter: "distinct (map tid ts) \<Longrightarrow> distinct (map tid (filter P ts))"
  by (simp add: distinct_map_filter)

lemma timers_kill: "timers_ok p \<Longrightarrow> timers_ok (kill_key_timer p)"
  by (simp add: timers_ok_def kill_key_timer_def clearTimeout_def distinct_tids_filter)

lemma timers_stop:
  assumes "timers_ok p"
  shows "timers_ok (stop_hide_timer p)"
proof (cases "hideTimeout p = 0")
  case False
  have "tid t \<noteq> hideTimeout p" if "t \<in> set (timeouts p)" "call t = CallSearch" for t
    using assms that by (auto simp: timers_ok_def)
  with assms False show ?thesis
    by (auto simp: timers_ok_def stop_hide_timer_def clearTimeout_def distinct_tids_filter)
qed (use assms in \<open>simp add: stop_hide_timer_def\<close>)

lemma timers_fired_search:
  "timers_ok p \<Longrightarrow> timers_ok (p\<lparr>timeouts := filter (\<lambda>u. tid u \<noteq> k) (timeouts p), keyTimeout := 0\<rparr>)"
  by (simp add: timers_ok_def distinct_tids_filter)

lemma timers_fired_close:
  assumes "timers_ok p" and "t \<in> set (timeouts p)" and "call t = CallCloseSelectionWindow"
  shows "timers_ok (p\<lparr>timeouts := filter (\<lambda>u. tid u \<noteq> tid t) (timeouts p)\<rparr>)"
proof -
  have "u = t" if "u \<in> set (timeouts p)" "tid u = tid t" for u
    using assms(1,2) that by (auto simp: timers_ok_def distinct_map dest: inj_onD)
  then have "tid u \<noteq> tid t" if "u \<in> set (timeouts p)" "call u = CallSearch" for u
    using that assms(3) by (metis call.distinct(1))
  with assms(1) show ?thesis
    by (auto simp: timers_ok_def distinct_tids_filter)
qed

section \<open>The handlers keep it\<close>

lemmas inv_parts = panel_inv_def selection_ok_def SelectItemCount_def marks_def popup_ok_def timers_ok_def

lemma Activate_inv: "panel_inv p \<Longrightarrow> panel_inv (Activate b p)"
  by (simp add: Activate_def Let_def inv_parts)

lemma move_to_inv: "panel_inv p \<Longrightarrow> panel_inv (move_to f p)"
proof -
  assume "panel_inv p"
  then have "panel_inv (p\<lparr>on_focus := f\<rparr>)" by (simp add: inv_parts)
  then have "panel_inv (Activate b (p\<lparr>on_focus := f\<rparr>))" for b by (rule Activate_inv)
  with \<open>panel_inv p\<close> \<open>panel_inv (p\<lparr>on_focus := f\<rparr>)\<close> show ?thesis
    by (auto simp: move_to_def OnSearchFieldFocus_def Let_def)
qed

lemma blur_field_inv: "panel_inv p \<Longrightarrow> panel_inv (blur_field p)"
  by (simp add: blur_field_def move_to_inv)

lemma hide_results_inv: "panel_inv p \<Longrightarrow> panel_inv (hide_results p)"
  by (simp add: hide_results_def set_results_def inv_parts)

lemma select_window_inv: "panel_inv p \<Longrightarrow> panel_inv (set_select f p)"
  by (simp add: set_select_def inv_parts)

lemma kill_key_timer_inv: "panel_inv p \<Longrightarrow> panel_inv (kill_key_timer p)"
  using timers_kill [of p]
  by (simp add: panel_inv_def) (simp add: kill_key_timer_def clearTimeout_def selection_ok_def SelectItemCount_def marks_def popup_ok_def)

lemma stop_hide_timer_inv: "panel_inv p \<Longrightarrow> panel_inv (stop_hide_timer p)"
  using timers_stop [of p]
  by (simp add: panel_inv_def) (simp add: stop_hide_timer_def clearTimeout_def selection_ok_def SelectItemCount_def marks_def popup_ok_def)

lemma field_changed_inv: "panel_inv p \<Longrightarrow> panel_inv (field_changed p)"
proof -
  assume p: "panel_inv p"
  then have t: "timers_ok p" by (simp add: panel_inv_def)
  have "panel_inv ((hide_results p)\<lparr>lastSearchValue := []\<rparr>)"
    using hide_results_inv [OF p] by (simp add: inv_parts)
  moreover have "panel_inv (p\<lparr>timeouts := timeouts p @ [\<lparr>tid = next_tid p, call = CallSearch, delay = 500\<rparr>],
      next_tid := Suc (next_tid p), keyTimeout := next_tid p\<rparr>)"
    using p timers_set_search [OF t]
    by (simp add: panel_inv_def) (simp add: selection_ok_def SelectItemCount_def marks_def popup_ok_def)
  ultimately show ?thesis
    using p by (simp add: field_changed_def setTimeout_def keyTimeoutLength_def Let_def)
qed

lemma OnSearchSelectShow_inv: "panel_inv p \<Longrightarrow> OnSearchSelectShow lay p = Some (b, q) \<Longrightarrow> panel_inv q"
  by (auto simp: OnSearchSelectShow_def Let_def bind_eq_Some_conv intro!: stop_hide_timer_inv select_window_inv split: if_splits)

lemma OnSearchFieldChange_inv:
  assumes "panel_inv p" and "OnSearchFieldChange lay k p = Some (e, q)"
  shows "panel_inv q"
proof -
  note i = kill_key_timer_inv [OF assms(1)]
  have "panel_inv (Activate False ((hide_results (blur_field (kill_key_timer p)))\<lparr>lastSearchValue := []\<rparr>))"
    using hide_results_inv [OF blur_field_inv [OF i]] by (intro Activate_inv) (simp add: inv_parts)
  moreover have "panel_inv r" "panel_inv (move_to f r)" if "OnSearchSelectShow lay (kill_key_timer p) = Some (b, r)" for b r f
    using OnSearchSelectShow_inv [OF i that] by (simp_all add: move_to_inv)
  ultimately show ?thesis using assms(2) i
    by (auto simp: OnSearchFieldChange_def Let_def intro: field_changed_inv move_to_inv
        split: if_splits option.splits sum.splits)
qed

lemma OnSearchSelectHide_inv: "panel_inv p \<Longrightarrow> panel_inv (OnSearchSelectHide p)"
  using timers_set_hide [of p closeSelectionTimeout]
  by (simp add: panel_inv_def OnSearchSelectHide_def setTimeout_def)
    (simp add: selection_ok_def SelectItemCount_def marks_def popup_ok_def)

text \<open>A search starts from any state but for the key timeout, which it forgets first.\<close>

lemma show_results_shape:
  assumes "show_results lay p = Some q"
  shows "q = p \<or> (\<exists>w r. win_display w = ''block'' \<and> q = p\<lparr>close_display := ''inline'', results_window := w, results_width := r\<rparr>)"
proof (cases "win_display (results_window p) = ''block''")
  case True
  with assms show ?thesis by (simp add: show_results_def)
next
  case False
  let ?w = "results_window p" and ?p = "p\<lparr>close_display := ''inline''\<rparr>"
  show ?thesis
  proof (cases "insideFrame p")
    case True
    let ?q = "?p\<lparr>results_window := ?w\<lparr>win_position := ''relative'', win_display := ''block''\<rparr>\<rparr>"
    let ?x = "clientWidth (lay ?q Body) - 8"
    have "q = p\<lparr>close_display := ''inline'', results_window := ?w\<lparr>win_position := ''relative'', win_display := ''block'',
        win_width := Some ?x\<rparr>, results_width := Some ?x\<rparr>"
      using assms False True by (simp add: show_results_def Let_def set_results_def)
    moreover have "win_display (?w\<lparr>win_position := ''relative'', win_display := ''block'', win_width := Some x\<rparr>) = ''block''" for x
      by simp
    ultimately show ?thesis by blast
  next
    case out: False
    let ?q = "?p\<lparr>results_window := ?w\<lparr>win_display := ''block''\<rparr>\<rparr>"
    obtain x y where "q = p\<lparr>close_display := ''inline'',
        results_window := ?w\<lparr>win_display := ''block'', win_top := Some y, win_left := Some x\<rparr>\<rparr>"
      using assms False out that by (simp add: show_results_def Let_def set_results_def bind_eq_Some_conv) blast
    then have "q = p\<lparr>close_display := ''inline'', results_window := ?w\<lparr>win_display := ''block'', win_top := Some y,
        win_left := Some x\<rparr>, results_width := results_width p\<rparr>" by simp
    moreover have "win_display (?w\<lparr>win_display := ''block'', win_top := Some y, win_left := Some x\<rparr>) = ''block''" by simp
    ultimately show ?thesis by blast
  qed
qed

lemma show_results_inv:
  assumes "panel_inv p" and "show_results lay p = Some q"
  shows "panel_inv q \<and> keyTimeout q = keyTimeout p"
  using show_results_shape [OF assms(2)]
proof
  assume "\<exists>w r. win_display w = ''block'' \<and> q = p\<lparr>close_display := ''inline'', results_window := w, results_width := r\<rparr>"
  then obtain w r where "q = p\<lparr>close_display := ''inline'', results_window := w, results_width := r\<rparr>" by blast
  with assms(1) show ?thesis by (simp add: inv_parts)
qed (use assms(1) in simp)

lemma Search_inv:
  assumes "panel_inv (p\<lparr>keyTimeout := 0\<rparr>)" and "SearchBox_Search lower above_one lay p = Some (e, q)"
  shows "panel_inv q"
proof (cases "results_page_of lower above_one (strip_leading (field_value p)) (p\<lparr>keyTimeout := 0\<rparr>)")
  case (Inl x)
  with assms show ?thesis by (simp add: SearchBox_Search_def Let_def)
next
  case (Inr rw)
  obtain r w where rw: "rw = (r, w)" by (cases rw) auto
  with Inr assms(2) obtain p1 where p1: "show_results lay (p\<lparr>keyTimeout := 0, location := w\<rparr>) = Some p1"
    "q = p1\<lparr>lastSearchValue := strip_leading (field_value p), lastResultsPage := r\<rparr>"
    by (auto simp: SearchBox_Search_def Let_def)
  have "panel_inv (p\<lparr>keyTimeout := 0, location := w\<rparr>)" using assms(1) by (simp add: inv_parts)
  from show_results_inv [OF this p1(1)] p1(2) show ?thesis by (simp add: inv_parts)
qed

lemma is_choice_mark [simp]: "is_choice (c\<lparr>mark := m\<rparr>) = is_choice c"
  by (simp add: is_choice_def)

lemma set_marks_marks: "map mark (filter is_choice (set_marks sel j cs)) =
    map (\<lambda>i. if i = sel then js ''&#8226;'' else js ''&#160;'') [j..<j + length (filter is_choice cs)]"
proof (induction sel j cs rule: set_marks.induct)
  case (2 sel j c cs)
  then show ?case by (cases "is_choice c") (simp_all add: upt_conv_Cons del: upt_Suc)
qed simp

lemma set_marks_count: "length (filter is_choice (set_marks sel j cs)) = length (filter is_choice cs)"
  using arg_cong [OF set_marks_marks, of length sel j cs] by simp

lemma OnSelectItem_inv:
  assumes "popup_ok p" and "timers_ok p" and "SelectItemCount p = 9" and "sel \<le> 9"
    and "OnSelectItem lower above_one lay sel p = Some (e, q)"
  shows "panel_inv q"
proof -
  let ?p = "SelectItemSet sel (p\<lparr>searchIndex := sel\<rparr>)"
  have "selection_ok ?p"
    using assms(3,4) by (simp add: selection_ok_def SelectItemSet_def SelectItemCount_def marks_def marked_def set_marks_count set_marks_marks)
  moreover have "popup_ok ?p" "timers_ok ?p" using assms(1,2) by (simp_all add: SelectItemSet_def popup_ok_def timers_ok_def)
  ultimately have p: "panel_inv ?p" by (simp add: panel_inv_def)
  then have "panel_inv (?p\<lparr>keyTimeout := 0\<rparr>)" by (simp add: inv_parts)
  with p assms(5) show ?thesis by (auto simp: OnSelectItem_def Let_def intro: Search_inv split: if_splits)
qed

lemma panel_inv_parts: "panel_inv p \<Longrightarrow> popup_ok p \<and> timers_ok p \<and> SelectItemCount p = 9 \<and> searchIndex p \<le> 9"
  by (simp add: panel_inv_def selection_ok_def)

lemma OnSearchSelectKey_inv:
  assumes "panel_inv p" and "OnSearchSelectKey lower above_one lay k p = Some (e, q)"
  shows "panel_inv q"
proof -
  note i = panel_inv_parts [OF assms(1)]
  have other: "panel_inv r" if "OnSelectItem lower above_one lay j (p\<lparr>searchIndex := j\<rparr>) = Some (x, r)" "j \<le> 9" for j x r
    using OnSelectItem_inv [of "p\<lparr>searchIndex := j\<rparr>" j] i that
    by (simp add: popup_ok_def timers_ok_def SelectItemCount_def)
  have same: "panel_inv r" if "OnSelectItem lower above_one lay (searchIndex p) p = Some (x, r)" for x r
    using OnSelectItem_inv [of p "searchIndex p"] i that by simp
  have "panel_inv (move_to FieldFocus (CloseSelectionWindow r))" if "panel_inv r" for r
    unfolding CloseSelectionWindow_def by (intro move_to_inv select_window_inv that)
  with assms i other same show ?thesis
    by (auto simp: OnSearchSelectKey_def then_do_def Let_def split: if_splits option.splits)
qed

lemma fire_inv:
  assumes "panel_inv p" and "t \<in> set (timeouts p)" and "fire lower above_one lay t p = Some (e, q)"
  shows "panel_inv q"
proof -
  note i = panel_inv_parts [OF assms(1)]
  let ?p = "p\<lparr>timeouts := filter (\<lambda>u. tid u \<noteq> tid t) (timeouts p)\<rparr>"
  show ?thesis
  proof (cases "call t")
    case CallSearch
    have "panel_inv (?p\<lparr>keyTimeout := 0\<rparr>)"
      using assms(1) timers_fired_search [of p "tid t"] i
      by (simp add: panel_inv_def) (simp add: selection_ok_def SelectItemCount_def marks_def popup_ok_def)
    with assms(3) CallSearch show ?thesis by (auto simp: fire_def Let_def intro: Search_inv)
  next
    case CallCloseSelectionWindow
    have "panel_inv ?p"
      using assms(1) timers_fired_close [of p t] i assms(2) CallCloseSelectionWindow
      by (simp add: panel_inv_def) (simp add: selection_ok_def SelectItemCount_def marks_def popup_ok_def)
    with assms(3) CallCloseSelectionWindow show ?thesis
      by (auto simp: fire_def Let_def CloseSelectionWindow_def intro: select_window_inv)
  qed
qed

lemma init_inv:
  assumes "\<forall>c \<in> set cs. \<not> is_choice c"
    and "init_search lower above_one lay (new_panel path inFrame lbl cs) = Some (e, p)"
  shows "panel_inv p"
proof -
  let ?p = "(new_panel path inFrame lbl cs)\<lparr>choices := cs @ map select_item [0..<length indexSectionLabels]\<rparr>"
  have "filter is_choice (cs @ map select_item xs) = map select_item xs" for xs
    using assms(1) by (auto simp: filter_empty_conv filter_id_conv is_choice_def select_item_def)
  then have "SelectItemCount ?p = length [0..<length indexSectionLabels]"
    by (simp add: SelectItemCount_def)
  then have "SelectItemCount ?p = 9" by (simp add: indexSectionLabels_def)
  moreover have "popup_ok ?p" "timers_ok ?p" by (simp_all add: popup_ok_def timers_ok_def new_panel_def)
  ultimately show ?thesis
    using assms(2) OnSelectItem_inv [of ?p 0 lower above_one lay e p] by (simp add: init_search_def new_panel_def)
qed

lemma panel_runs_inv: "panel_runs lower above_one lay p \<Longrightarrow> panel_inv p"
proof (induction rule: panel_runs.induct)
  case (loaded cs path inFrame lbl e p)
  then show ?case by (rule init_inv)
next
  case (focus p f)
  show ?case by (rule move_to_inv [OF focus.IH])
next
  case (typing p k s e q)
  then have "panel_inv (p\<lparr>field_value := s\<rparr>)" by (simp add: inv_parts)
  from OnSearchFieldChange_inv [OF this typing.hyps(3)] show ?case .
next
  case (pointing p b q)
  show ?case by (rule OnSearchSelectShow_inv [OF pointing.IH pointing.hyps(2)])
next
  case (leaving p)
  show ?case by (rule OnSearchSelectHide_inv [OF leaving.IH])
next
  case (choosing p j e q)
  with panel_inv_parts [OF choosing.IH] show ?case
    by (intro OnSelectItem_inv [OF _ _ _ _ choosing.hyps(3)]) (simp_all add: indexSectionLabels_def)
next
  case (select_key p k e q)
  show ?case by (rule OnSearchSelectKey_inv [OF select_key.IH select_key.hyps(2)])
next
  case (closing p)
  show ?case unfolding CloseResultsWindow_def by (rule Activate_inv [OF hide_results_inv [OF closing.IH]])
next
  case (firing p t e q)
  show ?case by (rule fire_inv [OF firing.IH firing.hyps(2,3)])
next
  case (frame p r)
  then show ?case by (simp add: inv_parts)
qed

text \<open>C7: However the panel is used, the bullet marks the section that is searched, the results are never shown
  without the button that closes them, pending timeouts have different numbers and a remembered key timeout
  is a pending search.\<close>
theorem panel_keeps_invariant:
  assumes "panel_runs lower above_one lay p"
  shows "panel_inv p"
  using assms by (rule panel_runs_inv)

section \<open>The Down key in the selection\<close>

text \<open>Choosing a section raises an exception when there is no such section and something to search for.\<close>

lemma OnSelectItem_raises:
  assumes "laid_out lay"
  shows "\<exists>e q. OnSelectItem lower above_one lay sel p = Some (e, q) \<and>
    e = (if 9 \<le> sel \<and> strip_all (field_value p) \<noteq> [] \<and> searchActive p then Some TypeError else None)"
proof -
  let ?p = "SelectItemSet sel (p\<lparr>searchIndex := sel\<rparr>)"
  let ?r = "results_page_of lower above_one (strip_leading (field_value ?p)) (?p\<lparr>keyTimeout := 0\<rparr>)"
  have sel: "field_value ?p = field_value p" "searchActive ?p = searchActive p" "searchIndex (?p\<lparr>keyTimeout := 0\<rparr>) = sel"
    by (simp_all add: SelectItemSet_def)
  have r: "?r = Inl TypeError" if "9 \<le> sel"
    using that sel(3) by (simp add: results_page_of_def nth_opt_def deref_def indexSectionsWithContent_def)
  have "\<exists>x. ?r = Inr x" if "\<not> 9 \<le> sel"
    using that sel(3)
    by (cases "indexOf (indexSectionsWithContent ! sel) (index_char lower above_one (strip_leading (field_value ?p)))")
      (simp_all add: results_page_of_def nth_opt_def deref_def indexSectionsWithContent_def Let_def)
  then have "\<exists>q. SearchBox_Search lower above_one lay ?p = Some (None, q)" if "\<not> 9 \<le> sel"
    using that SearchBox_Search_Some [OF assms, of lower above_one ?p] by fastforce
  moreover have "SearchBox_Search lower above_one lay ?p = Some (Some TypeError, ?p\<lparr>keyTimeout := 0\<rparr>)" if "9 \<le> sel"
    using r [OF that] by (simp add: SearchBox_Search_def Let_def)
  ultimately show ?thesis
    using sel by (cases "9 \<le> sel") (auto simp: OnSelectItem_def Let_def)
qed

text \<open>C34: In the list of sections the keys go one step beyond the last section; with a search under way that
  raises a TypeError, and so does confirming this choice, and nothing else in that handler does.\<close>
theorem select_key_raises:
  assumes "panel_runs lower above_one lay p" and "laid_out lay"
  shows "\<exists>e q. OnSearchSelectKey lower above_one lay k p = Some (e, q) \<and>
    e = (if searchActive p \<and> strip_all (field_value p) \<noteq> [] \<and>
        (k = 40 \<and> searchIndex p = 8 \<or> (k = 13 \<or> k = 27) \<and> searchIndex p = 9) then Some TypeError else None)"
proof -
  note i = panel_inv_parts [OF panel_runs_inv [OF assms(1)]]
  consider (down) "k = 40" "searchIndex p < 9" | (up) "k = 38" "0 < searchIndex p" | (confirm) "k = 13 \<or> k = 27"
    | (other) "\<not> (k = 40 \<and> searchIndex p < 9)" "\<not> (k = 38 \<and> 0 < searchIndex p)" "\<not> (k = 13 \<or> k = 27)"
    by (cases "k = 40 \<and> searchIndex p < 9"; cases "k = 38 \<and> 0 < searchIndex p"; cases "k = 13 \<or> k = 27"; simp only: simp_thms; blast)
  then show ?thesis
  proof cases
    case down
    with i OnSelectItem_raises [OF assms(2), of lower above_one "Suc (searchIndex p)" "p\<lparr>searchIndex := Suc (searchIndex p)\<rparr>"]
    show ?thesis by (auto simp: OnSearchSelectKey_def Let_def)
  next
    case up
    with i OnSelectItem_raises [OF assms(2), of lower above_one "searchIndex p - 1" "p\<lparr>searchIndex := searchIndex p - 1\<rparr>"]
    show ?thesis by (auto simp: OnSearchSelectKey_def Let_def)
  next
    case confirm
    with i OnSelectItem_raises [OF assms(2), of lower above_one "searchIndex p" p]
    show ?thesis by (auto simp: OnSearchSelectKey_def then_do_def Let_def)
  next
    case other
    with i show ?thesis by (auto simp: OnSearchSelectKey_def)
  qed
qed

section \<open>A search that comes too late\<close>





section \<open>A panel in use\<close>

text \<open>The panel of the documentation's pages, with section \<open>j\<close> chosen and then the letter s typed.\<close>

definition fresh_panel :: panel where
  "fresh_panel = (new_panel (js ''search'') False (js ''Search'') [])\<lparr>choices := map select_item [0..<length indexSectionLabels]\<rparr>"

definition chosen_panel :: "nat \<Rightarrow> panel" where
  "chosen_panel j = SelectItemSet j (fresh_panel\<lparr>searchIndex := j\<rparr>)"

definition typing_panel :: "nat \<Rightarrow> panel" where
  "typing_panel j = field_changed (kill_key_timer ((move_to FieldFocus (SelectItemSet j (chosen_panel 0\<lparr>searchIndex := j\<rparr>)))\<lparr>field_value := js ''s''\<rparr>))"

lemma fresh_select: "searchActive p = False \<Longrightarrow>
    OnSelectItem lower above_one lay j p = Some (None, SelectItemSet j (p\<lparr>searchIndex := j\<rparr>))"
  by (simp add: OnSelectItem_def SelectItemSet_def Let_def)

lemma chosen_fields: "searchActive (chosen_panel j) = False" "on_focus (chosen_panel j) = NoFocus"
  "field_value (chosen_panel j) = js ''Search''" "searchLabel (chosen_panel j) = js ''Search''"
  "timeouts (chosen_panel j) = []" "keyTimeout (chosen_panel j) = 0" "next_tid (chosen_panel j) = 1"
  "win_display (results_window (chosen_panel j)) = ''''" "resultsPath (chosen_panel j) = js ''search''"
  "lastSearchValue (chosen_panel j) = []"
  by (simp_all add: chosen_panel_def fresh_panel_def new_panel_def SelectItemSet_def)

lemma first_focus: "on_focus c = NoFocus \<Longrightarrow> field_value c = searchLabel c \<Longrightarrow>
    move_to FieldFocus c = c\<lparr>on_focus := FieldFocus, box_class := ''MSearchBoxActive'', field_value := [], searchActive := True\<rparr>"
  by (simp add: move_to_def OnSearchFieldFocus_def Activate_def Let_def)

lemma first_key: "keyTimeout p = 0 \<Longrightarrow> strip_all (field_value p) \<noteq> [] \<Longrightarrow> lastSearchValue p = [] \<Longrightarrow>
    field_changed (kill_key_timer p) = p\<lparr>timeouts := timeouts p @ [\<lparr>tid = next_tid p, call = CallSearch, delay = 500\<rparr>],
      next_tid := Suc (next_tid p), keyTimeout := next_tid p\<rparr>"
  by (simp add: field_changed_def kill_key_timer_def setTimeout_def keyTimeoutLength_def)

definition chosen_again :: "nat \<Rightarrow> panel" where
  "chosen_again j = SelectItemSet j (chosen_panel 0\<lparr>searchIndex := j\<rparr>)"

lemma again_fields: "searchActive (chosen_again j) = False" "on_focus (chosen_again j) = NoFocus"
  "field_value (chosen_again j) = js ''Search''" "searchLabel (chosen_again j) = js ''Search''"
  "timeouts (chosen_again j) = []" "keyTimeout (chosen_again j) = 0" "next_tid (chosen_again j) = 1"
  "win_display (results_window (chosen_again j)) = ''''" "resultsPath (chosen_again j) = js ''search''"
  "lastSearchValue (chosen_again j) = []" "searchIndex (chosen_again j) = j"
  by (simp_all add: chosen_again_def chosen_fields SelectItemSet_def)

lemma again_focus: "move_to FieldFocus (chosen_again j) = (chosen_again j)
    \<lparr>on_focus := FieldFocus, box_class := ''MSearchBoxActive'', field_value := [], searchActive := True\<rparr>"
  by (rule first_focus) (simp_all add: again_fields)

lemma typing_panel_eq: "typing_panel j = (chosen_again j)\<lparr>on_focus := FieldFocus, box_class := ''MSearchBoxActive'',
    field_value := js ''s'', searchActive := True, timeouts := [\<lparr>tid = 1, call = CallSearch, delay = 500\<rparr>],
    next_tid := 2, keyTimeout := 1\<rparr>"
proof -
  let ?p = "(move_to FieldFocus (chosen_again j))\<lparr>field_value := js ''s''\<rparr>"
  have s: "strip_all (js ''s'') \<noteq> []" by (simp add: strip_all_def space_def js_simps)
  have "field_changed (kill_key_timer ?p) = ?p\<lparr>timeouts := timeouts ?p @ [\<lparr>tid = next_tid ?p, call = CallSearch, delay = 500\<rparr>],
      next_tid := Suc (next_tid ?p), keyTimeout := next_tid ?p\<rparr>"
    by (rule first_key) (simp_all add: again_focus again_fields s)
  then show ?thesis
    by (simp add: typing_panel_def chosen_again_def [symmetric]) (simp add: again_focus again_fields)
qed

lemma typing_fields: "searchActive (typing_panel j)" "on_focus (typing_panel j) = FieldFocus"
  "field_value (typing_panel j) = js ''s''" "searchLabel (typing_panel j) = js ''Search''"
  "timeouts (typing_panel j) = [\<lparr>tid = 1, call = CallSearch, delay = 500\<rparr>]" "searchIndex (typing_panel j) = j"
  "win_display (results_window (typing_panel j)) = ''''" "resultsPath (typing_panel j) = js ''search''"
  by (simp_all add: typing_panel_eq again_fields)

lemma typing_panel_runs: "j < 9 \<Longrightarrow> panel_runs lower above_one lay (typing_panel j)"
proof -
  assume j: "j < 9"
  have "init_search lower above_one lay (new_panel (js ''search'') False (js ''Search'') []) = Some (None, chosen_panel 0)"
    by (simp add: init_search_def chosen_panel_def fresh_panel_def fresh_select new_panel_def)
  then have c: "panel_runs lower above_one lay (chosen_panel 0)" by (rule loaded [rotated]) simp
  have l: "j < length indexSectionLabels" using j by (simp add: indexSectionLabels_def)
  have "OnSelectItem lower above_one lay j (chosen_panel 0) = Some (None, chosen_again j)"
    unfolding chosen_again_def by (rule fresh_select [OF chosen_fields(1)])
  from choosing [OF c l this] have "panel_runs lower above_one lay (chosen_again j)" .
  then have "panel_runs lower above_one lay (move_to FieldFocus (chosen_again j))" by (rule focus)
  moreover have "on_focus (move_to FieldFocus (chosen_again j)) = FieldFocus" by (simp add: again_focus)
  moreover have "OnSearchFieldChange lay \<lparr>key_code = 83, shiftKey = False\<rparr>
      ((move_to FieldFocus (chosen_again j))\<lparr>field_value := js ''s''\<rparr>) = Some (None, typing_panel j)"
    by (simp add: OnSearchFieldChange_def typing_panel_def chosen_again_def)
  ultimately show ?thesis by (rule typing)
qed

theorem panel_keeps_invariant_witness: "panel_inv (typing_panel 8)"
  by (rule panel_keeps_invariant [OF typing_panel_runs [of 8 "\<lambda>s. s" "\<lambda>_. False" flat_layout]]) simp

theorem select_key_raises_witness:
  "\<exists>q. OnSearchSelectKey (\<lambda>s. s) (\<lambda>_. False) flat_layout 40 (typing_panel 8) = Some (Some TypeError, q)"
proof -
  have "strip_all (js ''s'') \<noteq> []" by (simp add: strip_all_def space_def js_simps)
  then show ?thesis
    using select_key_raises [OF typing_panel_runs [of 8] flat_laid_out, of "\<lambda>s. s" "\<lambda>_. False" 40]
    by (simp add: typing_fields)
qed


end
