(* ===== verification/Menu.thy ===== *)
theory Menu
  imports Main "HOL-Library.Sublist"
begin

text \<open>
  The menu of the documentation's pages: \<open>makeTree\<close> of html/menu.js, which writes the data of html/menudata.js
  as nested lists of links, and what can be read back from them.
\<close>

section \<open>makeTree\<close>

text \<open>An entry of the menu; \<open>children\<close> is missing in a leaf.\<close>

datatype menu_entry = MenuEntry (menu_text: string) (menu_url: string) (menu_children: "menu_entry list option")

text \<open>The object \<open>data\<close> counts for its \<open>children\<close> alone.\<close>

fun makeTree :: "menu_entry list option \<Rightarrow> string \<Rightarrow> string"
  and makeItems :: "menu_entry list \<Rightarrow> string \<Rightarrow> string" where
  "makeTree None relPath = ''''"
| "makeTree (Some cs) relPath = ''<ul>'' @ makeItems cs relPath @ ''</ul>''"
| "makeItems [] relPath = ''''"
| "makeItems (MenuEntry text url children # cs) relPath =
     ''<li><a href=\"'' @ relPath @ url @ ''\">'' @ text @ ''</a>'' @ makeTree children relPath @ ''</li>'' @ makeItems cs relPath"

section \<open>Reading it back\<close>

text \<open>A reader of such lists: an optional list, and the items up to the end of one, each with the rest of the text.\<close>

fun read_tree :: "nat \<Rightarrow> string \<Rightarrow> menu_entry list option \<times> string"
  and read_items :: "nat \<Rightarrow> string \<Rightarrow> menu_entry list \<times> string" where
  "read_tree 0 s = (None, s)"
| "read_tree (Suc n) s =
     (if prefix ''<ul>'' s then (case read_items n (drop 4 s) of (cs, r) \<Rightarrow> (Some cs, drop 5 r)) else (None, s))"
| "read_items 0 s = ([], s)"
| "read_items (Suc n) s =
     (if prefix ''<li><a href=\"'' s then
        (let s1 = drop 13 s;
             url = takeWhile (\<lambda>c. c \<noteq> CHR 0x22) s1;
             s2 = drop (length url + 2) s1;
             text = takeWhile (\<lambda>c. c \<noteq> CHR 0x3C) s2;
             s3 = drop (length text + 4) s2
         in case read_tree n s3 of (children, s4) \<Rightarrow>
            case read_items n (drop 5 s4) of (cs, s5) \<Rightarrow> (MenuEntry text url children # cs, s5))
      else ([], s))"

text \<open>Links without quotes and names without tags.\<close>

fun plain_tree :: "menu_entry list option \<Rightarrow> bool" and plain_items :: "menu_entry list \<Rightarrow> bool" where
  "plain_tree None \<longleftrightarrow> True"
| "plain_tree (Some cs) \<longleftrightarrow> plain_items cs"
| "plain_items [] \<longleftrightarrow> True"
| "plain_items (MenuEntry text url children # cs) \<longleftrightarrow>
     CHR 0x22 \<notin> set url \<and> CHR 0x3C \<notin> set text \<and> plain_tree children \<and> plain_items cs"

text \<open>The menu with the path of the page before every link.\<close>

fun rebase_tree :: "string \<Rightarrow> menu_entry list option \<Rightarrow> menu_entry list option"
  and rebase_items :: "string \<Rightarrow> menu_entry list \<Rightarrow> menu_entry list" where
  "rebase_tree relPath None = None"
| "rebase_tree relPath (Some cs) = Some (rebase_items relPath cs)"
| "rebase_items relPath [] = []"
| "rebase_items relPath (MenuEntry text url children # cs) =
     MenuEntry text (relPath @ url) (rebase_tree relPath children) # rebase_items relPath cs"

lemma takeWhile_stop: "c \<notin> set xs \<Longrightarrow> takeWhile (\<lambda>x. x \<noteq> c) (xs @ c # ys) = xs"
  by (induction xs) auto

lemma read_item:
  assumes "CHR 0x22 \<notin> set url" and "CHR 0x3C \<notin> set text"
  shows "read_items (Suc n) (''<li><a href=\"'' @ url @ ''\">'' @ text @ ''</a>'' @ s) =
    (case read_tree n s of (children, s4) \<Rightarrow>
     case read_items n (drop 5 s4) of (cs, s5) \<Rightarrow> (MenuEntry text url children # cs, s5))"
proof -
  have "drop 13 (''<li><a href=\"'' @ x) = x" for x by (simp add: numeral_eq_Suc)
  moreover have "takeWhile (\<lambda>c. c \<noteq> CHR 0x22) (url @ ''\">'' @ x) = url" for x
    using takeWhile_stop [OF assms(1)] by simp
  moreover have "drop (length url + 2) (url @ ''\">'' @ x) = x" for x by simp
  moreover have "takeWhile (\<lambda>c. c \<noteq> CHR 0x3C) (text @ ''</a>'' @ x) = text" for x
    using takeWhile_stop [OF assms(2)] by simp
  moreover have "drop (length text + 4) (text @ ''</a>'' @ x) = x" for x by simp
  moreover have "prefix ''<li><a href=\"'' (''<li><a href=\"'' @ x)" for x by (rule prefixI) simp
  ultimately show ?thesis by (simp only: read_items.simps if_True Let_def)
qed

text \<open>Calls enough to read a menu.\<close>

fun calls_tree :: "menu_entry list option \<Rightarrow> nat" and calls_items :: "menu_entry list \<Rightarrow> nat" where
  "calls_tree None = 1"
| "calls_tree (Some cs) = Suc (calls_items cs)"
| "calls_items [] = 1"
| "calls_items (MenuEntry text url children # cs) = Suc (calls_tree children + calls_items cs)"

lemma read_made:
  shows "plain_tree t \<Longrightarrow> CHR 0x22 \<notin> set relPath \<Longrightarrow> \<not> prefix ''<ul>'' r \<Longrightarrow> calls_tree t \<le> n \<Longrightarrow>
      read_tree n (makeTree t relPath @ r) = (rebase_tree relPath t, r)"
    and "plain_items cs \<Longrightarrow> CHR 0x22 \<notin> set relPath \<Longrightarrow> \<not> prefix ''<li><a href=\"'' r \<Longrightarrow> calls_items cs \<le> n \<Longrightarrow>
      read_items n (makeItems cs relPath @ r) = (rebase_items relPath cs, r)"
proof (induction t relPath and cs relPath arbitrary: r n and r n rule: makeTree_makeItems.induct)
  case (1 relPath)
  then show ?case by (cases n) simp_all
next
  case (2 cs relPath)
  then obtain m where m: "n = Suc m" "calls_items cs \<le> m" by (cases n) auto
  have "read_items m (makeItems cs relPath @ ''</ul>'' @ r) = (rebase_items relPath cs, ''</ul>'' @ r)"
    using 2 m by (intro "2.IH") simp_all
  then show ?case using m(1) by simp
next
  case (3 relPath)
  then show ?case by (cases n) simp_all
next
  case (4 name url children cs relPath)
  then obtain m where m: "n = Suc m" "calls_tree children \<le> m" "calls_items cs \<le> m" by (cases n) auto
  have "read_tree m (makeTree children relPath @ ''</li>'' @ makeItems cs relPath @ r) =
      (rebase_tree relPath children, ''</li>'' @ makeItems cs relPath @ r)"
    using 4(3,4) m(2) by (intro "4.IH"(1)) simp_all
  moreover have "read_items m (makeItems cs relPath @ r) = (rebase_items relPath cs, r)"
    using 4(3-5) m(3) by (intro "4.IH"(2)) simp_all
  moreover have "drop 5 (''</li>'' @ x) = x" for x by (simp add: numeral_eq_Suc)
  ultimately show ?case
    using read_item [of "relPath @ url" name m "makeTree children relPath @ ''</li>'' @ makeItems cs relPath @ r"] 4(3,4) m(1)
    by simp
qed

text \<open>C31: From the menu that makeTree writes, every name, link and level can be read back: links of plain
  characters and names without tags are neither lost nor mixed up.\<close>
theorem menu_read_back:
  assumes "plain_tree t" and "CHR 0x22 \<notin> set relPath"
  shows "\<exists>n. \<forall>m \<ge> n. read_tree m (makeTree t relPath) = (rebase_tree relPath t, '''')"
proof (intro exI allI impI)
  fix m assume "calls_tree t \<le> m"
  with read_made(1) [OF assms, of "''''" m] show "read_tree m (makeTree t relPath) = (rebase_tree relPath t, '''')" by simp
qed

section \<open>The menu of the documentation\<close>

text \<open>The data of html/menudata.js.\<close>

definition leaf :: "string \<Rightarrow> string \<Rightarrow> menu_entry" where
  "leaf name url = MenuEntry name url None"

definition branch :: "string \<Rightarrow> string \<Rightarrow> menu_entry list \<Rightarrow> menu_entry" where
  "branch name url cs = MenuEntry name url (Some cs)"

definition menudata :: "menu_entry list option" where
  "menudata = Some [
    leaf ''Main Page'' ''index.html'',
    leaf ''Related Pages'' ''pages.html'',
    branch ''Namespaces'' ''namespaces.html'' [
      leaf ''Namespace List'' ''namespaces.html'',
      branch ''Namespace Members'' ''namespacemembers.html'' [
        leaf ''All'' ''namespacemembers.html'',
        leaf ''Variables'' ''namespacemembers_vars.html'']],
    branch ''Classes'' ''annotated.html'' [
      leaf ''Class List'' ''annotated.html'',
      leaf ''Class Index'' ''classes.html'',
      branch ''Class Members'' ''functions.html'' [
        leaf ''All'' ''functions.html'',
        leaf ''Variables'' ''functions_vars.html'']],
    branch ''Files'' ''files.html'' [
      leaf ''File List'' ''files.html'',
      branch ''File Members'' ''globals.html'' [
        branch ''All'' ''globals.html'' [
          leaf ''b'' ''globals.html#index_b'',
          leaf ''c'' ''globals.html#index_c'',
          leaf ''e'' ''globals.html#index_e'',
          leaf ''f'' ''globals.html#index_f'',
          leaf ''g'' ''globals.html#index_g'',
          leaf ''h'' ''globals.html#index_h'',
          leaf ''i'' ''globals.html#index_i'',
          leaf ''l'' ''globals.html#index_l'',
          leaf ''m'' ''globals.html#index_m'',
          leaf ''n'' ''globals.html#index_n'',
          leaf ''p'' ''globals.html#index_p'',
          leaf ''s'' ''globals.html#index_s'',
          leaf ''v'' ''globals.html#index_v''],
        branch ''Functions'' ''globals_func.html'' [
          leaf ''b'' ''globals_func.html#index_b'',
          leaf ''c'' ''globals_func.html#index_c'',
          leaf ''e'' ''globals_func.html#index_e'',
          leaf ''f'' ''globals_func.html#index_f'',
          leaf ''g'' ''globals_func.html#index_g'',
          leaf ''h'' ''globals_func.html#index_h'',
          leaf ''l'' ''globals_func.html#index_l'',
          leaf ''m'' ''globals_func.html#index_m'',
          leaf ''n'' ''globals_func.html#index_n'',
          leaf ''p'' ''globals_func.html#index_p'',
          leaf ''s'' ''globals_func.html#index_s'',
          leaf ''v'' ''globals_func.html#index_v''],
        leaf ''Typedefs'' ''globals_type.html'',
        leaf ''Macros'' ''globals_defs.html'']]]"

lemma menudata_plain: "plain_tree menudata"
  by (simp add: menudata_def branch_def leaf_def)

theorem menu_read_back_witness:
  "\<exists>n. \<forall>m \<ge> n. read_tree m (makeTree menudata ''../'') = (rebase_tree ''../'' menudata, [])"
  by (rule menu_read_back [OF menudata_plain]) simp

end
