(* ===== verification/Spec2Isabelle.thy ===== *)
theory Spec2Isabelle
  imports Rendering Showing ResultsUse PanelRuns Menu
begin

text \<open>
  The JavaScript and TypeScript of this repository: the WebGL solar system of Computergrafik/src and the
  search and the menu of the documentation in Projekt_Systementwicklung/html.

  \<^bold>\<open>The solar system.\<close>  \<open>WebGLStart\<close> is a singleton that owns the WebGL context and the shader program; the
  script szenegraph/index.ts builds a graph of nodes, all subclasses of \<open>SGNode\<close>, registers the
  controllers and draws a frame whenever the browser calls back; \<open>Scenegraph.drawTraversal\<close> walks the
  graph with a \<open>MatrixStack\<close>, hands each node's matrix to the shaders and calls its \<open>draw\<close>.

    \<^item> Theory Prelude: numbers, results, exceptions.  GlMatrix: the package gl-matrix, which is not in the
      repository, as a record of functions and the locale \<open>gl_matrix\<close> of its documented laws, interpreted on a
      reference implementation, and its extension \<open>gl_matrix_nan\<close> for rotations by NaN; RefPlatform adds the rest of the platform.
    \<^item> WebGL: the state machine behind the context (\<open>gl_state\<close>), which refuses wrong calls, counts them and records
      what is drawn.  WebGLStart: triangle/webglstart.ts (\<open>getInstance\<close>, \<open>new_webgl_start\<close>, \<open>initShaders\<close>,
      \<open>createShaders\<close>, \<open>webGLStartExample\<close>) with the locale \<open>lazy_singleton\<close>, interpreted here and for \<open>Framerate\<close>.
    \<^item> Forms: triangle/triangle.ts, forms/square.ts, forms/cube.ts, szenegraph/cubeNode.ts.  Sphere:
      szenegraph/sphereNode.ts and the older sphere.ts.  Both with the locale \<open>drawable\<close> of what is made once and
      drawn every frame.  Rendering holds their properties.
    \<^item> Timer: szenegraph/timer.ts and framerate.ts; the clock is a sequence of readings.  MatrixStack:
      matrixstack/matrixstack.ts, on addresses of a store of matrix objects (\<open>object_push\<close>, \<open>object_pop\<close>) and on
      the matrices themselves (\<open>stack_push\<close>, \<open>stack_pop\<close>), the refinement between the two and the locale \<open>stack\<close>.  Motion: orbit.ts and planet.ts.  Camera: camera.ts.
      GameController: keyboard/gamecontroller.ts, with the inductive relation \<open>pad_step\<close> of its events.
      Lighting: materiallights/light.ts, material.ts and texture/texture.ts.
    \<^item> SGNode: the nodes as records in a store with the subclass in \<open>body\<close>.  Scenegraph: scenegraph.ts
      (\<open>drawTraversal\<close>, \<open>place_node\<close>, \<open>scene_draw\<close>), and the same traversal with the matrices overwritten in place
      (\<open>object_traversal\<close>), which it refines.  FrameStep, Traversal and Frame: one node drawn, the whole
      traversal, what a frame shows.  Construction and SolarSystem: szenegraph/index.ts up to the scene
      (\<open>new_scene\<close>, \<open>wiring\<close>).  Application: \<open>drawScene\<close> and the events of the running program (\<open>app_runs\<close>),
      with the set of the gamepads the browser reports as an argument.

  The lemmas show that construction and every handler keep the world good (\<open>world_ok\<close>, \<open>app_inv\<close>), that the
  traversal with its stack equals a recursion without it and a pass over the list of all nodes, and what
  each frame draws; the properties of theories Application and Showing combine them for the program as it is
  wired together.

  \<^bold>\<open>The search of the documentation\<close> (html/search/search.js).  \<open>SearchBox\<close> watches the search field and
  opens, after a pause, a page of results in a frame, with the word in its address; that page builds its
  rows with \<open>createResults\<close> and filters them with \<open>SearchResults.Search\<close>.

    \<^item> JsString: strings as lists of 16-bit units, \<open>convertToId\<close>.  Escape: \<open>escape\<close> and \<open>unescape\<close> of the
      language.  Both codes are instances of the locale \<open>unit_code\<close>.  Dom: the elements of a document.
    \<^item> SearchResults: \<open>createResults\<close> and the class \<open>SearchResults\<close>, one definition per method; its loops over
      numbered ids end by the locale \<open>numbered_ids\<close>.  Results: the document that is built, in closed form;
      ResultsFilter: \<open>Search\<close> on it; ResultsKeys and ResultsWalk: lookups, and the arrow keys as a walk along
      the list of places (\<open>stops\<close>); ResultsPage: well-formedness and \<open>Toggle\<close>; ResultsUse: all of it under any
      sequence of events (\<open>page_runs\<close>).
    \<^item> Menu: \<open>makeTree\<close> of html/menu.js with the data of html/menudata.js, and a reader of what it writes.
    \<^item> SearchBox: the class \<open>SearchBox\<close> with its document, timeouts and frame in one record (\<open>panel\<close>).  A handler that
      raises returns the exception with the panel as it left it.  Panel: from the typed word to the rows that are
      shown.  PanelRuns: the states of the panel (\<open>panel_runs\<close>) and their invariant.

  \<^bold>\<open>Fuel and termination.\<close>  \<open>drawTraversal\<close> is recursive in the code; its fuel is the depth of the call stack and
  running out is the RangeError the language raises.  On a graph without cycles one more than the longest path
  is enough, which is 6 for the solar system.  \<open>walk\<close>, \<open>climb\<close> and \<open>sum_offsets\<close> follow links of the document and
  need not end on any document: they are partial functions whose value None is that they do not, and on the pages
  the code builds they do.  Every other loop is a total function.

  \<^bold>\<open>Assumptions.\<close>  The laws of gl-matrix (locales \<open>gl_matrix\<close> and \<open>gl_matrix_nan\<close>); where a property speaks of
  the running program and says so, that every gamepad the browser reports has at least five axes with
  finite values (\<open>pad_good\<close>): a pad in the standard layout has four, and stops the animation (theory
  Application); finite numbers are exact reals; the shaders
  link or not as the platform says; \<open>toLowerCase\<close> lowers ASCII letters and keeps the rest of ASCII
  (\<open>lowers_ascii\<close>); the offset parents of a layout come to an end (\<open>laid_out\<close>); the elements the scripts look up in
  the static part of the pages exist.

  \<^bold>\<open>Not modelled.\<close>  keyboard/keyboarddemo.ts (its \<open>rotate\<close> is commented out) and triangle/triang-index.ts
  (all of it is a comment); the GLSL shaders beyond the uniforms, attributes and samplers they read; in html, the rest
  of menu.js and all of dynsections.js, which only call jQuery, but for the focus handlers menu.js gives the search
  field; jquery.js and
  the index data (generated or third-party); the copies of the documentation in cmake-build-debug; sketch.js
  (p5 calls with random colours); webpack.config.js; and the parts of the repository in other languages.
\<close>

end
